(* ===== verification/Waf_Prelude.thy ===== *)
theory Waf_Prelude
  imports "HOL-Library.AList"
begin

text \<open>
  Generic material shared by the components: the collections that the component
  proofs draw on, and the slice and map operations that several packages repeat.
\<close>

section \<open>Collections\<close>

named_theorems go_simps \<open>defining equations of the models of the Go standard library\<close>
named_theorems waf_defs \<open>unfoldings of the operations of the components\<close>
named_theorems waf_inv \<open>preservation of component invariants\<close>

section \<open>Deleting the first element that satisfies a predicate\<close>

text \<open>
  The idiom \<^verbatim>\<open>for i, x := range xs { if p(x) { xs = append(xs[:i], xs[i+1:]...); return } }\<close>.
\<close>

fun delete_first :: "('a \<Rightarrow> bool) \<Rightarrow> 'a list \<Rightarrow> 'a list" where
  "delete_first p [] = []"
| "delete_first p (x # xs) = (if p x then xs else x # delete_first p xs)"

lemma delete_first_none [simp]: "(\<And>x. x \<in> set xs \<Longrightarrow> \<not> p x) \<Longrightarrow> delete_first p xs = xs"
  by (induction xs) auto

lemma delete_first_split:
  "\<lbrakk>p x; \<And>y. y \<in> set ys \<Longrightarrow> \<not> p y\<rbrakk> \<Longrightarrow> delete_first p (ys @ x # zs) = ys @ zs"
  by (induction ys) auto

lemma length_delete_first:
  "length (delete_first p xs) = (if \<exists>x \<in> set xs. p x then length xs - 1 else length xs)"
proof (induction xs)
  case (Cons x xs)
  then show ?case by (cases xs) auto
qed simp

lemma set_delete_first_subset: "set (delete_first p xs) \<subseteq> set xs"
  by (induction xs) auto

lemma distinct_delete_first:
  "distinct (map f xs) \<Longrightarrow> distinct (map f (delete_first p xs))"
  by (induction xs) (use set_delete_first_subset in fastforce)+

lemma delete_first_key:
  "distinct (map f xs) \<Longrightarrow> delete_first (\<lambda>x. f x = k) xs = filter (\<lambda>x. f x \<noteq> k) xs"
proof (induction xs)
  case (Cons x xs)
  then show ?case
    by (auto simp: image_iff intro!: filter_True[symmetric])
qed simp

lemma delete_first_eq:
  "distinct xs \<Longrightarrow> delete_first ((=) k) xs = filter (\<lambda>x. x \<noteq> k) xs"
proof (induction xs)
  case (Cons x xs)
  then show ?case by (auto intro!: filter_True[symmetric])
qed simp

section \<open>Repeating a step that may fail\<close>

text \<open>A run of one operation over a list of inputs; \<^verbatim>\<open>None\<close> is a run-time panic.\<close>

fun fold_opt :: "('i \<Rightarrow> 's \<Rightarrow> 's option) \<Rightarrow> 'i list \<Rightarrow> 's \<Rightarrow> 's option" where
  "fold_opt f [] s = Some s"
| "fold_opt f (i # us) s = (case f i s of None \<Rightarrow> None | Some s' \<Rightarrow> fold_opt f us s')"

lemma fold_opt_append:
  "fold_opt f (us @ vs) s = (case fold_opt f us s of None \<Rightarrow> None | Some s' \<Rightarrow> fold_opt f vs s')"
  by (induction us arbitrary: s) (auto split: option.splits)

lemma fold_opt_inv:
  assumes "\<And>i s s'. P s \<Longrightarrow> f i s = Some s' \<Longrightarrow> P s'"
  shows "P s \<Longrightarrow> fold_opt f us s = Some s' \<Longrightarrow> P s'"
  by (induction us arbitrary: s) (auto split: option.splits intro: assms)

section \<open>The last elements of a list\<close>

definition last_n :: "nat \<Rightarrow> 'a list \<Rightarrow> 'a list" where
  "last_n n xs = drop (length xs - n) xs"

lemma length_last_n [simp]: "length (last_n n xs) = min n (length xs)"
  by (simp add: last_n_def)

lemma last_n_all: "length xs \<le> n \<Longrightarrow> last_n n xs = xs"
  by (simp add: last_n_def)

lemma last_n_append:
  "0 < n \<Longrightarrow> last_n n (last_n n xs @ ys) = last_n n (xs @ ys)"
  by (cases "length xs \<le> n") (simp_all add: last_n_def add.commute)

section \<open>Searching a list\<close>

lemma map_filter_cong_set:
  "(\<And>x. x \<in> set xs \<Longrightarrow> f x = g x) \<Longrightarrow> List.map_filter f xs = List.map_filter g xs"
  by (induction xs) (auto simp: List.map_filter_simps split: option.splits)

lemma map_filter_append: "List.map_filter f (xs @ ys) = List.map_filter f xs @ List.map_filter f ys"
  by (induction xs) (auto simp: List.map_filter_simps split: option.splits)

lemma find_append: "find p (xs @ ys) = (case find p xs of None \<Rightarrow> find p ys | Some x \<Rightarrow> Some x)"
  by (induction xs) auto

lemma find_cong_set: "(\<And>x. x \<in> set xs \<Longrightarrow> p x = q x) \<Longrightarrow> find p xs = find q xs"
  by (induction xs) auto

lemma find_SomeD: "find p xs = Some x \<Longrightarrow> x \<in> set xs \<and> p x"
  by (induction xs) (auto split: if_splits)

section \<open>Counting by key\<close>

text \<open>
  The idiom \<^verbatim>\<open>m := make(map[K]V); for _, r := range rs { m[key(r)] = f(r, m[key(r)]) }\<close>
  over an association list: the keys stay in the order of their first occurrence.
\<close>

fun upsert :: "'k \<Rightarrow> 'v \<Rightarrow> ('v \<Rightarrow> 'v) \<Rightarrow> ('k \<times> 'v) list \<Rightarrow> ('k \<times> 'v) list" where
  "upsert k d f [] = [(k, f d)]"
| "upsert k d f ((k', v) # m) = (if k' = k then (k', f v) # m else (k', v) # upsert k d f m)"

definition group_by :: "('r \<Rightarrow> 'k) \<Rightarrow> 'v \<Rightarrow> ('r \<Rightarrow> 'v \<Rightarrow> 'v) \<Rightarrow> 'r list \<Rightarrow> ('k \<times> 'v) list" where
  "group_by key d f rs = fold (\<lambda>r. upsert (key r) d (f r)) rs []"

lemma fst_upsert: "fst ` set (upsert k d f m) = insert k (fst ` set m)"
  by (induction m rule: upsert.induct) auto

lemma distinct_upsert: "distinct (map fst m) \<Longrightarrow> distinct (map fst (upsert k d f m))"
proof (induction m)
  case (Cons kv m)
  obtain k' v where kv: "kv = (k', v)" by force
  have "fst ` set (upsert k d f m) = insert k (fst ` set m)" by (rule fst_upsert)
  with Cons kv show ?case by (cases "k' = k") (simp_all flip: set_map)
qed simp

lemma map_of_upsert:
  "map_of (upsert k d f m) = (map_of m)(k \<mapsto> f (case map_of m k of None \<Rightarrow> d | Some v \<Rightarrow> v))"
  by (induction k d f m rule: upsert.induct) auto

lemma distinct_group_by: "distinct (map fst (group_by key d f rs))"
proof -
  have "distinct (map fst m) \<Longrightarrow> distinct (map fst (fold (\<lambda>r. upsert (key r) d (f r)) rs m))" for m
    by (induction rs arbitrary: m) (auto intro: distinct_upsert)
  then show ?thesis by (simp add: group_by_def)
qed

lemma map_of_group_by:
  "map_of (group_by key d f rs) k =
     (if k \<in> key ` set rs then Some (fold f (filter (\<lambda>r. key r = k) rs) d) else None)"
proof (induction rs rule: rev_induct)
  case (snoc r rs)
  have "key r \<notin> key ` set rs \<Longrightarrow> filter (\<lambda>x. key x = key r) rs = []"
    by (metis (mono_tags, lifting) filter_False image_eqI)
  with snoc show ?case by (auto simp: group_by_def map_of_upsert)
qed (simp add: group_by_def)

lemma group_by_mem:
  "(k, v) \<in> set (group_by key d f rs) \<longleftrightarrow>
     k \<in> key ` set rs \<and> v = fold f (filter (\<lambda>r. key r = k) rs) d"
  using map_of_eq_Some_iff[OF distinct_group_by, of key d f rs k v]
  by (simp add: map_of_group_by split: if_splits) (metis (no_types))

lemma fold_count: "fold (\<lambda>r n. if p r then Suc n else n) rs n = n + length (filter p rs)"
  by (induction rs arbitrary: n) auto

lemma nth_update_split: "xs[i := x] ! j = (if i = j \<and> j < length xs then x else xs ! j)"
  by (cases "i < length xs") (auto simp: nth_list_update list_update_beyond not_less)

lemma list_all_update: "list_all P xs \<Longrightarrow> P (k, v) \<Longrightarrow> list_all P (AList.update k v xs)"
  by (induction xs) auto

end
