(* ===== verification/Interfaces.thy ===== *)
theory Interfaces
  imports Waf_Prelude
begin

text \<open>
  The contracts that several components share. \<^theory_text>\<open>first_match\<close> is a rule list evaluated
  in order until a rule applies (the policy engine, the custom rules). \<^theory_text>\<open>record_ring\<close> is
  a bounded buffer that overwrites its oldest record (the audit store, the learning
  engine). Each is interpreted on the models of the components that implement it.
\<close>

section \<open>First matching rule\<close>

locale first_match =
  fixes eval :: "'rule list \<Rightarrow> 'req \<Rightarrow> 'res"
    and applies :: "'rule \<Rightarrow> 'req \<Rightarrow> bool"
    and verdict :: "'rule \<Rightarrow> 'res"
    and no_match :: 'res
  assumes eval_Nil: "eval [] q = no_match"
    and eval_Cons: "eval (r # rs) q = (if applies r q then verdict r else eval rs q)"
begin

lemma eval_find:
  "eval rs q = (case find (\<lambda>r. applies r q) rs of None \<Rightarrow> no_match | Some r \<Rightarrow> verdict r)"
  by (induction rs) (auto simp: eval_Nil eval_Cons)

lemma eval_none: "(\<And>r. r \<in> set rs \<Longrightarrow> \<not> applies r q) \<Longrightarrow> eval rs q = no_match"
  by (induction rs) (auto simp: eval_Nil eval_Cons)

lemma eval_first:
  "\<lbrakk>\<And>p. p \<in> set ps \<Longrightarrow> \<not> applies p q; applies r q\<rbrakk> \<Longrightarrow> eval (ps @ r # rs) q = verdict r"
  by (induction ps) (auto simp: eval_Cons)

lemma eval_snoc:
  "eval (rs @ [r]) q =
     (if \<exists>p \<in> set rs. applies p q then eval rs q else if applies r q then verdict r else no_match)"
  by (induction rs) (auto simp: eval_Nil eval_Cons)

lemma eval_filter: "eval (filter (\<lambda>r. applies r q) rs) q = eval rs q"
  by (induction rs) (auto simp: eval_Nil eval_Cons)

lemma eval_delete_unmatched:
  "(\<And>r. r \<in> set rs \<Longrightarrow> p r \<Longrightarrow> \<not> applies r q) \<Longrightarrow> eval (delete_first p rs) q = eval rs q"
  by (induction rs) (auto simp: eval_Cons)

lemma eval_cases:
  obtains "eval rs q = no_match" "\<And>r. r \<in> set rs \<Longrightarrow> \<not> applies r q"
  | ps r us where "rs = ps @ r # us" "\<And>p. p \<in> set ps \<Longrightarrow> \<not> applies p q" "applies r q" "eval rs q = verdict r"
proof (cases "\<exists>r \<in> set rs. applies r q")
  case True
  then obtain ps r us where "rs = ps @ r # us" "applies r q" "\<forall>p \<in> set ps. \<not> applies p q"
    using split_list_first_prop[OF True] by blast
  then show ?thesis using that(2) eval_first by blast
next
  case False
  then show ?thesis using that(1) eval_none by blast
qed

end

section \<open>Bounded ring of records\<close>

text \<open>The slot order turned into the order of arrival: the oldest record is at \<^verbatim>\<open>pos\<close>.\<close>

definition chronological :: "nat \<Rightarrow> 'e list \<Rightarrow> 'e list" where
  "chronological pos xs = drop pos xs @ take pos xs"

definition ring_wf :: "nat \<Rightarrow> nat \<Rightarrow> 'e list \<Rightarrow> bool" where
  "ring_wf cap pos xs =
     (0 < cap \<and> length xs \<le> cap \<and> pos < cap \<and> (length xs < cap \<longrightarrow> pos = 0))"

lemma length_chronological [simp]: "length (chronological pos xs) = length xs"
  by (simp add: chronological_def)

lemma chronological_0 [simp]: "chronological 0 xs = xs"
  by (simp add: chronological_def)

lemma chronological_set [simp]: "set (chronological pos xs) = set xs"
  by (metis append_take_drop_id chronological_def set_append sup_commute)

lemma ring_wf_append:
  "ring_wf cap pos xs \<Longrightarrow> length xs < cap \<Longrightarrow>
   ring_wf cap pos (xs @ [e]) \<and> chronological pos (xs @ [e]) = last_n cap (chronological pos xs @ [e])"
  by (auto simp: ring_wf_def last_n_def)

lemma ring_wf_overwrite:
  assumes wf: "ring_wf cap pos xs" and full: "\<not> length xs < cap"
  shows "ring_wf cap ((pos + 1) mod cap) (xs[pos := e])"
    and "chronological ((pos + 1) mod cap) (xs[pos := e]) = last_n cap (chronological pos xs @ [e])"
proof -
  have len: "length xs = cap" "pos < cap" "0 < cap" using wf full by (auto simp: ring_wf_def)
  then show "ring_wf cap ((pos + 1) mod cap) (xs[pos := e])" by (simp add: ring_wf_def)
  have "last_n cap (chronological pos xs @ [e]) = tl (chronological pos xs) @ [e]"
    using len by (simp add: last_n_def drop_Suc)
  also have "\<dots> = drop (Suc pos) xs @ take pos xs @ [e]"
    using len by (simp add: chronological_def tl_drop drop_Suc)
  also have "\<dots> = chronological ((pos + 1) mod cap) (xs[pos := e])"
  proof (cases "Suc pos = cap")
    case True
    with len show ?thesis
      by (auto simp: chronological_def upd_conv_take_nth_drop)
  next
    case False
    with len show ?thesis
      by (simp add: chronological_def upd_conv_take_nth_drop min_def)
  qed
  finally show "chronological ((pos + 1) mod cap) (xs[pos := e]) = last_n cap (chronological pos xs @ [e])" ..
qed

locale record_ring =
  fixes push :: "'i \<Rightarrow> 's \<Rightarrow> 's option"
    and stored :: "'i \<Rightarrow> 'e"
    and slots :: "'s \<Rightarrow> 'e list"
    and pos :: "'s \<Rightarrow> nat"
    and cap :: "'s \<Rightarrow> nat"
    and live :: "'s \<Rightarrow> bool"
  assumes push_room: "\<lbrakk>live s; length (slots s) < cap s\<rbrakk> \<Longrightarrow>
      \<exists>s'. push i s = Some s' \<and> slots s' = slots s @ [stored i] \<and> pos s' = pos s \<and> cap s' = cap s \<and> live s'"
    and push_full: "\<lbrakk>live s; \<not> length (slots s) < cap s; pos s < length (slots s)\<rbrakk> \<Longrightarrow>
      \<exists>s'. push i s = Some s' \<and> slots s' = (slots s)[pos s := stored i] \<and>
           pos s' = (pos s + 1) mod cap s \<and> cap s' = cap s \<and> live s'"
    and push_off: "\<not> live s \<Longrightarrow> push i s = Some s"
begin

lemma push_step:
  assumes "live s" and "ring_wf (cap s) (pos s) (slots s)"
  obtains s' where "push i s = Some s'" "live s'" "cap s' = cap s"
    "ring_wf (cap s') (pos s') (slots s')"
    "chronological (pos s') (slots s') = last_n (cap s) (chronological (pos s) (slots s) @ [stored i])"
proof (cases "length (slots s) < cap s")
  case True
  with push_room[OF assms(1) True, of i] ring_wf_append[OF assms(2) True] that show ?thesis by metis
next
  case False
  with assms(2) have "pos s < length (slots s)" by (auto simp: ring_wf_def)
  from push_full[OF assms(1) False this, of i] ring_wf_overwrite[OF assms(2) False] that
  show ?thesis by metis
qed

lemma push_all:
  assumes "live s" and "ring_wf (cap s) (pos s) (slots s)"
  shows "\<exists>s'. fold_opt push us s = Some s' \<and> live s' \<and> cap s' = cap s \<and>
     ring_wf (cap s) (pos s') (slots s') \<and>
     chronological (pos s') (slots s') = last_n (cap s) (chronological (pos s) (slots s) @ map stored us)"
  using assms
proof (induction us arbitrary: s)
  case Nil
  then show ?case by (simp add: last_n_all ring_wf_def)
next
  case (Cons i us)
  from Cons.prems obtain s1 where s1: "push i s = Some s1" "live s1" "cap s1 = cap s"
    "ring_wf (cap s1) (pos s1) (slots s1)"
    "chronological (pos s1) (slots s1) = last_n (cap s) (chronological (pos s) (slots s) @ [stored i])"
    by (rule push_step)
  have cap: "0 < cap s" using Cons.prems by (simp add: ring_wf_def)
  from Cons.IH[OF s1(2,4)] obtain s' where
    "fold_opt push us s1 = Some s'" "live s'" "cap s' = cap s" "ring_wf (cap s) (pos s') (slots s')"
    "chronological (pos s') (slots s') =
       last_n (cap s) (last_n (cap s) (chronological (pos s) (slots s) @ [stored i]) @ map stored us)"
    using s1 by auto
  then show ?case using s1 last_n_append[OF cap, of "chronological (pos s) (slots s) @ [stored i]"]
    by simp
qed

lemma push_all_off: "\<not> live s \<Longrightarrow> fold_opt push us s = Some s"
  by (induction us) (auto simp: push_off)

end

section \<open>Limiters with a budget\<close>

text \<open>
  The contract that the rate limiters share at one point in time: a request is admitted
  while the budget of its key is positive, and takes one unit of it. \<^verbatim>\<open>None\<close> is an error.
\<close>

fun run_limiter :: "('s \<Rightarrow> (bool \<times> 's) option) \<Rightarrow> nat \<Rightarrow> 's \<Rightarrow> (bool list \<times> 's) option" where
  "run_limiter allow 0 s = Some ([], s)"
| "run_limiter allow (Suc n) s =
     (case allow s of
        None \<Rightarrow> None
      | Some (v, s') \<Rightarrow>
         (case run_limiter allow n s' of None \<Rightarrow> None | Some (vs, s'') \<Rightarrow> Some (v # vs, s'')))"

locale budget_limiter =
  fixes allow :: "'s \<Rightarrow> (bool \<times> 's) option"
    and budget :: "'s \<Rightarrow> nat"
    and sound :: "'s \<Rightarrow> bool"
  assumes allow_step:
    "sound s \<Longrightarrow> \<exists>s'. allow s = Some (0 < budget s, s') \<and> sound s' \<and> budget s' = budget s - 1"
begin

lemma burst:
  "sound s \<Longrightarrow> \<exists>s'. run_limiter allow n s =
     Some (replicate (min n (budget s)) True @ replicate (n - budget s) False, s') \<and> sound s'"
proof (induction n arbitrary: s)
  case (Suc n)
  obtain s1 where s1: "allow s = Some (0 < budget s, s1)" "sound s1" "budget s1 = budget s - 1"
    using allow_step[OF Suc.prems] by blast
  obtain s2 where "run_limiter allow n s1 =
      Some (replicate (min n (budget s1)) True @ replicate (n - budget s1) False, s2)" "sound s2"
    using Suc.IH[OF s1(2)] by blast
  with s1 show ?case by (cases "budget s") (auto simp: min_def)
qed auto

lemma admits_at_most_budget:
  assumes "sound s" "run_limiter allow n s = Some (vs, s')"
  shows "length (filter id vs) = min n (budget s)"
  using burst[OF assms(1), of n] assms(2) by auto

end

end
