(* ===== verification/GoFloat.thy ===== *)
theory GoFloat
  imports Complex_Main "HOL-Library.Log_Nat" Waf_Prelude
begin

text \<open>
  Go's \<^verbatim>\<open>float64\<close> as far as the program uses it: every finite value is a rational, and
  each arithmetic operation rounds its exact result to a 53-bit significand, ties to
  even (IEEE 754 binary64). The exponent range is not bounded here: the magnitudes
  of the program (scores, ratios, tokens, seconds) stay far from overflow and from the
  subnormal range. The operations that the source applies are \<open>fadd\<close>, \<open>fsub\<close>, \<open>fmul\<close>,
  \<open>fdiv\<close> and the conversion \<open>fl\<close> of an integer or of a decimal constant.
\<close>

type_synonym float64 = rat

section \<open>Rounding\<close>

definition round_even :: "rat \<Rightarrow> int" where
  "round_even x =
     (let f = \<lfloor>x\<rfloor>; r = x - of_int f
      in if r < 1/2 then f else if r > 1/2 then f + 1 else if even f then f else f + 1)"

lemma round_even_of_int [simp]: "round_even (of_int n) = n"
  by (simp add: round_even_def)

lemma round_even_bounds: "\<lfloor>x\<rfloor> \<le> round_even x" "round_even x \<le> \<lfloor>x\<rfloor> + 1"
  by (auto simp: round_even_def Let_def)

lemma round_even_mono: "x \<le> y \<Longrightarrow> round_even x \<le> round_even y"
proof -
  assume le: "x \<le> y"
  then have fl: "\<lfloor>x\<rfloor> \<le> \<lfloor>y\<rfloor>" by (rule floor_mono)
  show ?thesis
  proof (cases "\<lfloor>x\<rfloor> = \<lfloor>y\<rfloor>")
    case True
    with le show ?thesis by (auto simp: round_even_def Let_def)
  next
    case False
    with fl have "\<lfloor>x\<rfloor> + 1 \<le> \<lfloor>y\<rfloor>" by simp
    then show ?thesis using round_even_bounds(2)[of x] round_even_bounds(1)[of y] by linarith
  qed
qed

text \<open>The binary exponent of a positive rational, from the bit lengths of its fraction.\<close>

definition exponent :: "rat \<Rightarrow> int" where
  "exponent q =
     (let (n, d) = quotient_of q; k = bitlen n - bitlen d
      in if 2 powi k \<le> q then k else k - 1)"

lemma powi2_less_iff [simp]: "(2::rat) powi a < 2 powi b \<longleftrightarrow> a < b"
proof
  assume "(2::rat) powi a < 2 powi b"
  then show "a < b" using power_int_increasing[of b a "2::rat"] by force
qed (rule power_int_strict_increasing, auto)

lemma exponent_bounds:
  assumes "0 < q"
  shows "2 powi (exponent q) \<le> q" and "q < 2 powi (exponent q + 1)"
proof -
  obtain n d where qd: "quotient_of q = (n, d)" by (cases "quotient_of q")
  then have d: "0 < d" and q: "q = of_int n / of_int d"
    using quotient_of_denom_pos quotient_of_div by blast+
  with assms have n: "0 < n" by (simp add: zero_less_divide_iff)
  define a b where "a = bitlen n" and "b = bitlen d"
  have ab: "1 \<le> a" "1 \<le> b"
    using n d bitlen_nonneg bitlen_eq_zero_iff
    by (smt (verit) a_def b_def)+
  have nb: "(2::rat) powi (a - 1) \<le> of_int n" "of_int n < (2::rat) powi a"
  proof -
    have "2 ^ nat (a - 1) \<le> n" "n < 2 ^ nat a"
      using bitlen_bounds[OF n] by (simp_all add: a_def)
    then have "(of_int (2 ^ nat (a - 1)) :: rat) \<le> of_int n" "(of_int n :: rat) < of_int (2 ^ nat a)"
      by (simp_all only: of_int_le_iff of_int_less_iff)
    then show "(2::rat) powi (a - 1) \<le> of_int n" "of_int n < (2::rat) powi a"
      using ab by (simp_all add: power_int_def)
  qed
  have db: "(2::rat) powi (b - 1) \<le> of_int d" "of_int d < (2::rat) powi b"
  proof -
    have "2 ^ nat (b - 1) \<le> d" "d < 2 ^ nat b"
      using bitlen_bounds[OF d] by (simp_all add: b_def)
    then have "(of_int (2 ^ nat (b - 1)) :: rat) \<le> of_int d" "(of_int d :: rat) < of_int (2 ^ nat b)"
      by (simp_all only: of_int_le_iff of_int_less_iff)
    then show "(2::rat) powi (b - 1) \<le> of_int d" "of_int d < (2::rat) powi b"
      using ab by (simp_all add: power_int_def)
  qed
  have lo: "2 powi (a - b - 1) \<le> q"
  proof -
    have "(2::rat) powi (a - b - 1) = 2 powi (a - 1) / 2 powi b"
      by (simp flip: power_int_diff add: algebra_simps)
    also have "\<dots> \<le> of_int n / of_int d"
      using nb db d n by (intro frac_le) auto
    finally show ?thesis by (simp add: q)
  qed
  have hi: "q < 2 powi (a - b + 1)"
  proof -
    have "of_int n / of_int d < (2::rat) powi a / 2 powi (b - 1)"
      using nb db n by (intro frac_less) auto
    also have "\<dots> = 2 powi (a - b + 1)"
      by (simp flip: power_int_diff add: algebra_simps)
    finally show ?thesis by (simp add: q)
  qed
  have e: "exponent q = (if 2 powi (a - b) \<le> q then a - b else a - b - 1)"
    by (simp add: exponent_def qd a_def b_def)
  show "2 powi (exponent q) \<le> q" using lo by (simp add: e)
  show "q < 2 powi (exponent q + 1)" using hi by (simp add: e)
qed

lemma exponent_unique:
  assumes "2 powi e \<le> q" and "q < (2::rat) powi (e + 1)"
  shows "exponent q = e"
proof -
  have q: "0 < q" using assms(1) by (rule less_le_trans[rotated]) simp
  have "(2::rat) powi e < 2 powi (exponent q + 1)" "(2::rat) powi (exponent q) < 2 powi (e + 1)"
    using assms exponent_bounds[OF q] by linarith+
  then show ?thesis
    using powi2_less_iff[of e "exponent q + 1"] powi2_less_iff[of "exponent q" "e + 1"] by linarith
qed

definition fl_pos :: "rat \<Rightarrow> rat" where
  "fl_pos q = (let u = 2 powi (exponent q - 52) in u * of_int (round_even (q / u)))"

definition fl :: "rat \<Rightarrow> float64" where
  "fl q = (if q = 0 then 0 else if 0 < q then fl_pos q else - fl_pos (- q))"

definition fadd :: "float64 \<Rightarrow> float64 \<Rightarrow> float64" where "fadd a b = fl (a + b)"
definition fsub :: "float64 \<Rightarrow> float64 \<Rightarrow> float64" where "fsub a b = fl (a - b)"
definition fmul :: "float64 \<Rightarrow> float64 \<Rightarrow> float64" where "fmul a b = fl (a * b)"
definition fdiv :: "float64 \<Rightarrow> float64 \<Rightarrow> float64" where "fdiv a b = fl (a / b)"

text \<open>\<^verbatim>\<open>float64(n)\<close> for an integer \<open>n\<close>.\<close>

definition float_of_int :: "int \<Rightarrow> float64" where "float_of_int n = fl (of_int n)"

lemma fl_0 [simp]: "fl 0 = 0"
  by (simp add: fl_def)

lemma fl_minus: "fl (- q) = - fl q"
  by (auto simp: fl_def)

lemma fl_pos_eq:
  assumes "2 powi e \<le> q" and "q < 2 powi (e + 1)"
  shows "fl q = 2 powi (e - 52) * of_int (round_even (q / 2 powi (e - 52)))"
proof -
  have "0 < q" using assms(1) by (rule less_le_trans[rotated]) simp
  then show ?thesis using exponent_unique[OF assms] by (simp add: fl_def fl_pos_def Let_def)
qed

text \<open>A rounded value stays in the binade of its argument (its upper end included).\<close>

lemma fl_pos_bounds:
  assumes "0 < q"
  shows "2 powi (exponent q) \<le> fl q" and "fl q \<le> 2 powi (exponent q + 1)"
proof -
  define u :: rat where "u = 2 powi (exponent q - 52)"
  have u: "0 < u" by (simp add: u_def)
  have lo: "2 powi (exponent q) = u * of_int (2 ^ 52)" and hi: "2 powi (exponent q + 1) = u * of_int (2 ^ 53)"
    by (simp_all add: u_def power_int_diff power_int_add)
  have fq: "fl q = u * of_int (round_even (q / u))"
    using fl_pos_eq[OF exponent_bounds[OF assms]] by (simp add: u_def)
  have "of_int (2 ^ 52) \<le> q / u" "q / u \<le> of_int (2 ^ 53)"
    using exponent_bounds[OF assms] u unfolding lo hi
    by (simp_all add: pos_le_divide_eq pos_divide_le_eq mult.commute)
  then have "round_even (of_int (2 ^ 52)) \<le> round_even (q / u)"
      "round_even (q / u) \<le> round_even (of_int (2 ^ 53))"
    by (auto intro!: round_even_mono)
  then have "(of_int (2 ^ 52) :: rat) \<le> of_int (round_even (q / u))"
      "(of_int (round_even (q / u)) :: rat) \<le> of_int (2 ^ 53)"
    by (simp_all only: of_int_le_iff round_even_of_int)
  then show "2 powi (exponent q) \<le> fl q" "fl q \<le> 2 powi (exponent q + 1)"
    unfolding lo hi fq using u by (auto intro!: mult_left_mono)
qed

lemma fl_pos_pos: "0 < q \<Longrightarrow> 0 < fl q"
  using fl_pos_bounds(1)[of q] zero_less_power_int[of "2::rat" "exponent q"] by linarith

lemma fl_nonneg [simp]: "0 \<le> q \<Longrightarrow> 0 \<le> fl q"
  using fl_pos_pos[of q] by (cases "q = 0") auto

lemma exponent_mono: "0 < x \<Longrightarrow> x \<le> y \<Longrightarrow> exponent x \<le> exponent y"
proof -
  assume "0 < x" "x \<le> y"
  then have "(2::rat) powi (exponent x) < 2 powi (exponent y + 1)"
    using exponent_bounds[of x] exponent_bounds[of y] by linarith
  then show ?thesis by simp
qed

lemma fl_mono_pos:
  assumes "0 < x" and "x \<le> y"
  shows "fl x \<le> fl y"
proof (cases "exponent x = exponent y")
  case True
  define u :: rat where "u = 2 powi (exponent x - 52)"
  have u: "0 < u" by (simp add: u_def)
  have "round_even (x / u) \<le> round_even (y / u)"
    using assms u by (intro round_even_mono divide_right_mono) auto
  moreover have "fl x = u * of_int (round_even (x / u))" "fl y = u * of_int (round_even (y / u))"
    using fl_pos_eq[OF exponent_bounds[of x]] fl_pos_eq[OF exponent_bounds[of y]] assms True
    by (simp_all add: u_def)
  ultimately show ?thesis using u by simp
next
  case False
  then have "exponent x + 1 \<le> exponent y" using exponent_mono[OF assms] by simp
  then have "(2::rat) powi (exponent x + 1) \<le> 2 powi (exponent y)"
    by (intro power_int_increasing) auto
  then show ?thesis
    using fl_pos_bounds(2)[of x] fl_pos_bounds(1)[of y] assms by linarith
qed

lemma fl_mono: "x \<le> y \<Longrightarrow> fl x \<le> fl y"
proof -
  assume le: "x \<le> y"
  consider "0 < x" | "x \<le> 0" "0 \<le> y" | "y < 0" by linarith
  then show ?thesis
  proof cases
    case 1
    then show ?thesis using le by (rule fl_mono_pos)
  next
    case 2
    then have "fl x \<le> 0" using fl_nonneg[of "- x"] by (simp add: fl_minus)
    also have "0 \<le> fl y" using 2 by simp
    finally show ?thesis .
  next
    case 3
    then have "fl (- y) \<le> fl (- x)" using le by (intro fl_mono_pos) auto
    then show ?thesis by (simp add: fl_minus)
  qed
qed

text \<open>Integers of at most 53 bits are represented exactly.\<close>

lemma fl_of_int_pos:
  assumes "0 < n" and "n \<le> 2 ^ 53"
  shows "fl (of_int n) = of_int n"
proof -
  define e where "e = exponent (of_int n)"
  have b: "2 powi e \<le> (of_int n :: rat)" "(of_int n :: rat) < 2 powi (e + 1)"
    using exponent_bounds[of "of_int n"] assms by (simp_all add: e_def)
  have e: "0 \<le> e" "e \<le> 53"
  proof -
    have "(2::rat) powi 0 \<le> of_int n" using assms by simp
    with b have "(2::rat) powi 0 < 2 powi (e + 1)" by linarith
    then show "0 \<le> e" by (simp del: power_int_0_right)
    have "(of_int n :: rat) \<le> 2 powi 53" using assms(2) by (simp flip: of_int_le_iff add: power_int_def)
    moreover have "(2::rat) powi 53 < 2 powi 54" by (simp only: powi2_less_iff)
    ultimately have "(2::rat) powi e < 2 powi 54" using b by linarith
    then have "e < 54" by (simp only: powi2_less_iff)
    then show "e \<le> 53" by simp
  qed
  show ?thesis
  proof (cases "e = 53")
    case True
    with b assms have "n = 2 ^ 53"
      by (simp add: power_int_def)
    with True b show ?thesis using fl_pos_eq[of 53 "of_int n"] round_even_of_int[of "2 ^ 52"]
      by (simp add: power_int_def)
  next
    case False
    then have "(2::rat) powi (e - 52) = inverse (2 ^ nat (52 - e))"
      using e power_int_minus[of "2::rat" "52 - e"] by (simp add: power_int_def)
    then have u: "(of_int n :: rat) / 2 powi (e - 52) = of_int (n * 2 ^ nat (52 - e))"
      by (simp add: divide_inverse)
    show ?thesis unfolding fl_pos_eq[OF b] u round_even_of_int
      unfolding u[symmetric] by simp
  qed
qed

lemma fl_of_int: "\<bar>n\<bar> \<le> 2 ^ 53 \<Longrightarrow> fl (of_int n) = of_int n"
  using fl_of_int_pos[of n] fl_of_int_pos[of "- n"] by (cases n "0::int" rule: linorder_cases) (auto simp: fl_minus)

lemma fl_1 [simp]: "fl 1 = 1"
  using fl_of_int[of 1] by simp

lemma fl_numeral: "numeral k \<le> (2 ^ 53 :: int) \<Longrightarrow> fl (numeral k) = numeral k"
  using fl_of_int[of "numeral k"] by simp

lemma fl_le_int: "\<bar>n\<bar> \<le> 2 ^ 53 \<Longrightarrow> x \<le> of_int n \<Longrightarrow> fl x \<le> of_int n"
  using fl_mono[of x "of_int n"] fl_of_int[of n] by simp

lemma fl_ge_int: "\<bar>n\<bar> \<le> 2 ^ 53 \<Longrightarrow> of_int n \<le> x \<Longrightarrow> of_int n \<le> fl x"
  using fl_mono[of "of_int n" x] fl_of_int[of n] by simp

lemmas float_ops = fadd_def fsub_def fmul_def fdiv_def float_of_int_def

section \<open>Relative error and comparison of ratios\<close>

lemma round_even_error: "\<bar>of_int (round_even x) - x\<bar> \<le> 1/2"
  unfolding round_even_def Let_def using of_int_floor_le[of x] floor_correct[of x]
  by (auto simp: abs_le_iff)

lemma fl_rel_error:
  assumes "0 < q"
  shows "\<bar>fl q - q\<bar> \<le> q / 2 ^ 53"
proof -
  define u :: rat where "u = 2 powi (exponent q - 52)"
  have u: "0 < u" by (simp add: u_def)
  have "fl q = u * of_int (round_even (q / u))"
    using fl_pos_eq[OF exponent_bounds[OF assms]] by (simp add: u_def)
  then have "fl q - q = u * (of_int (round_even (q / u)) - q / u)"
    using u by (simp add: right_diff_distrib)
  then have "\<bar>fl q - q\<bar> = u * \<bar>of_int (round_even (q / u)) - q / u\<bar>"
    using u by (simp add: abs_mult)
  also have "\<dots> \<le> u * (1/2)"
    using u round_even_error by (intro mult_left_mono) auto
  also have "\<dots> \<le> q / 2 ^ 53"
    using exponent_bounds(1)[OF assms] by (simp add: u_def power_int_diff)
  finally show ?thesis .
qed

text \<open>Rounding keeps the order of two different fractions with small terms.\<close>

lemma fl_ratio_less:
  fixes a b c d :: int
  assumes "0 \<le> a" "0 < b" "0 < d" "c * b \<le> 2 ^ 52" "a * d < c * b"
  shows "fl (of_int a / of_int b) < fl (of_int c / of_int d)"
proof (cases "a = 0")
  case True
  then have "0 < c" using assms by (simp add: zero_less_mult_iff)
  then show ?thesis using True assms by (simp add: fl_pos_pos)
next
  case False
  have c: "0 < c" using assms False
    by (smt (verit, best) mult_nonneg_nonneg zero_less_mult_iff)
  define x y :: rat where "x = of_int a / of_int b" and "y = of_int c / of_int d"
  have xy: "0 < x" "0 < y" using assms c False by (simp_all add: x_def y_def)
  have bd: "0 < (of_int (b * d) :: rat)" using assms by simp
  have xe: "x = of_int (a * d) / of_int (b * d)" and ye: "y = of_int (c * b) / of_int (b * d)"
    using assms by (simp_all add: x_def y_def)
  have "a * d + c * b < 2 ^ 53" using assms by simp
  then have s1: "(of_int (a * d + c * b) :: rat) < of_int (2 ^ 53)" by (simp only: of_int_less_iff)
  have s2: "(of_int (a * d) + 1 :: rat) \<le> of_int (c * b)"
    using assms(5) by (metis of_int_1 of_int_add of_int_le_iff zless_imp_add1_zle)
  have "x + y = of_int (a * d + c * b) / of_int (b * d)" by (simp add: xe ye add_divide_distrib)
  then have e1: "(x + y) / 2 ^ 53 < 1 / of_int (b * d)"
    using divide_strict_right_mono[OF s1, of "of_int (b * d) * 2 ^ 53"] bd by simp
  have "1 / of_int (b * d) \<le> (of_int (c * b) - of_int (a * d)) / (of_int (b * d) :: rat)"
    using s2 bd by (intro divide_right_mono) auto
  also have "\<dots> = y - x" by (simp add: xe ye diff_divide_distrib)
  finally have e2: "1 / of_int (b * d) \<le> y - x" .
  have "fl x \<le> x + x / 2 ^ 53" "y - y / 2 ^ 53 \<le> fl y"
    using fl_rel_error[OF xy(1)] fl_rel_error[OF xy(2)] unfolding abs_le_iff by linarith+
  with e1 e2 have "fl x < fl y" by (simp add: add_divide_distrib)
  then show ?thesis by (simp add: x_def y_def)
qed

lemma fl_ratio_le_iff:
  fixes a b c d :: int
  assumes "0 \<le> a" "0 < b" "0 < d" "c * b \<le> 2 ^ 52"
  shows "fl (of_int c / of_int d) \<le> fl (of_int a / of_int b) \<longleftrightarrow> c * b \<le> a * d"
proof
  assume "c * b \<le> a * d"
  then have "(of_int c / of_int d :: rat) \<le> of_int a / of_int b"
    using assms by (simp add: frac_le_eq divide_le_0_iff flip: of_int_mult) 
  then show "fl (of_int c / of_int d) \<le> fl (of_int a / of_int b)" by (rule fl_mono)
next
  assume "fl (of_int c / of_int d) \<le> fl (of_int a / of_int b)"
  then show "c * b \<le> a * d" using fl_ratio_less[OF assms] by linarith
qed

text \<open>Rounding commutes with powers of two, so a rounded value stays as it is.\<close>

lemma fl_scale:
  assumes "0 < q"
  shows "fl (2 powi k * q) = 2 powi k * fl q"
proof -
  define e where "e = exponent q"
  have lo: "2 powi e \<le> q" and hi: "q < 2 powi (e + 1)"
    using exponent_bounds[OF assms] by (simp_all add: e_def)
  have k: "(0::rat) < 2 powi k" by simp
  have "2 powi (k + e) \<le> 2 powi k * q" "2 powi k * q < 2 powi (k + e + 1)"
    using mult_left_mono[OF lo, of "2 powi k"] mult_strict_left_mono[OF hi k] k
    by (simp_all add: power_int_add mult.assoc)
  then have "fl (2 powi k * q) = 2 powi (k + e - 52) * of_int (round_even (2 powi k * q / 2 powi (k + e - 52)))"
    by (rule fl_pos_eq)
  also have "2 powi k * q / 2 powi (k + e - 52) = q / 2 powi (e - 52)"
    using power_int_add[of "2::rat" k "e - 52"] by (simp add: add_diff_eq)
  also have "(2::rat) powi (k + e - 52) = 2 powi k * 2 powi (e - 52)"
    using power_int_add[of "2::rat" k "e - 52"] by (simp add: add_diff_eq)
  finally show ?thesis using fl_pos_eq[OF lo hi] by simp
qed

lemma fl_idem [simp]: "fl (fl q) = fl q"
proof -
  have pos: "fl (fl q) = fl q" if q: "0 < q" for q
  proof -
    define u :: rat where "u = 2 powi (exponent q - 52)"
    define r where "r = round_even (q / u)"
    have u: "0 < u" by (simp add: u_def)
    have fq: "fl q = u * of_int r"
      using fl_pos_eq[OF exponent_bounds[OF q]] by (simp add: u_def r_def)
    have "2 powi (exponent q + 1) = u * 2 ^ 53" by (simp add: u_def power_int_diff power_int_add)
    then have "u * of_int r \<le> u * 2 ^ 53" using fl_pos_bounds(2)[OF q] fq by simp
    then have "(of_int r :: rat) \<le> of_int (2 ^ 53)" using u by simp
    then have r53: "r \<le> 2 ^ 53" by (simp only: of_int_le_iff)
    have "0 < u * of_int r" using fl_pos_pos[OF q] fq by simp
    then have r0: "0 < r" using u by (simp add: zero_less_mult_iff)
    have "fl (u * of_int r) = u * fl (of_int r)" unfolding u_def by (rule fl_scale) (use r0 in simp)
    then show ?thesis using r0 r53 fl_of_int[of r] by (simp add: fq)
  qed
  show ?thesis
  proof (cases "q = 0 \<or> 0 < q")
    case False
    then show ?thesis using pos[of "- q"] by (simp add: fl_minus)
  qed (use pos in auto)
qed

lemma fl_le_fl: "x \<le> fl y \<Longrightarrow> fl x \<le> fl y"
  using fl_mono[of x "fl y"] by simp

lemma fl_ge_fl: "fl x \<le> y \<Longrightarrow> fl x \<le> fl y"
  using fl_mono[of "fl x" y] by simp

end
