(* ===== verification/Policy.thy ===== *)
theory Policy
  imports Interfaces GoFloat
begin

text \<open>
  \<^verbatim>\<open>internal/policy\<close>: the request and result types that the pipeline passes around, and
  \<^verbatim>\<open>RuleEngine\<close>, the list of rules with Go match functions. The mutex makes every method
  one atomic step, so a method is a function of the engine state.
\<close>

section \<open>Types\<close>

text \<open>A Go string type with named constants: one constructor per constant, one for the rest.\<close>

datatype action = ActionAllow | ActionDeny | ActionBlock | ActionLog | ActionOther string

datatype phase = PhaseRequest | PhaseResponse | PhaseOther string

record request =
  Method :: string
  Host :: string
  Path :: string
  Query :: string
  Headers :: "string \<Rightarrow> string list option"
  Body :: string
  RemoteIP :: string

record result =
  res_action :: action
  res_rule_id :: string
  res_reason :: string
  res_score :: float64
  res_metadata :: "(string \<times> string) list"

definition mk_result :: "action \<Rightarrow> string \<Rightarrow> string \<Rightarrow> result" where
  "mk_result a i r =
     \<lparr>res_action = a, res_rule_id = i, res_reason = r, res_score = 0, res_metadata = []\<rparr>"

text \<open>
  A rule; \<^verbatim>\<open>None\<close> is a nil match function. The match functions are supplied by the
  embedder as Go closures; they are parameters of the model, of the context type \<^verbatim>\<open>'c\<close>.
\<close>

record 'c rule =
  ID :: string
  Name :: string
  Phase :: phase
  Priority :: int
  Description :: string
  Enabled :: bool
  Match :: "('c \<Rightarrow> request \<Rightarrow> bool) option"
  Action :: action
  Reason :: string

record 'c rule_engine =
  re_rules :: "'c rule list"

section \<open>Operations\<close>

definition NewRuleEngine :: "'c rule_engine" where
  "NewRuleEngine = \<lparr>re_rules = []\<rparr>"

definition AddRule :: "'c rule_engine \<Rightarrow> 'c rule \<Rightarrow> 'c rule_engine" where
  "AddRule re r = re\<lparr>re_rules := re_rules re @ [r]\<rparr>"

definition RemoveRule :: "'c rule_engine \<Rightarrow> string \<Rightarrow> 'c rule_engine" where
  "RemoveRule re i = re\<lparr>re_rules := delete_first (\<lambda>r. ID r = i) (re_rules re)\<rparr>"

fun evaluate_rules :: "'c rule list \<Rightarrow> 'c \<times> phase \<times> request \<Rightarrow> result" where
  "evaluate_rules [] q = mk_result ActionAllow [] []"
| "evaluate_rules (r # rs) (ctx, ph, req) =
     (if \<not> Enabled r \<or> Phase r \<noteq> ph then evaluate_rules rs (ctx, ph, req)
      else case Match r of
          None \<Rightarrow> evaluate_rules rs (ctx, ph, req)
        | Some m \<Rightarrow>
            if m ctx req then mk_result (Action r) (ID r) (Reason r)
            else evaluate_rules rs (ctx, ph, req))"

definition Evaluate :: "'c rule_engine \<Rightarrow> 'c \<Rightarrow> phase \<Rightarrow> request \<Rightarrow> result" where
  "Evaluate re ctx ph req = evaluate_rules (re_rules re) (ctx, ph, req)"

section \<open>First match wins\<close>

definition rule_applies :: "'c rule \<Rightarrow> 'c \<times> phase \<times> request \<Rightarrow> bool" where
  "rule_applies r q = (case q of (ctx, ph, req) \<Rightarrow>
     Enabled r \<and> Phase r = ph \<and> (case Match r of None \<Rightarrow> False | Some m \<Rightarrow> m ctx req))"

definition rule_verdict :: "'c rule \<Rightarrow> result" where
  "rule_verdict r = mk_result (Action r) (ID r) (Reason r)"

interpretation policy_rules: first_match evaluate_rules rule_applies rule_verdict
  "mk_result ActionAllow [] []"
  by unfold_locales (auto simp: rule_applies_def rule_verdict_def split: option.splits if_splits)

lemmas policy_ops = NewRuleEngine_def AddRule_def RemoveRule_def Evaluate_def

text \<open>
  C13: evaluation allows exactly when no rule applies, and otherwise it
  returns the action, id and reason of the first rule, in the order of addition, that is
  enabled, belongs to the phase and matches.
\<close>

lemma Evaluate_first_match:
  "Evaluate re ctx ph req =
     (case find (\<lambda>r. rule_applies r (ctx, ph, req)) (re_rules re) of
        None \<Rightarrow> mk_result ActionAllow [] []
      | Some r \<Rightarrow> mk_result (Action r) (ID r) (Reason r))"
  unfolding Evaluate_def policy_rules.eval_find[of "re_rules re" "(ctx, ph, req)"] rule_verdict_def ..

text \<open>
  adding a rule never changes the answer for a request that an earlier rule already
  decides: rules added later cannot override.
\<close>

lemma AddRule_keeps_decision:
  assumes "\<exists>p \<in> set (re_rules re). rule_applies p (ctx, ph, req)"
  shows "Evaluate (AddRule re r) ctx ph req = Evaluate re ctx ph req"
  using assms by (simp add: policy_ops policy_rules.eval_snoc)

definition block_post :: "unit rule" where
  "block_post =
     \<lparr>ID = ''r1'', Name = ''r1'', Phase = PhaseRequest, Priority = 1, Description = [], Enabled = True,
      Match = Some (\<lambda>_ req. Method req = ''POST''), Action = ActionBlock, Reason = ''no posts''\<rparr>"

definition post_request :: request where
  "post_request =
     \<lparr>Method = ''POST'', Host = ''h'', Path = ''/'', Query = [], Headers = (\<lambda>_. None), Body = [],
      RemoteIP = ''10.0.0.1''\<rparr>"

lemma AddRule_keeps_decision_witness:
  "Evaluate (AddRule (AddRule NewRuleEngine block_post) (block_post\<lparr>ID := ''r2'', Action := ActionAllow\<rparr>))
     () PhaseRequest post_request = mk_result ActionBlock ''r1'' ''no posts''"
proof -
  have "\<exists>p \<in> set (re_rules (AddRule NewRuleEngine block_post)). rule_applies p ((), PhaseRequest, post_request)"
    by (simp add: policy_ops rule_applies_def block_post_def post_request_def)
  from AddRule_keeps_decision[OF this, of "block_post\<lparr>ID := ''r2'', Action := ActionAllow\<rparr>"]
  show ?thesis by (simp add: policy_ops block_post_def post_request_def)
qed

text \<open>The priority of a rule plays no part in the evaluation.\<close>

lemma evaluate_rules_priority:
  "evaluate_rules (map (\<lambda>r. r\<lparr>Priority := f r\<rparr>) rs) (ctx, ph, req) = evaluate_rules rs (ctx, ph, req)"
  by (induction rs) (auto split: option.splits)

end
