(* ===== verification/GoStrings.thy ===== *)
theory GoStrings
  imports Waf_Prelude "HOL-Library.Char_ord"
begin

text \<open>
  The functions of Go's \<^verbatim>\<open>strings\<close>, \<^verbatim>\<open>strconv\<close>, \<^verbatim>\<open>unicode/utf8\<close> and \<^verbatim>\<open>net/url\<close> that the
  program calls. A Go string is a byte string; a \<^typ>\<open>char\<close> is one byte. Code points are
  natural numbers. The Unicode case tables (\<^verbatim>\<open>unicode.ToLower\<close> and \<^verbatim>\<open>unicode.ToUpper\<close> of a
  code point) are data of the Go distribution and appear as a parameter
  \<^verbatim>\<open>ul :: nat => nat\<close>; it only matters for strings with a byte above 127.
\<close>

section \<open>Bytes\<close>

abbreviation byte :: "char \<Rightarrow> nat" where "byte c \<equiv> of_char c"

definition ascii :: "string \<Rightarrow> bool" where
  "ascii s = list_all (\<lambda>c. byte c < 128) s"

definition ascii_lower :: "char \<Rightarrow> char" where
  "ascii_lower c = (if 65 \<le> byte c \<and> byte c \<le> 90 then char_of (byte c + 32) else c)"

definition ascii_upper :: "char \<Rightarrow> char" where
  "ascii_upper c = (if 97 \<le> byte c \<and> byte c \<le> 122 then char_of (byte c - 32) else c)"

definition is_digit :: "char \<Rightarrow> bool" where
  "is_digit c = (48 \<le> byte c \<and> byte c \<le> 57)"

definition is_hex_digit :: "char \<Rightarrow> bool" where
  "is_hex_digit c = (is_digit c \<or> 97 \<le> byte c \<and> byte c \<le> 102 \<or> 65 \<le> byte c \<and> byte c \<le> 70)"

definition unhex :: "char \<Rightarrow> nat" where
  "unhex c = (if is_digit c then byte c - 48
              else if 97 \<le> byte c then byte c - 87 else byte c - 55)"

lemma ascii_simps [simp]:
  "ascii []" "ascii (c # s) \<longleftrightarrow> byte c < 128 \<and> ascii s" "ascii (s @ t) \<longleftrightarrow> ascii s \<and> ascii t"
  by (auto simp: ascii_def)

section \<open>Prefixes and substrings\<close>

definition has_prefix :: "string \<Rightarrow> string \<Rightarrow> bool" where
  "has_prefix s p = (take (length p) s = p)"

definition has_suffix :: "string \<Rightarrow> string \<Rightarrow> bool" where
  "has_suffix s p = (length p \<le> length s \<and> drop (length s - length p) s = p)"

definition trim_prefix :: "string \<Rightarrow> string \<Rightarrow> string" where
  "trim_prefix s p = (if has_prefix s p then drop (length p) s else s)"

fun str_contains :: "string \<Rightarrow> string \<Rightarrow> bool" where
  "str_contains [] p = (p = [])"
| "str_contains (c # s) p = (has_prefix (c # s) p \<or> str_contains s p)"

text \<open>\<^verbatim>\<open>strings.Index\<close>, with \<^verbatim>\<open>None\<close> for -1.\<close>

fun str_index :: "string \<Rightarrow> string \<Rightarrow> nat option" where
  "str_index [] p = (if p = [] then Some 0 else None)"
| "str_index (c # s) p =
     (if has_prefix (c # s) p then Some 0 else map_option Suc (str_index s p))"

fun index_byte :: "string \<Rightarrow> char \<Rightarrow> nat option" where
  "index_byte [] b = None"
| "index_byte (c # s) b = (if c = b then Some 0 else map_option Suc (index_byte s b))"

lemma has_prefix_iff: "has_prefix s p \<longleftrightarrow> (\<exists>t. s = p @ t)"
  by (metis append_eq_conv_conj has_prefix_def)

lemma has_prefix_Nil [simp]: "has_prefix s []"
  by (simp add: has_prefix_def)

lemma has_prefix_append [simp]: "has_prefix (p @ t) p"
  by (simp add: has_prefix_def)

lemma trim_prefix_append [simp]: "trim_prefix (p @ t) p = t"
  by (simp add: trim_prefix_def)

lemma str_contains_append: "str_contains s p \<Longrightarrow> str_contains (a @ s) p"
  by (induction a) auto

lemma str_contains_prefix: "str_contains (p @ b) p"
proof (cases "p @ b")
  case (Cons c s)
  with has_prefix_append[of p b] show ?thesis by simp
qed simp

lemma str_containsD: "str_contains s p \<Longrightarrow> \<exists>a b. s = a @ p @ b"
proof (induction s)
  case (Cons c s)
  show ?case
  proof (cases "has_prefix (c # s) p")
    case True
    then show ?thesis by (metis append_Nil has_prefix_iff)
  next
    case False
    with Cons obtain a b where "s = a @ p @ b" by auto
    then show ?thesis by (metis append_Cons)
  qed
qed simp

lemma str_contains_iff: "str_contains s p \<longleftrightarrow> (\<exists>a b. s = a @ p @ b)"
  using str_containsD str_contains_append str_contains_prefix by metis

lemma str_containsI: "str_contains (a @ p @ b) p"
  by (simp add: str_contains_append str_contains_prefix)

lemma str_contains_Nil [simp]: "str_contains s []"
  using str_containsI[of "[]" "[]" s] by simp

lemma str_contains_extend: "str_contains s p \<Longrightarrow> str_contains (a @ s @ b) p"
  by (metis append.assoc str_containsD str_containsI)

lemma str_contains_trans: "str_contains s t \<Longrightarrow> str_contains t p \<Longrightarrow> str_contains s p"
  by (metis str_containsD str_contains_extend)

lemma str_index_contains: "str_index s p \<noteq> None \<longleftrightarrow> str_contains s p"
  by (induction s) auto

lemma index_byte_Some:
  "index_byte s b = Some i \<Longrightarrow> i < length s \<and> s ! i = b \<and> b \<notin> set (take i s)"
  by (induction s arbitrary: i) (auto split: if_splits)

lemma index_byte_None [simp]: "index_byte s b = None \<longleftrightarrow> b \<notin> set s"
  by (induction s) auto

lemma index_byte_append: "b \<notin> set s \<Longrightarrow> index_byte (s @ b # t) b = Some (length s)"
  by (induction s) auto

lemma index_byte_split: "index_byte s b = Some i \<Longrightarrow> s = take i s @ b # drop (Suc i) s"
  by (metis index_byte_Some id_take_nth_drop)

section \<open>Splitting, joining, trimming and counting\<close>

text \<open>\<^verbatim>\<open>strings.Split(s, sep)\<close> and \<^verbatim>\<open>strings.Cut(s, sep)\<close> for a one-byte separator.\<close>

fun str_split :: "char \<Rightarrow> string \<Rightarrow> string list" where
  "str_split b [] = [[]]"
| "str_split b (c # s) =
     (if c = b then [] # str_split b s
      else case str_split b s of [] \<Rightarrow> [[c]] | w # ws \<Rightarrow> (c # w) # ws)"

fun str_cut :: "char \<Rightarrow> string \<Rightarrow> string \<times> string \<times> bool" where
  "str_cut b [] = ([], [], False)"
| "str_cut b (c # s) =
     (if c = b then ([], s, True) else case str_cut b s of (k, v, f) \<Rightarrow> (c # k, v, f))"

fun str_join :: "string \<Rightarrow> string list \<Rightarrow> string" where
  "str_join sep [] = []"
| "str_join sep [w] = w"
| "str_join sep (w # ws) = w @ sep @ str_join sep ws"

text \<open>\<^verbatim>\<open>strings.ReplaceAll\<close> for a one-byte old string, and \<^verbatim>\<open>strings.Count\<close> of one byte.\<close>

definition replace_byte :: "char \<Rightarrow> string \<Rightarrow> string \<Rightarrow> string" where
  "replace_byte b new s = concat (map (\<lambda>c. if c = b then new else [c]) s)"

definition count_byte :: "string \<Rightarrow> char \<Rightarrow> nat" where
  "count_byte s b = length (filter (\<lambda>c. c = b) s)"

text \<open>\<^verbatim>\<open>strings.TrimRight\<close> and \<^verbatim>\<open>strings.Trim\<close> for a one-byte cutset.\<close>

definition trim_right_byte :: "char \<Rightarrow> string \<Rightarrow> string" where
  "trim_right_byte b s = rev (dropWhile (\<lambda>c. c = b) (rev s))"

definition trim_byte :: "char \<Rightarrow> string \<Rightarrow> string" where
  "trim_byte b s = trim_right_byte b (dropWhile (\<lambda>c. c = b) s)"

lemma str_split_nonempty [simp]: "str_split b s \<noteq> []"
  by (induction s) (auto split: list.splits)

lemma str_split_no_sep: "w \<in> set (str_split b s) \<Longrightarrow> b \<notin> set w"
  by (induction s arbitrary: w) (auto split: list.splits if_splits)

lemma str_split_join: "str_join [b] (str_split b s) = s"
proof (induction s)
  case (Cons c s)
  show ?case
  proof (cases "str_split b s")
    case Nil
    then show ?thesis by simp
  next
    case (Cons w ws)
    with Cons.IH show ?thesis by (cases ws) auto
  qed
qed simp

lemma str_split_subset: "w \<in> set (str_split b s) \<Longrightarrow> set w \<subseteq> set s"
proof (induction s arbitrary: w)
  case (Cons c s)
  then show ?case by (auto split: list.splits if_splits) (metis list.set_intros(1,2) subsetD)+
qed simp

lemma str_split_simple: "b \<notin> set s \<Longrightarrow> str_split b s = [s]"
  by (induction s) auto

lemma str_split_append: "b \<notin> set w \<Longrightarrow> str_split b (w @ b # s) = w # str_split b s"
  by (induction w) auto

lemma split_join:
  "ws \<noteq> [] \<Longrightarrow> (\<And>w. w \<in> set ws \<Longrightarrow> b \<notin> set w) \<Longrightarrow> str_split b (str_join [b] ws) = ws"
  by (induction "[b]" ws rule: str_join.induct) (auto simp: str_split_simple str_split_append)

lemma str_cut_found: "b \<notin> set k \<Longrightarrow> str_cut b (k @ b # v) = (k, v, True)"
  by (induction k) auto

lemma str_cut_True: "str_cut b s = (k, v, True) \<Longrightarrow> s = k @ b # v \<and> b \<notin> set k"
  by (induction s arbitrary: k) (auto split: if_splits prod.splits)

lemma str_cut_False: "str_cut b s = (k, v, False) \<Longrightarrow> k = s \<and> v = [] \<and> b \<notin> set s"
  by (induction s arbitrary: k) (auto split: if_splits prod.splits)

lemma replace_byte_id: "b \<notin> set s \<Longrightarrow> replace_byte b new s = s"
  by (induction s) (auto simp: replace_byte_def)

lemma replace_byte_gone: "b \<notin> set new \<Longrightarrow> b \<notin> set (replace_byte b new s)"
  by (auto simp: replace_byte_def)

section \<open>UTF-8\<close>

text \<open>
  \<^verbatim>\<open>utf8.DecodeRuneInString\<close>: the code point and the width in bytes, the replacement
  character U+FFFD with width 1 for an invalid byte.
\<close>

definition rune_error :: nat where "rune_error = 65533"

definition cont_byte :: "char \<Rightarrow> bool" where
  "cont_byte c = (128 \<le> byte c \<and> byte c \<le> 191)"

text \<open>The range of the second byte after the lead byte \<^verbatim>\<open>n\<close>.\<close>

definition second_ok :: "nat \<Rightarrow> char \<Rightarrow> bool" where
  "second_ok n c =
     (let lo = (if n = 224 then 160 else if n = 240 then 144 else 128);
          hi = (if n = 237 then 159 else if n = 244 then 143 else 191)
      in lo \<le> byte c \<and> byte c \<le> hi)"

definition decode_rune :: "string \<Rightarrow> nat \<times> nat" where
  "decode_rune s =
     (case s of [] \<Rightarrow> (rune_error, 0) | c0 # t \<Rightarrow>
      (let n = byte c0 in
       if n < 128 then (n, 1)
       else if 194 \<le> n \<and> n \<le> 223 then
         (case t of
            c1 # _ \<Rightarrow> if second_ok n c1 then ((n - 192) * 64 + (byte c1 - 128), 2) else (rune_error, 1)
          | _ \<Rightarrow> (rune_error, 1))
       else if 224 \<le> n \<and> n \<le> 239 then
         (case t of
            c1 # c2 # _ \<Rightarrow>
              if second_ok n c1 \<and> cont_byte c2
              then ((n - 224) * 4096 + (byte c1 - 128) * 64 + (byte c2 - 128), 3) else (rune_error, 1)
          | _ \<Rightarrow> (rune_error, 1))
       else if 240 \<le> n \<and> n \<le> 244 then
         (case t of
            c1 # c2 # c3 # _ \<Rightarrow>
              if second_ok n c1 \<and> cont_byte c2 \<and> cont_byte c3
              then ((n - 240) * 262144 + (byte c1 - 128) * 4096 + (byte c2 - 128) * 64 + (byte c3 - 128), 4)
              else (rune_error, 1)
          | _ \<Rightarrow> (rune_error, 1))
       else (rune_error, 1)))"

text \<open>\<^verbatim>\<open>utf8.AppendRune\<close>.\<close>

definition encode_rune :: "nat \<Rightarrow> string" where
  "encode_rune r0 =
     (let r = (if 55296 \<le> r0 \<and> r0 \<le> 57343 \<or> 1114111 < r0 then rune_error else r0) in
      map char_of
        (if r < 128 then [r]
         else if r < 2048 then [192 + r div 64, 128 + r mod 64]
         else if r < 65536 then [224 + r div 4096, 128 + r div 64 mod 64, 128 + r mod 64]
         else [240 + r div 262144, 128 + r div 4096 mod 64, 128 + r div 64 mod 64, 128 + r mod 64]))"

text \<open>\<^verbatim>\<open>for _, c := range s\<close>: the code points of a string with the bytes of each.\<close>

lemma decode_rune_width: "s \<noteq> [] \<Longrightarrow> 0 < snd (decode_rune s)"
  by (cases s) (auto simp: decode_rune_def Let_def split: list.splits)

function chunks :: "string \<Rightarrow> (nat \<times> string) list" where
  "chunks s =
     (if s = [] then []
      else let (r, w) = decode_rune s in (r, take w s) # chunks (drop w s))"
  by pat_completeness auto
termination
proof (relation "measure length", goal_cases)
  case (2 s x r w)
  from 2 have "0 < w" using decode_rune_width[of s] by (metis snd_conv)
  with 2 show ?case by (cases s) auto
qed auto

declare chunks.simps [simp del]

definition runes :: "string \<Rightarrow> nat list" where "runes s = map fst (chunks s)"

lemma chunks_Nil [simp]: "chunks [] = []"
  by (simp add: chunks.simps)

lemma decode_rune_ascii: "byte c < 128 \<Longrightarrow> decode_rune (c # s) = (byte c, 1)"
  by (simp add: decode_rune_def)

lemma chunks_ascii_Cons: "byte c < 128 \<Longrightarrow> chunks (c # s) = (byte c, [c]) # chunks s"
  by (subst chunks.simps) (simp add: decode_rune_ascii)

lemma chunks_ascii: "ascii s \<Longrightarrow> chunks s = map (\<lambda>c. (byte c, [c])) s"
  by (induction s) (auto simp: chunks_ascii_Cons)

lemma chunks_concat: "concat (map snd (chunks s)) = s"
proof (induction s rule: chunks.induct)
  case (1 s)
  show ?case
  proof (cases "s = []")
    case False
    obtain r w where rw: "decode_rune s = (r, w)" by (cases "decode_rune s")
    have "chunks s = (r, take w s) # chunks (drop w s)"
      using False rw by (subst chunks.simps) simp
    with "1"[OF False rw[symmetric] refl] show ?thesis by simp
  qed simp
qed

lemma runes_simps [simp]: "runes [] = []" "byte c < 128 \<Longrightarrow> runes (c # s) = byte c # runes s"
  by (simp_all add: runes_def chunks_ascii_Cons)

text \<open>
  An ASCII byte is never part of a longer sequence: decoding commutes with cutting a
  string in front of it.
\<close>

lemma decode_rune_append:
  assumes "a \<noteq> []" and "byte c < 128"
  shows "decode_rune (a @ c # b) = decode_rune a"
proof -
  have c: "\<not> cont_byte c" "\<And>n. \<not> second_ok n c"
    using assms(2) by (auto simp: cont_byte_def second_ok_def Let_def)
  obtain a0 t where a: "a = a0 # t" using assms(1) by (auto simp: neq_Nil_conv)
  consider "t = []" | x where "t = [x]" | x y where "t = [x, y]"
    | x y z u where "t = x # y # z # u"
    by (cases t; cases "tl t"; cases "tl (tl t)") auto
  then show ?thesis
    by cases (use c in \<open>auto simp: a decode_rune_def Let_def split: list.splits\<close>)
qed

lemma decode_rune_width_le: "s \<noteq> [] \<Longrightarrow> snd (decode_rune s) \<le> length s"
  by (cases s) (auto simp: decode_rune_def Let_def split: list.splits)

lemma chunks_append_ascii:
  "byte c < 128 \<Longrightarrow> chunks (a @ c # b) = chunks a @ (byte c, [c]) # chunks b"
proof (induction a rule: chunks.induct)
  case (1 a)
  show ?case
  proof (cases "a = []")
    case True
    with 1 show ?thesis by (simp add: chunks_ascii_Cons)
  next
    case False
    obtain r w where rw: "decode_rune a = (r, w)" by (cases "decode_rune a")
    have w: "w \<le> length a" using decode_rune_width_le[OF False] rw by simp
    have "chunks (a @ c # b) = (r, take w a) # chunks (drop w a @ c # b)"
      using False rw w decode_rune_append[OF False "1.prems"] by (subst chunks.simps) simp
    also have "\<dots> = (r, take w a) # chunks (drop w a) @ (byte c, [c]) # chunks b"
      using "1.IH"[OF False rw[symmetric] refl "1.prems"] by simp
    also have "(r, take w a) # chunks (drop w a) = chunks a"
      using False rw by (subst (2) chunks.simps) simp
    then have "(r, take w a) # chunks (drop w a) @ (byte c, [c]) # chunks b
        = chunks a @ (byte c, [c]) # chunks b" by (metis append_Cons)
    finally show ?thesis .
  qed
qed

lemma runes_append_ascii: "ascii p \<Longrightarrow> p \<noteq> [] \<Longrightarrow> runes (a @ p @ b) = runes a @ map byte p @ runes b"
proof (induction p arbitrary: a)
  case (Cons c p)
  show ?case
  proof (cases "p = []")
    case True
    with Cons.prems show ?thesis by (simp add: runes_def chunks_append_ascii)
  next
    case False
    have "runes (a @ (c # p) @ b) = runes a @ byte c # runes (p @ b)"
      using Cons.prems by (simp add: runes_def chunks_append_ascii)
    also have "runes (p @ b) = map byte p @ runes b"
      using Cons.IH[of "[]"] False Cons.prems by simp
    finally show ?thesis by simp
  qed
qed simp

section \<open>Case mapping\<close>

text \<open>
  \<^verbatim>\<open>strings.ToLower\<close>: an ASCII string is lowered byte by byte, any other string code point
  by code point with the Unicode table (an invalid byte becomes U+FFFD, as
  \<^verbatim>\<open>strings.Map\<close> writes it). \<^verbatim>\<open>ascii_table\<close> states what \<^verbatim>\<open>unicode.ToLower\<close> documents for the
  ASCII code points.
\<close>

definition to_lower :: "(nat \<Rightarrow> nat) \<Rightarrow> string \<Rightarrow> string" where
  "to_lower ul s =
     (if ascii s then map ascii_lower s else concat (map (\<lambda>r. encode_rune (ul r)) (runes s)))"

definition to_upper :: "(nat \<Rightarrow> nat) \<Rightarrow> string \<Rightarrow> string" where
  "to_upper uu s =
     (if ascii s then map ascii_upper s else concat (map (\<lambda>r. encode_rune (uu r)) (runes s)))"

definition ascii_table :: "(nat \<Rightarrow> nat) \<Rightarrow> bool" where
  "ascii_table ul = list_all (\<lambda>r. ul r = byte (ascii_lower (char_of r))) [0..<128]"

lemma ascii_tableD: "ascii_table ul \<Longrightarrow> byte c < 128 \<Longrightarrow> ul (byte c) = byte (ascii_lower c)"
  by (auto simp: ascii_table_def list_all_iff)

lemma byte_char_of [simp]: "n < 256 \<Longrightarrow> byte (char_of n) = (n :: nat)"
  by simp

lemma ascii_lower_ascii [simp]: "byte (ascii_lower c) < (128 :: nat) \<longleftrightarrow> byte c < (128 :: nat)"
  by (auto simp: ascii_lower_def)

lemma ascii_lower_idem [simp]: "ascii_lower (ascii_lower c) = ascii_lower c"
  by (auto simp: ascii_lower_def)

lemma byte_lower: "byte (ascii_lower c) = (if 65 \<le> byte c \<and> byte c \<le> 90 then byte c + 32 else byte c :: nat)"
  by (simp add: ascii_lower_def)

lemma byte_eq_iff: "byte c = (byte d :: nat) \<longleftrightarrow> c = d"
  by (rule of_char_eq_iff)

text \<open>A table that knows the ASCII letters only.\<close>

definition ascii_only_lower :: "nat \<Rightarrow> nat" where
  "ascii_only_lower r = (if 65 \<le> r \<and> r \<le> 90 then r + 32 else r)"

lemma ascii_only_lower_table: "ascii_table ascii_only_lower"
  by (simp add: ascii_table_def list_all_iff ascii_only_lower_def byte_lower)

lemma encode_rune_ascii: "byte c < (128 :: nat) \<Longrightarrow> encode_rune (byte c) = [c]"
  by (simp add: encode_rune_def Let_def)

lemma to_lower_ascii: "ascii s \<Longrightarrow> to_lower ul s = map ascii_lower s"
  by (simp add: to_lower_def)

lemma to_lower_Nil [simp]: "to_lower ul [] = []"
  by (simp add: to_lower_def)

lemma runes_ascii: "ascii s \<Longrightarrow> runes s = map byte s"
  by (simp add: runes_def chunks_ascii comp_def)

lemma encode_lower_ascii:
  "ascii_table ul \<Longrightarrow> ascii p \<Longrightarrow>
   concat (map (\<lambda>r. encode_rune (ul r)) (map byte p)) = map ascii_lower p"
  by (induction p) (auto simp: ascii_tableD encode_rune_ascii)

text \<open>
  An ASCII pattern that occurs in a string, in any case, occurs lowered in the lowered
  string, whatever bytes surround it.
\<close>

lemma to_lower_contains:
  assumes ul: "ascii_table ul" and p: "ascii p"
  shows "str_contains (to_lower ul (a @ p @ b)) (map ascii_lower p)"
proof (cases "ascii (a @ p @ b)")
  case True
  then have "to_lower ul (a @ p @ b) = map ascii_lower a @ map ascii_lower p @ map ascii_lower b"
    by (simp add: to_lower_def)
  then show ?thesis by (metis str_containsI)
next
  case False
  show ?thesis
  proof (cases "p = []")
    case False
    let ?e = "\<lambda>rs. concat (map (\<lambda>r. encode_rune (ul r)) rs)"
    have "to_lower ul (a @ p @ b) = ?e (runes a) @ ?e (map byte p) @ ?e (runes b)"
      unfolding to_lower_def runes_append_ascii[OF p False] map_append concat_append
      using \<open>\<not> ascii (a @ p @ b)\<close> by (simp only: if_False)
    then show ?thesis using encode_lower_ascii[OF ul p] by (metis str_containsI)
  qed simp
qed

lemma to_lower_contains_lower:
  assumes "ascii_table ul" and "ascii p" and "map ascii_lower p = q" and "str_contains s p"
  shows "str_contains (to_lower ul s) q"
  using assms to_lower_contains str_containsD by metis

section \<open>White space and words\<close>

text \<open>\<^verbatim>\<open>unicode.IsSpace\<close>.\<close>

definition is_space :: "nat \<Rightarrow> bool" where
  "is_space r =
     (9 \<le> r \<and> r \<le> 13 \<or> r = 32 \<or> r = 133 \<or> r = 160 \<or> r = 5760 \<or> 8192 \<le> r \<and> r \<le> 8202 \<or>
      r = 8232 \<or> r = 8233 \<or> r = 8239 \<or> r = 8287 \<or> r = 12288)"

text \<open>\<^verbatim>\<open>strings.TrimSpace\<close>.\<close>

definition trim_space :: "string \<Rightarrow> string" where
  "trim_space s =
     concat (map snd (rev (dropWhile (\<lambda>(r, w). is_space r)
       (rev (dropWhile (\<lambda>(r, w). is_space r) (chunks s))))))"

text \<open>\<^verbatim>\<open>strings.Fields\<close>: the maximal runs of code points that are not white space.\<close>

fun fields_acc :: "string \<Rightarrow> (nat \<times> string) list \<Rightarrow> string list" where
  "fields_acc cur [] = (if cur = [] then [] else [cur])"
| "fields_acc cur ((r, w) # cs) =
     (if is_space r then (if cur = [] then fields_acc [] cs else cur # fields_acc [] cs)
      else fields_acc (cur @ w) cs)"

definition str_fields :: "string \<Rightarrow> string list" where
  "str_fields s = fields_acc [] (chunks s)"

lemma fields_acc_nonempty: "[] \<notin> set (fields_acc cur cs)"
  if "\<forall>(r, w) \<in> set cs. w \<noteq> []"
  using that by (induction cur cs rule: fields_acc.induct) auto

lemma fields_acc_word:
  "\<lbrakk>ascii w; \<And>c. c \<in> set w \<Longrightarrow> \<not> is_space (byte c)\<rbrakk>
   \<Longrightarrow> fields_acc cur (map (\<lambda>c. (byte c, [c])) w @ cs) = fields_acc (cur @ w) cs"
  by (induction w arbitrary: cur) auto

text \<open>Words joined by blanks: the fields, the white space around them, the words that follow a blank.\<close>

definition plain_word :: "string \<Rightarrow> bool" where
  "plain_word w = (w \<noteq> [] \<and> ascii w \<and> list_all (\<lambda>c. \<not> is_space (byte c)) w)"

lemma plain_word_no_blank: "plain_word w \<Longrightarrow> CHR 0x20 \<notin> set w"
  by (auto simp: plain_word_def is_space_def list_all_iff)

lemma ascii_join: "list_all plain_word ws \<Longrightarrow> ascii (str_join '' '' ws)"
  by (induction "'' ''" ws rule: str_join.induct) (auto simp: plain_word_def)

lemma str_fields_join: "list_all plain_word ws \<Longrightarrow> str_fields (str_join '' '' ws) = ws"
proof -
  have "fields_acc [] (map (\<lambda>c. (byte c, [c])) (str_join '' '' ws)) = ws" if "list_all plain_word ws"
    using that
  proof (induction "'' ''" ws rule: str_join.induct)
    case (2 w)
    then show ?case using fields_acc_word[of w "[]" "[]"] by (auto simp: plain_word_def list_all_iff)
  next
    case (3 w w' ws)
    then show ?case
      using fields_acc_word[of w "[]" "map (\<lambda>c. (byte c, [c])) ('' '' @ str_join '' '' (w' # ws))"]
      by (auto simp: plain_word_def list_all_iff is_space_def[of 32])
  qed simp
  then show "list_all plain_word ws \<Longrightarrow> str_fields (str_join '' '' ws) = ws"
    by (simp add: str_fields_def chunks_ascii ascii_join)
qed

lemma trim_space_ascii:
  "ascii s \<Longrightarrow> trim_space s =
     rev (dropWhile (\<lambda>c. is_space (byte c)) (rev (dropWhile (\<lambda>c. is_space (byte c)) s)))"
proof -
  have c: "concat (map snd (map (\<lambda>c. (byte c, [c])) t)) = t" for t by (induction t) auto
  assume "ascii s"
  then have "trim_space s = concat (map snd (map (\<lambda>c. (byte c, [c]))
      (rev (dropWhile (\<lambda>c. is_space (byte c)) (rev (dropWhile (\<lambda>c. is_space (byte c)) s))))))"
    by (simp add: trim_space_def chunks_ascii dropWhile_map comp_def rev_map del: map_map)
  then show ?thesis by (simp only: c)
qed

lemma trim_space_pad:
  assumes "ascii pad" "list_all (\<lambda>c. is_space (byte c)) pad" "ascii s" "s \<noteq> []"
    "\<not> is_space (byte (hd s))" "\<not> is_space (byte (List.last s))"
  shows "trim_space (pad @ s) = s"
proof -
  have "dropWhile (\<lambda>c. is_space (byte c)) (pad @ s) = s"
    using assms by (cases s) (auto simp: dropWhile_append list_all_iff)
  moreover have "dropWhile (\<lambda>c. is_space (byte c)) (rev s) = rev s"
    using assms by (cases s rule: rev_cases) auto
  ultimately show ?thesis using assms by (simp add: trim_space_ascii)
qed

lemma contains_after_blank:
  assumes "str_contains (str_join [b] ws) (b # w)" "b \<notin> set w" "\<And>v. v \<in> set ws \<Longrightarrow> b \<notin> set v"
  shows "\<exists>v \<in> set (tl ws). has_prefix v w"
  using assms(1,3)
proof (induction "[b]" ws rule: str_join.induct)
  case (2 v)
  then show ?case by (auto simp: str_contains_iff)
next
  case (3 v v' ws)
  define rest where "rest = str_join [b] (v' # ws)"
  obtain a c where eq: "v @ b # rest = a @ b # w @ c"
    using 3(2) by (auto simp: str_contains_iff rest_def)
  have bv: "b \<notin> set v" "b \<notin> set v'" using 3(3) by auto
  show ?case
  proof (cases "a = v")
    case True
    then have rest: "rest = w @ c" using eq by simp
    obtain t where t: "rest = v' @ t" "t = [] \<or> hd t = b"
      by (cases ws) (auto simp: rest_def)
    have "\<exists>u. v' = w @ u"
    proof (cases "length w \<le> length v'")
      case True
      then show ?thesis using t(1) rest by (metis append_eq_append_conv_if append_eq_conv_conj append_take_drop_id)
    next
      case False
      then obtain u where u: "w = v' @ u" "u \<noteq> []" "t = u @ c"
        using t(1) rest by (auto simp: append_eq_append_conv2)
      then have "hd t = b" "hd u = hd t" using t(2) by auto
      then show ?thesis using u assms(2) by (cases u) auto
    qed
    then show ?thesis by (auto simp: has_prefix_iff)
  next
    case False
    then obtain a' where "rest = a' @ b # w @ c"
      using eq bv(1) by (auto simp: append_eq_append_conv2 append_eq_Cons_conv Cons_eq_append_conv)
    then have "str_contains rest (b # w)" using str_containsI[of a' "b # w" c] by simp
    then show ?thesis using 3(1) 3(3) by (auto simp: rest_def)
  qed
qed simp

lemma has_suffix_contains: "has_suffix s p \<Longrightarrow> str_contains s p"
  by (metis append.right_neutral append_take_drop_id has_suffix_def str_containsI)

section \<open>Decimal numbers\<close>

text \<open>\<^verbatim>\<open>strconv.Itoa\<close> and \<^verbatim>\<open>strconv.Atoi\<close> (64-bit \<^verbatim>\<open>int\<close>; \<^verbatim>\<open>None\<close> is the error).\<close>

fun nat_digits :: "nat \<Rightarrow> string" where
  "nat_digits n = (if n < 10 then [char_of (48 + n)] else nat_digits (n div 10) @ [char_of (48 + n mod 10)])"

declare nat_digits.simps [simp del]

definition itoa :: "int \<Rightarrow> string" where
  "itoa n = (if n < 0 then CHR ''-'' # nat_digits (nat (- n)) else nat_digits (nat n))"

definition digits_value :: "string \<Rightarrow> nat" where
  "digits_value s = foldl (\<lambda>v c. 10 * v + (byte c - 48)) 0 s"

definition atoi :: "string \<Rightarrow> int option" where
  "atoi s =
     (let neg = (case s of c # _ \<Rightarrow> c = CHR ''-'' | [] \<Rightarrow> False);
          ds = (case s of c # t \<Rightarrow> if c = CHR ''-'' \<or> c = CHR ''+'' then t else s | [] \<Rightarrow> []);
          v = (if neg then - int (digits_value ds) else int (digits_value ds))
      in if ds \<noteq> [] \<and> list_all is_digit ds \<and> - (2 ^ 63) \<le> v \<and> v < 2 ^ 63 then Some v else None)"

lemma nat_digits_nonempty: "nat_digits n \<noteq> []"
  by (subst nat_digits.simps) simp

lemma nat_digits_is_digit: "list_all is_digit (nat_digits n)"
proof (induction n rule: nat_digits.induct)
  case (1 n)
  moreover have "n mod 10 \<le> 9" by linarith
  ultimately show ?case by (subst nat_digits.simps) (simp add: is_digit_def list_all_iff)
qed

lemma digits_value_snoc: "digits_value (s @ [c]) = 10 * digits_value s + (byte c - 48)"
  by (simp add: digits_value_def)

lemma digits_value_nat_digits: "digits_value (nat_digits n) = n"
proof (induction n rule: nat_digits.induct)
  case (1 n)
  show ?case
  proof (cases "n < 10")
    case True
    then show ?thesis by (subst nat_digits.simps) (simp add: digits_value_def)
  next
    case False
    with 1 show ?thesis by (subst nat_digits.simps) (simp add: digits_value_snoc)
  qed
qed

lemma nat_digits_hd: "is_digit (hd (nat_digits n))"
  using nat_digits_is_digit[of n] nat_digits_nonempty[of n] by (cases "nat_digits n") auto

lemma atoi_itoa: "- (2 ^ 63) \<le> n \<Longrightarrow> n < 2 ^ 63 \<Longrightarrow> atoi (itoa n) = Some n"
proof -
  assume n: "- (2 ^ 63) \<le> n" "n < 2 ^ 63"
  have sign: "nat_digits k \<noteq> CHR ''-'' # t" "nat_digits k \<noteq> CHR ''+'' # t" for k t
    using nat_digits_hd[of k] by (auto simp: is_digit_def)
  show ?thesis
  proof (cases "n < 0")
    case True
    with n show ?thesis
      by (simp add: atoi_def itoa_def digits_value_nat_digits nat_digits_is_digit nat_digits_nonempty)
  next
    case False
    then obtain c t where ct: "nat_digits (nat n) = c # t" using nat_digits_nonempty by (meson list.exhaust)
    moreover have "c \<noteq> CHR ''-''" "c \<noteq> CHR ''+''" using sign ct by auto
    ultimately show ?thesis using n False digits_value_nat_digits[of "nat n"] nat_digits_is_digit[of "nat n"]
      by (simp add: atoi_def itoa_def)
  qed
qed

section \<open>Query escaping\<close>

text \<open>\<^verbatim>\<open>url.QueryUnescape\<close>; \<^verbatim>\<open>None\<close> is the error for a malformed escape.\<close>

fun query_unescape :: "string \<Rightarrow> string option" where
  "query_unescape [] = Some []"
| "query_unescape (c # s) =
     (if c = CHR ''%'' then
        (case s of
           a # b # t \<Rightarrow>
             if is_hex_digit a \<and> is_hex_digit b
             then map_option (Cons (char_of (16 * unhex a + unhex b))) (query_unescape t) else None
         | _ \<Rightarrow> None)
      else map_option (Cons (if c = CHR ''+'' then CHR '' '' else c)) (query_unescape s))"

lemma query_unescape_plain:
  "CHR ''%'' \<notin> set s \<Longrightarrow> CHR ''+'' \<notin> set s \<Longrightarrow> query_unescape s = Some s"
  by (induction s) auto

end
