(* ===== verification/GoNet.thy ===== *)
theory GoNet
  imports GoStrings
begin

text \<open>
  The functions of Go's \<^verbatim>\<open>net\<close> package that the program calls: \<^verbatim>\<open>ParseIP\<close>, \<^verbatim>\<open>ParseCIDR\<close>,
  \<^verbatim>\<open>IPNet.Contains\<close> and \<^verbatim>\<open>SplitHostPort\<close>. An address is the list of its bytes, sixteen
  for every parsed address (an IPv4 address in its mapped form) as in \<^verbatim>\<open>net.IP\<close>.
\<close>

unbundle bit_operations_syntax

type_synonym ip = "nat list"

record ipnet =
  net_ip :: ip
  net_mask :: "nat list"

section \<open>Parsing addresses\<close>

definition parse_octet :: "string \<Rightarrow> nat option" where
  "parse_octet s =
     (if s \<noteq> [] \<and> length s \<le> 3 \<and> list_all is_digit s \<and> (length s = 1 \<or> hd s \<noteq> CHR ''0'') \<and>
         digits_value s \<le> 255
      then Some (digits_value s) else None)"

fun sequence_opt :: "'a option list \<Rightarrow> 'a list option" where
  "sequence_opt [] = Some []"
| "sequence_opt (None # xs) = None"
| "sequence_opt (Some x # xs) = map_option (Cons x) (sequence_opt xs)"

definition parse_ipv4 :: "string \<Rightarrow> nat list option" where
  "parse_ipv4 s =
     (let ws = str_split (CHR ''.'') s
      in if length ws = 4 then sequence_opt (map parse_octet ws) else None)"

definition hex_value :: "string \<Rightarrow> nat" where
  "hex_value s = foldl (\<lambda>v c. 16 * v + unhex c) 0 s"

text \<open>
  The groups of an IPv6 address: the bytes read so far, where the ellipsis stood, the
  rest of the text. The first argument bounds the groups that may still follow.
\<close>

fun v6_groups :: "nat \<Rightarrow> nat list \<Rightarrow> nat option \<Rightarrow> string \<Rightarrow> (nat list \<times> nat option \<times> string) option" where
  "v6_groups 0 acc ell s = Some (acc, ell, s)"
| "v6_groups (Suc n) acc ell s =
     (let g = takeWhile is_hex_digit s; rest = dropWhile is_hex_digit s; v = hex_value g;
          acc' = acc @ [v div 256, v mod 256]
      in if g = [] \<or> 4 < length g then None
         else case rest of
             [] \<Rightarrow> Some (acc', ell, [])
           | c # t \<Rightarrow>
               if c = CHR ''.'' then
                 (if ell = None \<and> length acc \<noteq> 12 \<or> 12 < length acc then None
                  else map_option (\<lambda>fs. (acc @ fs, ell, [])) (parse_ipv4 s))
               else if c \<noteq> CHR '':'' then None
               else case t of
                   [] \<Rightarrow> None
                 | d # u \<Rightarrow>
                     if d = CHR '':'' then
                       (if ell \<noteq> None then None
                        else if u = [] then Some (acc', Some (length acc'), [])
                        else v6_groups n acc' (Some (length acc')) u)
                     else v6_groups n acc' ell t)"

definition parse_ipv6 :: "string \<Rightarrow> nat list option" where
  "parse_ipv6 s =
     (let ell = has_prefix s ''::''; s' = (if ell then drop 2 s else s)
      in if ell \<and> s' = [] then Some (replicate 16 0)
         else case v6_groups 8 [] (if ell then Some 0 else None) s' of
             None \<Rightarrow> None
           | Some (bs, e, rest) \<Rightarrow>
               if rest \<noteq> [] then None
               else if length bs < 16 then
                 (case e of None \<Rightarrow> None
                  | Some k \<Rightarrow> Some (take k bs @ replicate (16 - length bs) 0 @ drop k bs))
               else if e \<noteq> None then None else Some bs)"

definition v4_in_v6 :: "nat list" where
  "v4_in_v6 = replicate 10 0 @ [255, 255]"

text \<open>
  \<^verbatim>\<open>netip.ParseAddr\<close> without a zone: the first of \<^verbatim>\<open>'.'\<close>, \<^verbatim>\<open>':'\<close>, \<^verbatim>\<open>'%'\<close> decides the family.
  The flag tells whether the text is an IPv4 address.
\<close>

definition parse_addr :: "string \<Rightarrow> (bool \<times> ip) option" where
  "parse_addr s =
     (case find (\<lambda>c. c = CHR ''.'' \<or> c = CHR '':'' \<or> c = CHR ''%'') s of
        None \<Rightarrow> None
      | Some c \<Rightarrow>
          if c = CHR ''.'' then map_option (\<lambda>fs. (True, v4_in_v6 @ fs)) (parse_ipv4 s)
          else if c = CHR '':'' \<and> CHR ''%'' \<notin> set s then map_option (\<lambda>bs. (False, bs)) (parse_ipv6 s)
          else None)"

definition parse_ip :: "string \<Rightarrow> ip option" where
  "parse_ip s = map_option snd (parse_addr s)"

text \<open>A text that parses as an address has only the characters of addresses.\<close>

definition ip_char :: "char \<Rightarrow> bool" where
  "ip_char c = (is_hex_digit c \<or> c = CHR ''.'' \<or> c = CHR '':'')"

lemma ip_char_sep [simp]: "ip_char (CHR ''.'')" "ip_char (CHR '':'')"
  by (simp_all add: ip_char_def)

lemma sequence_opt_all: "sequence_opt xs = Some ys \<Longrightarrow> x \<in> set xs \<Longrightarrow> x \<noteq> None"
  by (induction xs arbitrary: ys rule: sequence_opt.induct) auto

lemma digit_ip_char: "is_digit c \<Longrightarrow> ip_char c"
  by (auto simp: ip_char_def is_hex_digit_def is_digit_def)

lemma join_chars:
  "(\<And>w. w \<in> set ws \<Longrightarrow> list_all P w) \<Longrightarrow> P b \<Longrightarrow> list_all P (str_join [b] ws)"
  by (induction "[b]" ws rule: str_join.induct) auto

lemma parse_ipv4_chars: "parse_ipv4 s = Some bs \<Longrightarrow> list_all ip_char s"
proof -
  assume p: "parse_ipv4 s = Some bs"
  have "list_all ip_char w" if w: "w \<in> set (str_split (CHR ''.'') s)" for w
  proof -
    have "parse_octet w \<noteq> None"
      using p w sequence_opt_all[of "map parse_octet (str_split (CHR ''.'') s)" bs "parse_octet w"]
      by (simp add: parse_ipv4_def Let_def split: if_splits)
    then have "list_all is_digit w" by (simp add: parse_octet_def split: if_splits)
    then show ?thesis using digit_ip_char by (auto simp: list_all_iff)
  qed
  then have "list_all ip_char (str_join [CHR ''.''] (str_split (CHR ''.'') s))"
    by (intro join_chars) (simp_all add: ip_char_def)
  then show ?thesis by (simp only: str_split_join)
qed

lemma v6_groups_chars: "v6_groups n acc ell s = Some (bs, e, []) \<Longrightarrow> list_all ip_char s"
proof (induction n acc ell s rule: v6_groups.induct)
  case (2 n acc ell s)
  have hex: "list_all ip_char (takeWhile is_hex_digit s)"
    by (auto simp: list_all_iff ip_char_def dest: set_takeWhileD)
  have split: "list_all ip_char s" if "list_all ip_char (dropWhile is_hex_digit s)"
    using hex that takeWhile_dropWhile_id[of is_hex_digit s] by (metis list_all_append)
  show ?case
  proof (cases "dropWhile is_hex_digit s")
    case Nil
    show ?thesis by (rule split) (simp only: Nil list.pred_inject)
  next
    case c: (Cons c t)
    show ?thesis
    proof (cases "c = CHR ''.''")
      case True
      then show ?thesis using "2.prems" c parse_ipv4_chars by (auto simp: Let_def split: if_splits)
    next
      case False
      then have colon: "c = CHR '':''" using "2.prems" c by (auto simp: Let_def split: if_splits)
      then obtain d u where t: "t = d # u"
        using "2.prems" c by (cases t) (auto simp: Let_def split: if_splits)
      note ih = "2.IH"[OF refl refl refl refl _ c False _ t]
      have "list_all ip_char t"
        using "2.prems" c colon t ih by (auto simp: Let_def split: if_splits)
      then show ?thesis using c colon by (intro split) simp
    qed
  qed
qed simp

lemma parse_ip_chars: "parse_ip s \<noteq> None \<Longrightarrow> list_all ip_char s"
proof -
  assume "parse_ip s \<noteq> None"
  then have "parse_ipv4 s \<noteq> None \<or> parse_ipv6 s \<noteq> None"
    by (auto simp: parse_ip_def parse_addr_def split: option.splits if_splits)
  then show ?thesis
  proof
    assume "parse_ipv6 s \<noteq> None"
    then have "list_all ip_char (if has_prefix s ''::'' then drop 2 s else s)"
      by (auto simp: parse_ipv6_def Let_def dest!: v6_groups_chars split: if_splits option.splits)
    moreover have "list_all ip_char s" if p: "has_prefix s ''::''" "list_all ip_char (drop 2 s)"
    proof -
      have "s = ''::'' @ drop 2 s"
        using p(1) append_take_drop_id[of 2 s] by (simp add: has_prefix_def numeral_2_eq_2)
      then have "list_all ip_char s = list_all ip_char (''::'' @ drop 2 s)" by (rule arg_cong)
      then show ?thesis using p(2) by (simp add: ip_char_def)
    qed
    ultimately show ?thesis by (simp split: if_splits)
  qed (auto dest: parse_ipv4_chars)
qed

section \<open>Networks\<close>

definition to4 :: "ip \<Rightarrow> ip option" where
  "to4 i =
     (if length i = 4 then Some i
      else if length i = 16 \<and> take 12 i = v4_in_v6 then Some (drop 12 i) else None)"

text \<open>\<^verbatim>\<open>CIDRMask(ones, 8 * len)\<close>.\<close>

definition mask_byte :: "nat \<Rightarrow> nat" where
  "mask_byte k = (if 8 \<le> k then 255 else 256 - 2 ^ (8 - k))"

definition cidr_mask :: "nat \<Rightarrow> nat \<Rightarrow> nat list" where
  "cidr_mask ones len = map (\<lambda>i. mask_byte (ones - 8 * i)) [0..<len]"

definition mask_bytes :: "nat list \<Rightarrow> nat list \<Rightarrow> nat list" where
  "mask_bytes i m = map2 (\<lambda>a b. a AND b) i m"

text \<open>\<^verbatim>\<open>IP.Mask\<close> for a sixteen-byte address.\<close>

definition ip_mask :: "ip \<Rightarrow> nat list \<Rightarrow> ip" where
  "ip_mask i m =
     (let i' = (if length m = 4 \<and> length i = 16 \<and> take 12 i = v4_in_v6 then drop 12 i else i)
      in if length i' = length m then mask_bytes i' m else [])"

definition parse_cidr :: "string \<Rightarrow> ipnet option" where
  "parse_cidr s =
     (case str_cut (CHR ''/'') s of (addr, bits, found) \<Rightarrow>
        if \<not> found then None
        else case parse_addr addr of
            None \<Rightarrow> None
          | Some (is4, i) \<Rightarrow>
              let len = (if is4 then 4 else 16); n = digits_value bits; m = cidr_mask n len
              in if bits \<noteq> [] \<and> list_all is_digit bits \<and> n \<le> 8 * len
                 then Some \<lparr>net_ip = ip_mask i m, net_mask = m\<rparr> else None)"

text \<open>\<^verbatim>\<open>IPNet.Contains\<close>, with \<^verbatim>\<open>networkNumberAndMask\<close> inlined.\<close>

definition net_contains :: "ipnet \<Rightarrow> ip \<Rightarrow> bool" where
  "net_contains n i =
     (let nn = (case to4 (net_ip n) of Some j \<Rightarrow> j | None \<Rightarrow> if length (net_ip n) = 16 then net_ip n else []);
          m = (if length (net_mask n) = 16 \<and> length nn = 4 then drop 12 (net_mask n) else net_mask n);
          nn' = (if length m = length nn then nn else []);
          i' = (case to4 i of Some j \<Rightarrow> j | None \<Rightarrow> i)
      in length i' = length nn' \<and> mask_bytes nn' m = mask_bytes i' m)"

section \<open>Host and port\<close>

definition last_index_byte :: "string \<Rightarrow> char \<Rightarrow> nat option" where
  "last_index_byte s c = map_option (\<lambda>i. length s - Suc i) (index_byte (rev s) c)"

text \<open>\<^verbatim>\<open>net.SplitHostPort\<close>; \<^verbatim>\<open>None\<close> is the error.\<close>

definition split_host_port :: "string \<Rightarrow> (string \<times> string) option" where
  "split_host_port s =
     (case last_index_byte s (CHR '':'') of
        None \<Rightarrow> None
      | Some i \<Rightarrow>
          if hd s = CHR ''['' then
            (case index_byte s (CHR '']'') of
               None \<Rightarrow> None
             | Some e \<Rightarrow>
                 if e + 1 = i \<and> CHR ''['' \<notin> set (drop 1 s) \<and> CHR '']'' \<notin> set (drop (e + 1) s)
                 then Some (drop 1 (take e s), drop (i + 1) s) else None)
          else if CHR '':'' \<in> set (take i s) \<or> CHR ''['' \<in> set s \<or> CHR '']'' \<in> set s then None
          else Some (take i s, drop (i + 1) s))"

section \<open>Facts\<close>

lemma sequence_opt_length: "sequence_opt xs = Some ys \<Longrightarrow> length ys = length xs"
  by (induction xs arbitrary: ys rule: sequence_opt.induct) auto

lemma parse_ipv4_length: "parse_ipv4 s = Some bs \<Longrightarrow> length bs = 4"
  by (auto simp: parse_ipv4_def Let_def split: if_splits dest: sequence_opt_length)

lemma v6_groups_length:
  "v6_groups n acc ell s = Some (bs, e, r) \<Longrightarrow> length acc + 2 * n = 16 \<Longrightarrow> length bs \<le> 16"
proof (induction n arbitrary: acc ell s)
  case (Suc n)
  have IH: "length bs \<le> 16"
    if "v6_groups n (acc @ [a, b]) ell' t = Some (bs, e, r)" for a b ell' t
    using Suc.IH[OF that] Suc.prems(2) by simp
  from Suc.prems show ?case
    by (auto simp: Let_def split: if_splits list.splits dest: parse_ipv4_length IH)
qed auto

lemma parse_ipv6_length: "parse_ipv6 s = Some bs \<Longrightarrow> length bs = 16"
  by (auto simp: parse_ipv6_def Let_def not_less min_def
      split: if_splits option.splits prod.splits dest!: v6_groups_length)

lemma parse_ip_length: "parse_ip s = Some i \<Longrightarrow> length i = 16"
  by (auto simp: parse_ip_def parse_addr_def v4_in_v6_def
      split: option.splits if_splits dest: parse_ipv4_length parse_ipv6_length)

lemma parse_ip_Nil [simp]: "parse_ip [] = None"
  by (simp add: parse_ip_def parse_addr_def)

lemma length_cidr_mask [simp]: "length (cidr_mask n len) = len"
  by (simp add: cidr_mask_def)

lemma parse_cidr_mask: "parse_cidr s = Some n \<Longrightarrow> length (net_mask n) \<in> {4, 16}"
  by (auto simp: parse_cidr_def Let_def split: if_splits option.splits prod.splits)

end
