(* ===== verification/GoPath.thy ===== *)
theory GoPath
  imports GoStrings
begin

text \<open>
  Go's \<^verbatim>\<open>filepath.Match\<close> on Unix. The pattern is cut at its stars into chunks and each
  chunk is parsed into one token per matched code point or byte; a malformed pattern
  never matches (the callers drop the error). The search after a star takes the first
  position where the chunk fits, as the library does.
\<close>

datatype glob_token = GLit char | GAny | GClass bool "(nat \<times> nat) list"

section \<open>Parsing\<close>

fun glob_scan :: "bool \<Rightarrow> string \<Rightarrow> string \<times> string" where
  "glob_scan inr [] = ([], [])"
| "glob_scan inr (c # s) =
     (if c = CHR 92 then
        (case s of [] \<Rightarrow> ([c], []) | d # t \<Rightarrow> (case glob_scan inr t of (a, b) \<Rightarrow> (c # d # a, b)))
      else if c = CHR ''*'' \<and> \<not> inr then ([], c # s)
      else case glob_scan (if c = CHR ''['' then True else if c = CHR '']'' then False else inr) s of
             (a, b) \<Rightarrow> (c # a, b))"

lemma glob_scan_append: "glob_scan inr s = (a, b) \<Longrightarrow> s = a @ b"
  by (induction inr s arbitrary: a b rule: glob_scan.induct)
     (auto split: if_splits prod.splits list.splits)

function glob_split :: "string \<Rightarrow> (bool \<times> string) list" where
  "glob_split p =
     (if p = [] then []
      else case glob_scan False (dropWhile (\<lambda>c. c = CHR ''*'') p) of
             (chunk, rest) \<Rightarrow> (hd p = CHR ''*'', chunk) # glob_split rest)"
  by pat_completeness auto
termination
proof (relation "measure length", goal_cases)
  case (2 p chunk rest)
  let ?q = "dropWhile (\<lambda>c. c = CHR ''*'') p"
  from 2 have sc: "glob_scan False ?q = (chunk, rest)" by simp
  then have q: "?q = chunk @ rest" by (rule glob_scan_append)
  have "length ?q \<le> length p" by (rule length_dropWhile_le)
  moreover have "length rest < length p"
  proof (cases "hd p = CHR ''*''")
    case True
    with 2(1) have "length ?q < length p" by (cases p) (auto simp: le_imp_less_Suc length_dropWhile_le)
    with q show ?thesis by (metis add_leD2 le_less_trans length_append order_refl)
  next
    case False
    with 2(1) obtain c s where p: "p = c # s" "c \<noteq> CHR ''*''" by (cases p) auto
    with sc have "chunk \<noteq> []" by (auto split: if_splits prod.splits list.splits)
    with q p show ?thesis by (cases chunk) (auto simp: le_imp_less_Suc)
  qed
  ultimately show ?case by simp
qed auto

declare glob_split.simps [simp del]

definition glob_esc :: "string \<Rightarrow> (nat \<times> string) option" where
  "glob_esc s =
     (case s of [] \<Rightarrow> None
      | c # t \<Rightarrow>
          if c = CHR ''-'' \<or> c = CHR '']'' then None
          else let u = (if c = CHR 92 then t else s)
               in if u = [] then None
                  else case decode_rune u of (r, n) \<Rightarrow>
                    if r = rune_error \<and> n = 1 \<or> drop n u = [] then None else Some (r, drop n u))"

text \<open>The ranges of a class up to its closing bracket; the fuel is the length of the text.\<close>

fun glob_ranges :: "nat \<Rightarrow> (nat \<times> nat) list \<Rightarrow> string \<Rightarrow> ((nat \<times> nat) list \<times> string) option" where
  "glob_ranges 0 acc s = None"
| "glob_ranges (Suc n) acc s =
     (if s \<noteq> [] \<and> hd s = CHR '']'' \<and> acc \<noteq> [] then Some (acc, tl s)
      else case glob_esc s of
          None \<Rightarrow> None
        | Some (lo, t) \<Rightarrow>
            if hd t = CHR ''-'' then
              (case glob_esc (tl t) of None \<Rightarrow> None | Some (hi, u) \<Rightarrow> glob_ranges n (acc @ [(lo, hi)]) u)
            else glob_ranges n (acc @ [(lo, lo)]) t)"

fun glob_tokens :: "nat \<Rightarrow> string \<Rightarrow> glob_token list option" where
  "glob_tokens 0 s = (if s = [] then Some [] else None)"
| "glob_tokens (Suc n) s =
     (case s of [] \<Rightarrow> Some []
      | c # t \<Rightarrow>
          if c = CHR ''['' then
            (let neg = (t \<noteq> [] \<and> hd t = CHR ''^'') in
             case glob_ranges (Suc (length t)) [] (if neg then tl t else t) of
               None \<Rightarrow> None
             | Some (rs, u) \<Rightarrow> map_option (Cons (GClass neg rs)) (glob_tokens n u))
          else if c = CHR ''?'' then map_option (Cons GAny) (glob_tokens n t)
          else if c = CHR 92 then
            (case t of [] \<Rightarrow> None | d # u \<Rightarrow> map_option (Cons (GLit d)) (glob_tokens n u))
          else map_option (Cons (GLit c)) (glob_tokens n t))"

fun glob_parse :: "(bool \<times> string) list \<Rightarrow> (bool \<times> glob_token list) list option" where
  "glob_parse [] = Some []"
| "glob_parse ((star, chunk) # ps) =
     (case glob_tokens (length chunk) chunk of
        None \<Rightarrow> None
      | Some ts \<Rightarrow> map_option (Cons (star, ts)) (glob_parse ps))"

section \<open>Matching\<close>

fun glob_chunk :: "glob_token list \<Rightarrow> string \<Rightarrow> string option" where
  "glob_chunk [] s = Some s"
| "glob_chunk (t # ts) [] = None"
| "glob_chunk (GLit c # ts) (d # s) = (if c = d then glob_chunk ts s else None)"
| "glob_chunk (GAny # ts) (d # s) =
     (if d = CHR ''/'' then None else glob_chunk ts (drop (snd (decode_rune (d # s))) (d # s)))"
| "glob_chunk (GClass neg rs # ts) (d # s) =
     (case decode_rune (d # s) of (r, n) \<Rightarrow>
        if list_ex (\<lambda>(lo, hi). lo \<le> r \<and> r \<le> hi) rs = neg then None
        else glob_chunk ts (drop n (d # s)))"

fun glob_skip :: "glob_token list \<Rightarrow> bool \<Rightarrow> string \<Rightarrow> string option" where
  "glob_skip ts fin [] = None"
| "glob_skip ts fin (c # s) =
     (if c = CHR ''/'' then None
      else case glob_chunk ts s of
          None \<Rightarrow> glob_skip ts fin s
        | Some t \<Rightarrow> if fin \<and> t \<noteq> [] then glob_skip ts fin s else Some t)"

fun glob_match :: "(bool \<times> glob_token list) list \<Rightarrow> string \<Rightarrow> bool" where
  "glob_match [] s = (s = [])"
| "glob_match ((star, ts) # rest) s =
     (if star \<and> ts = [] then CHR ''/'' \<notin> set s
      else let here = glob_chunk ts s in
        if here \<noteq> None \<and> (here = Some [] \<or> rest \<noteq> []) then glob_match rest (the here)
        else if star then
          (case glob_skip ts (rest = []) s of None \<Rightarrow> False | Some t \<Rightarrow> glob_match rest t)
        else False)"

definition path_match :: "string \<Rightarrow> string \<Rightarrow> bool" where
  "path_match p s =
     (case glob_parse (glob_split p) of None \<Rightarrow> False | Some ps \<Rightarrow> glob_match ps s)"

section \<open>Patterns without special characters, with at most a final star\<close>

definition plain_char :: "char \<Rightarrow> bool" where
  "plain_char c = (c \<noteq> CHR ''*'' \<and> c \<noteq> CHR ''?'' \<and> c \<noteq> CHR ''['' \<and> c \<noteq> CHR 92)"

lemma glob_scan_plain:
  "list_all plain_char p \<Longrightarrow> glob_scan False (p @ s) = (case glob_scan False s of (a, b) \<Rightarrow> (p @ a, b))"
  by (induction p) (auto simp: plain_char_def split: prod.splits)

lemma glob_tokens_plain: "list_all plain_char p \<Longrightarrow> length p \<le> n \<Longrightarrow> glob_tokens n p = Some (map GLit p)"
proof (induction p arbitrary: n)
  case Nil
  then show ?case by (cases n) auto
next
  case (Cons c p)
  then show ?case by (cases n) (auto simp: plain_char_def)
qed

lemma glob_chunk_plain: "glob_chunk (map GLit p) s = (if has_prefix s p then Some (drop (length p) s) else None)"
proof (induction p arbitrary: s)
  case (Cons c p)
  then show ?case by (cases s) (auto simp: has_prefix_def)
qed (simp add: has_prefix_def)

lemma path_match_plain:
  assumes "list_all plain_char p"
  shows "path_match p s \<longleftrightarrow> s = p"
proof (cases p)
  case Nil
  then show ?thesis by (simp add: path_match_def glob_split.simps)
next
  case (Cons c q)
  with assms have "glob_split p = [(False, p)]"
    using glob_scan_plain[of p "[]"] by (simp add: glob_split.simps plain_char_def)
  then have "path_match p s \<longleftrightarrow> glob_match [(False, map GLit p)] s"
    using glob_tokens_plain[OF assms] by (simp add: path_match_def)
  then show ?thesis
    by (auto simp: glob_chunk_plain Let_def has_prefix_iff)
qed

lemma path_match_star:
  assumes "list_all plain_char p"
  shows "path_match (p @ ''*'') s \<longleftrightarrow> (\<exists>t. s = p @ t \<and> CHR ''/'' \<notin> set t)"
proof (cases p)
  case Nil
  then show ?thesis by (simp add: path_match_def glob_split.simps)
next
  case (Cons c q)
  with assms have "glob_split (p @ ''*'') = [(False, p), (True, [])]"
    using glob_scan_plain[of p "''*''"] by (simp add: glob_split.simps plain_char_def)
  then have "path_match (p @ ''*'') s \<longleftrightarrow> glob_match [(False, map GLit p), (True, [])] s"
    using glob_tokens_plain[OF assms] by (simp add: path_match_def)
  then show ?thesis
    by (auto simp: glob_chunk_plain Let_def has_prefix_iff)
qed

end
