(* ===== verification/Rules.thy ===== *)
theory Rules
  imports Policy GoNet GoPath
begin

text \<open>
  \<^verbatim>\<open>internal/rules\<close>: the custom rules that operators add at run time, each a conjunction
  of conditions on the request, and the engine that evaluates them in order.
\<close>

section \<open>Types\<close>

record custom_rule =
  cr_id :: string
  cr_name :: string
  cr_description :: string
  cr_enabled :: bool
  cr_priority :: int
  cr_action :: action
  cr_methods :: "string list"
  cr_path_pattern :: string
  cr_path_exact :: string
  cr_hosts :: "string list"
  cr_ips :: "string list"
  cr_ip_cidrs :: "string list"
  cr_header_name :: string
  cr_header_value :: string
  cr_body_contains :: string
  cr_query_param :: string
  cr_query_value :: string

text \<open>The zero value of the struct.\<close>

definition empty_rule :: custom_rule where
  "empty_rule =
     \<lparr>cr_id = [], cr_name = [], cr_description = [], cr_enabled = False, cr_priority = 0,
      cr_action = ActionOther [], cr_methods = [], cr_path_pattern = [], cr_path_exact = [],
      cr_hosts = [], cr_ips = [], cr_ip_cidrs = [], cr_header_name = [], cr_header_value = [],
      cr_body_contains = [], cr_query_param = [], cr_query_value = []\<rparr>"

record rules_engine =
  eng_rules :: "custom_rule list"

section \<open>Matching one rule\<close>

text \<open>The loop over the networks: an unparsable network is skipped.\<close>

fun match_cidrs :: "string list \<Rightarrow> string \<Rightarrow> bool" where
  "match_cidrs [] remote = True"
| "match_cidrs (c # cs) remote =
     (case parse_cidr c of
        None \<Rightarrow> match_cidrs cs remote
      | Some net \<Rightarrow>
          (case parse_ip remote of
             None \<Rightarrow> False
           | Some i \<Rightarrow> if net_contains net i then match_cidrs cs remote else False))"

definition match_header :: "custom_rule \<Rightarrow> request \<Rightarrow> bool" where
  "match_header rule req =
     (if cr_header_name rule = [] then True
      else case Headers req (cr_header_name rule) of
          None \<Rightarrow> cr_header_value rule = []
        | Some values \<Rightarrow> cr_header_value rule = [] \<or> cr_header_value rule \<in> set values)"

text \<open>
  The scan of the query string: the pairs are cut at \<^verbatim>\<open>&\<close>, the first pair with the right
  key decides. The loop ends when the rest of the query is empty.
\<close>

function scan_query :: "custom_rule \<Rightarrow> string \<Rightarrow> bool" where
  "scan_query rule q =
     (if q = [] then False
      else let (pair, rest) = (case index_byte q (CHR ''&'') of
                                 Some i \<Rightarrow> (take i q, drop (Suc i) q)
                               | None \<Rightarrow> (q, []));
               (key, val, found) = str_cut (CHR ''='') pair
           in if found \<and> key = cr_query_param rule
              then \<not> (cr_query_value rule \<noteq> [] \<and> val \<noteq> cr_query_value rule)
              else scan_query rule rest)"
  by pat_completeness auto
termination
  by (relation "measure (\<lambda>(_, q). length q)") (auto split: option.splits)

declare scan_query.simps [simp del]

definition match_query :: "custom_rule \<Rightarrow> request \<Rightarrow> bool" where
  "match_query rule req =
     (if cr_query_param rule = [] then True
      else case index_byte (Path req) (CHR ''?'') of
          None \<Rightarrow> False
        | Some i \<Rightarrow> scan_query rule (drop (Suc i) (Path req)))"

definition matchRule :: "custom_rule \<Rightarrow> request \<Rightarrow> bool" where
  "matchRule rule req =
     (if cr_methods rule \<noteq> [] \<and> Method req \<notin> set (cr_methods rule) then False
      else if cr_path_exact rule \<noteq> [] \<and> Path req \<noteq> cr_path_exact rule then False
      else if cr_path_pattern rule \<noteq> [] \<and> \<not> path_match (cr_path_pattern rule) (Path req) then False
      else if cr_hosts rule \<noteq> [] \<and> Host req \<notin> set (cr_hosts rule) then False
      else if cr_ips rule \<noteq> [] \<and> RemoteIP req \<notin> set (cr_ips rule) then False
      else if \<not> match_cidrs (cr_ip_cidrs rule) (RemoteIP req) then False
      else if \<not> match_header rule req then False
      else if cr_body_contains rule \<noteq> [] \<and> \<not> str_contains (Body req) (cr_body_contains rule) then False
      else match_query rule req)"

section \<open>The engine\<close>

definition NewEngine :: rules_engine where
  "NewEngine = \<lparr>eng_rules = []\<rparr>"

definition add_rule :: "rules_engine \<Rightarrow> custom_rule \<Rightarrow> rules_engine" where
  "add_rule e r = e\<lparr>eng_rules := eng_rules e @ [r]\<rparr>"

definition remove_rule :: "rules_engine \<Rightarrow> string \<Rightarrow> rules_engine" where
  "remove_rule e i = e\<lparr>eng_rules := delete_first (\<lambda>r. cr_id r = i) (eng_rules e)\<rparr>"

definition list_rules :: "rules_engine \<Rightarrow> custom_rule list" where
  "list_rules e = eng_rules e"

fun evaluate_custom :: "custom_rule list \<Rightarrow> request \<Rightarrow> result" where
  "evaluate_custom [] req = mk_result ActionAllow [] []"
| "evaluate_custom (r # rs) req =
     (if \<not> cr_enabled r then evaluate_custom rs req
      else if matchRule r req then mk_result (cr_action r) (cr_id r) (cr_description r)
      else evaluate_custom rs req)"

definition evaluate_rules_engine :: "rules_engine \<Rightarrow> request \<Rightarrow> result" where
  "evaluate_rules_engine e req = evaluate_custom (eng_rules e) req"

section \<open>First match wins\<close>

definition custom_applies :: "custom_rule \<Rightarrow> request \<Rightarrow> bool" where
  "custom_applies r req = (cr_enabled r \<and> matchRule r req)"

definition custom_verdict :: "custom_rule \<Rightarrow> result" where
  "custom_verdict r = mk_result (cr_action r) (cr_id r) (cr_description r)"

interpretation custom_rules: first_match evaluate_custom custom_applies custom_verdict
  "mk_result ActionAllow [] []"
  by unfold_locales (auto simp: custom_applies_def custom_verdict_def)

lemmas rules_ops = NewEngine_def add_rule_def remove_rule_def list_rules_def evaluate_rules_engine_def

section \<open>What the conditions mean\<close>

lemma match_cidrs_iff:
  "match_cidrs cs remote \<longleftrightarrow>
   (\<forall>c \<in> set cs. \<forall>net. parse_cidr c = Some net \<longrightarrow>
      (\<exists>i. parse_ip remote = Some i \<and> net_contains net i))"
  by (induction cs) (auto split: option.splits)

text \<open>The query conditions over the list of pairs, instead of the cutting loop.\<close>

definition query_pairs :: "string \<Rightarrow> (string \<times> string) list" where
  "query_pairs q =
     map (\<lambda>p. case str_cut (CHR ''='') p of (k, v, _) \<Rightarrow> (k, v))
       (filter (\<lambda>p. CHR ''='' \<in> set p) (str_split (CHR ''&'') q))"

definition first_value :: "string \<Rightarrow> string \<Rightarrow> string option" where
  "first_value q k = map_option snd (find (\<lambda>(k', v). k' = k) (query_pairs q))"

lemma query_pairs_Nil [simp]: "query_pairs [] = []"
  by (simp add: query_pairs_def)

lemma query_pairs_simple:
  "CHR ''&'' \<notin> set p \<Longrightarrow>
   query_pairs p = (case str_cut (CHR ''='') p of (k, v, f) \<Rightarrow> if f then [(k, v)] else [])"
  using str_cut_True[of "CHR ''=''" p] str_cut_False[of "CHR ''=''" p]
  by (auto simp: query_pairs_def str_split_simple split: prod.splits)

lemma query_pairs_split:
  "CHR ''&'' \<notin> set p \<Longrightarrow> query_pairs (p @ CHR ''&'' # q) = query_pairs p @ query_pairs q"
  by (simp add: query_pairs_def str_split_append str_split_simple)

lemma scan_query_first_value:
  "scan_query rule q =
     (case first_value q (cr_query_param rule) of
        None \<Rightarrow> False
      | Some v \<Rightarrow> cr_query_value rule = [] \<or> v = cr_query_value rule)"
proof (induction rule q rule: scan_query.induct)
  case (1 rule q)
  show ?case
  proof (cases "q = []")
    case True
    then show ?thesis by (simp add: scan_query.simps first_value_def)
  next
    case False
    obtain pair rest where pr: "(case index_byte q (CHR ''&'') of
        Some i \<Rightarrow> (take i q, drop (Suc i) q) | None \<Rightarrow> (q, [])) = (pair, rest)" by fastforce
    obtain key val found where kv: "str_cut (CHR ''='') pair = (key, val, found)"
      by (cases "str_cut (CHR ''='') pair")
    have pair: "CHR ''&'' \<notin> set pair"
      using pr by (auto split: option.splits dest: index_byte_Some)
    have pairs: "query_pairs q = query_pairs pair @ query_pairs rest"
    proof (cases "index_byte q (CHR ''&'')")
      case None
      with pr show ?thesis by simp
    next
      case (Some i)
      with pr pair show ?thesis using index_byte_split[OF Some] query_pairs_split[OF pair, of rest] by simp
    qed
    have IH: "\<not> (found \<and> key = cr_query_param rule) \<Longrightarrow> scan_query rule rest =
        (case first_value rest (cr_query_param rule) of None \<Rightarrow> False
         | Some v \<Rightarrow> cr_query_value rule = [] \<or> v = cr_query_value rule)"
      using "1"[OF False pr[symmetric] refl kv[symmetric] refl] by blast
    show ?thesis
    proof (cases "found \<and> key = cr_query_param rule")
      case True
      then have "first_value q (cr_query_param rule) = Some val"
        using kv by (simp add: first_value_def pairs query_pairs_simple[OF pair])
      then show ?thesis using True False pr kv by (subst scan_query.simps) auto
    next
      case hit: False
      then have "first_value q (cr_query_param rule) = first_value rest (cr_query_param rule)"
        using kv by (auto simp: first_value_def pairs query_pairs_simple[OF pair])
      then show ?thesis using IH[OF hit] hit False pr kv by (subst scan_query.simps) auto
    qed
  qed
qed

end
