(* ===== verification/AuditStore.thy ===== *)
theory AuditStore
  imports Interfaces GoStrings
begin

text \<open>
  \<^verbatim>\<open>internal/audit\<close>: the audit store, a ring of the last events in memory and an optional
  append-only file. Times are nanoseconds; \<^verbatim>\<open>time.Now\<close> is an argument. The file is the
  list of events written to it, one JSON line each.
\<close>

record audit_event =
  ae_timestamp :: int
  ae_actor :: string
  ae_actor_ip :: string
  ae_action :: string
  ae_resource :: string
  ae_result :: string
  ae_details :: string
  ae_request_id :: string

definition empty_event :: audit_event where
  "empty_event =
     \<lparr>ae_timestamp = 0, ae_actor = [], ae_actor_ip = [], ae_action = [], ae_resource = [],
      ae_result = [], ae_details = [], ae_request_id = []\<rparr>"

record audit_store =
  aud_events :: "audit_event list"
  aud_max_size :: nat
  aud_pos :: nat
  aud_file :: "audit_event list option"

text \<open>\<^verbatim>\<open>NewStore\<close>; \<^verbatim>\<open>opened\<close> is the outcome of opening the file, \<^verbatim>\<open>None\<close> the error.\<close>

definition NewStore :: "nat \<Rightarrow> string \<Rightarrow> bool \<Rightarrow> audit_store option" where
  "NewStore n path opened =
     (if path = [] then Some \<lparr>aud_events = [], aud_max_size = n, aud_pos = 0, aud_file = None\<rparr>
      else if opened then Some \<lparr>aud_events = [], aud_max_size = n, aud_pos = 0, aud_file = Some []\<rparr>
      else None)"

text \<open>\<^verbatim>\<open>Record\<close>; \<^verbatim>\<open>None\<close> is the panic of an index out of range (only with no slots at all).\<close>

definition stamp_event :: "int \<times> audit_event \<Rightarrow> audit_event" where
  "stamp_event x = (case x of (now, e) \<Rightarrow> e\<lparr>ae_timestamp := now\<rparr>)"

definition record_event :: "int \<times> audit_event \<Rightarrow> audit_store \<Rightarrow> audit_store option" where
  "record_event x s =
     (let e = stamp_event x; lines = map_option (\<lambda>ls. ls @ [e]) (aud_file s)
      in if length (aud_events s) < aud_max_size s
         then Some (s\<lparr>aud_events := aud_events s @ [e], aud_file := lines\<rparr>)
         else if aud_pos s < length (aud_events s)
         then Some (s\<lparr>aud_events := (aud_events s)[aud_pos s := e],
                      aud_pos := (aud_pos s + 1) mod aud_max_size s, aud_file := lines\<rparr>)
         else None)"

record query_filter =
  qf_limit :: int
  qf_actor :: string
  qf_action :: string
  qf_result :: string

definition event_matches :: "query_filter \<Rightarrow> audit_event \<Rightarrow> bool" where
  "event_matches f e =
     (if qf_actor f \<noteq> [] \<and> ae_actor e \<noteq> qf_actor f then False
      else if qf_action f \<noteq> [] \<and> ae_action e \<noteq> qf_action f then False
      else if qf_result f \<noteq> [] \<and> ae_result e \<noteq> qf_result f then False
      else True)"

text \<open>The loop runs over the slots from the last to the first until the limit is reached.\<close>

fun query_loop :: "query_filter \<Rightarrow> nat \<Rightarrow> audit_event list \<Rightarrow> audit_event list \<Rightarrow> audit_event list" where
  "query_loop f lim [] result = result"
| "query_loop f lim (e # es) result =
     (if \<not> length result < lim then result
      else if event_matches f e then query_loop f lim es (result @ [e])
      else query_loop f lim es result)"

definition effective_limit :: "query_filter \<Rightarrow> nat" where
  "effective_limit f = nat (if qf_limit f \<le> 0 \<or> 1000 < qf_limit f then 100 else qf_limit f)"

definition query :: "audit_store \<Rightarrow> query_filter \<Rightarrow> audit_event list" where
  "query s f = query_loop f (effective_limit f) (rev (aud_events s)) []"

record audit_stats =
  as_total :: nat
  as_allowed :: nat
  as_blocked :: nat

fun count_results :: "audit_event list \<Rightarrow> nat \<times> nat \<Rightarrow> nat \<times> nat" where
  "count_results [] ab = ab"
| "count_results (e # es) (a, b) =
     (if ae_result e = ''allowed'' then count_results es (a + 1, b) else count_results es (a, b + 1))"

definition audit_stats :: "audit_store \<Rightarrow> audit_stats" where
  "audit_stats s =
     (case count_results (aud_events s) (0, 0) of (a, b) \<Rightarrow>
        \<lparr>as_total = length (aud_events s), as_allowed = a, as_blocked = b\<rparr>)"

section \<open>The ring\<close>

interpretation audit_ring: record_ring record_event stamp_event aud_events aud_pos aud_max_size "\<lambda>_. True"
  by unfold_locales (auto simp: record_event_def Let_def)

definition audit_wf :: "audit_store \<Rightarrow> bool" where
  "audit_wf s = ring_wf (aud_max_size s) (aud_pos s) (aud_events s)"

lemma audit_wf_new [waf_inv]: "0 < n \<Longrightarrow> NewStore n path opened = Some s \<Longrightarrow> audit_wf s"
  by (auto simp: NewStore_def audit_wf_def ring_wf_def split: if_splits)

lemma record_event_total: "audit_wf s \<Longrightarrow> \<exists>s'. record_event x s = Some s' \<and> audit_wf s'"
  unfolding audit_wf_def by (rule audit_ring.push_step[OF TrueI, of s x]) auto

lemma record_event_size: "record_event x s = Some s' \<Longrightarrow> aud_max_size s' = aud_max_size s"
  by (auto simp: record_event_def Let_def split: if_splits)

lemma record_event_file:
  "record_event x s = Some s' \<Longrightarrow> aud_file s' = map_option (\<lambda>ls. ls @ [stamp_event x]) (aud_file s)"
  by (auto simp: record_event_def Let_def split: if_splits)

lemma record_all_file:
  "fold_opt record_event xs s = Some s' \<Longrightarrow> aud_file s' = map_option (\<lambda>ls. ls @ map stamp_event xs) (aud_file s)"
proof (induction xs arbitrary: s)
  case Nil
  then show ?case by (simp add: option.map_ident)
next
  case (Cons x xs)
  then show ?case by (cases "aud_file s") (auto simp: record_event_file split: option.splits)
qed

text \<open>
  a fresh store never panics, its memory holds exactly the last \<^verbatim>\<open>maxSize\<close> recorded
  events in the order they were recorded (read from the write position on), and the file,
  when there is one, holds all of them.
\<close>

lemma audit_keeps_last:
  assumes "0 < n" and "NewStore n path opened = Some s"
  shows "\<exists>s'. fold_opt record_event xs s = Some s' \<and>
     chronological (aud_pos s') (aud_events s') = last_n n (map stamp_event xs) \<and>
     aud_file s' = (if path = [] then None else Some (map stamp_event xs))"
proof -
  have s: "aud_max_size s = n" "aud_events s = []" "aud_pos s = 0" "aud_file s = (if path = [] then None else Some [])"
    using assms(2) by (auto simp: NewStore_def split: if_splits)
  have "ring_wf (aud_max_size s) (aud_pos s) (aud_events s)"
    using audit_wf_new[OF assms] by (simp add: audit_wf_def)
  from audit_ring.push_all[OF TrueI this, of xs] obtain s' where
    s': "fold_opt record_event xs s = Some s'"
    "chronological (aud_pos s') (aud_events s') = last_n n (map stamp_event xs)"
    using s by auto
  then show ?thesis using record_all_file[OF s'(1)] s(4) by auto
qed

lemma audit_keeps_last_witness:
  "\<exists>s s'. NewStore 2 [] False = Some s \<and>
     fold_opt record_event [(1, empty_event), (2, empty_event), (3, empty_event)] s = Some s' \<and>
     chronological (aud_pos s') (aud_events s') =
       [empty_event\<lparr>ae_timestamp := 2\<rparr>, empty_event\<lparr>ae_timestamp := 3\<rparr>] \<and> aud_file s' = None"
proof -
  obtain s where s: "NewStore 2 [] False = Some s" by (simp add: NewStore_def)
  from audit_keeps_last[OF _ this, of "[(1, empty_event), (2, empty_event), (3, empty_event)]"] s
  show ?thesis by (simp add: last_n_def stamp_event_def)
qed

section \<open>Queries\<close>

lemma query_loop_eq:
  "query_loop f lim es result = result @ take (lim - length result) (filter (event_matches f) es)"
proof (induction f lim es result rule: query_loop.induct)
  case (2 f lim e es result)
  show ?case
  proof (cases "length result < lim")
    case True
    then have "lim - length result = Suc (lim - Suc (length result))" by simp
    with True 2 show ?thesis by simp
  qed simp
qed simp

text \<open>
  a query returns the matching events of the store from the last slot to the first, at
  most the limit (100 when the limit is absent or above 1000), so never more than 1000,
  and it misses none when the limit is not reached.
\<close>

lemma query_spec:
  "query s f = take (effective_limit f) (filter (event_matches f) (rev (aud_events s))) \<and>
   length (query s f) \<le> 1000 \<and> 0 < effective_limit f"
  by (auto simp: query_def query_loop_eq effective_limit_def)

text \<open>While the ring has not wrapped, the slots are in order of arrival: newest first.\<close>

lemma query_newest_first:
  "audit_wf s \<Longrightarrow> aud_pos s = 0 \<Longrightarrow>
   query s f = take (effective_limit f) (filter (event_matches f) (rev (chronological (aud_pos s) (aud_events s))))"
  by (simp add: query_spec)

lemma count_results_eq:
  "count_results es (a, b) =
     (a + length (filter (\<lambda>e. ae_result e = ''allowed'') es), b + length (filter (\<lambda>e. ae_result e \<noteq> ''allowed'') es))"
  by (induction es arbitrary: a b) auto

lemma audit_stats_sum: "as_allowed (audit_stats s) + as_blocked (audit_stats s) = as_total (audit_stats s)"
  by (simp add: audit_stats_def count_results_eq sum_length_filter_compl)

end
