(* ===== verification/Learning.thy ===== *)
theory Learning
  imports Interfaces GoStrings GoFloat "HOL-Library.Multiset"
begin

text \<open>
  \<^verbatim>\<open>internal/learning\<close>: the ring of evaluated requests, its statistics, the suggestions
  derived from it and the exported data set. \<^verbatim>\<open>time.Now\<close> and the RFC 3339 rendering of a
  time are arguments. Where the source ranges over a Go map, whose order is
  unspecified, the model uses the order of first occurrence.
\<close>

section \<open>Records\<close>

datatype lverdict = VerdictAllow | VerdictBlock | VerdictOther string

fun verdict_string :: "lverdict \<Rightarrow> string" where
  "verdict_string VerdictAllow = ''allow''"
| "verdict_string VerdictBlock = ''block''"
| "verdict_string (VerdictOther s) = s"

definition verdict_of :: "string \<Rightarrow> lverdict" where
  "verdict_of s =
     (if s = ''allow'' then VerdictAllow else if s = ''block'' then VerdictBlock else VerdictOther s)"

record learn_record =
  lr_timestamp :: int
  lr_method :: string
  lr_path :: string
  lr_host :: string
  lr_remote_ip :: string
  lr_content_type :: string
  lr_body_snippet :: string
  lr_verdict :: lverdict
  lr_rule_id :: string
  lr_reason :: string
  lr_duration :: int
  lr_tags :: "(string \<times> string) list"

definition empty_record :: learn_record where
  "empty_record =
     \<lparr>lr_timestamp = 0, lr_method = [], lr_path = [], lr_host = [], lr_remote_ip = [],
      lr_content_type = [], lr_body_snippet = [], lr_verdict = VerdictOther [], lr_rule_id = [],
      lr_reason = [], lr_duration = 0, lr_tags = []\<rparr>"

record learn_engine =
  le_records :: "learn_record list"
  le_max_size :: nat
  le_position :: nat
  le_enabled :: bool

definition NewLearningEngine :: "int \<Rightarrow> learn_engine" where
  "NewLearningEngine n =
     \<lparr>le_records = [], le_max_size = nat (if n \<le> 0 then 1000 else n), le_position = 0, le_enabled = True\<rparr>"

definition Enable :: "learn_engine \<Rightarrow> learn_engine" where "Enable e = e\<lparr>le_enabled := True\<rparr>"
definition Disable :: "learn_engine \<Rightarrow> learn_engine" where "Disable e = e\<lparr>le_enabled := False\<rparr>"

definition stamp_record :: "int \<times> learn_record \<Rightarrow> learn_record" where
  "stamp_record x = (case x of (now, r) \<Rightarrow> r\<lparr>lr_timestamp := now\<rparr>)"

definition learn :: "int \<times> learn_record \<Rightarrow> learn_engine \<Rightarrow> learn_engine option" where
  "learn x e =
     (if \<not> le_enabled e then Some e
      else if length (le_records e) < le_max_size e
      then Some (e\<lparr>le_records := le_records e @ [stamp_record x]\<rparr>)
      else if le_position e < length (le_records e)
      then Some (e\<lparr>le_records := (le_records e)[le_position e := stamp_record x],
                   le_position := (le_position e + 1) mod le_max_size e\<rparr>)
      else None)"

definition records :: "learn_engine \<Rightarrow> learn_record list" where
  "records e = le_records e"

interpretation learn_ring: record_ring learn stamp_record le_records le_position le_max_size le_enabled
  by unfold_locales (auto simp: learn_def)

definition learn_wf :: "learn_engine \<Rightarrow> bool" where
  "learn_wf e = ring_wf (le_max_size e) (le_position e) (le_records e)"

lemma learn_wf_new [waf_inv]: "learn_wf (NewLearningEngine n)"
  by (simp add: learn_wf_def ring_wf_def NewLearningEngine_def)

lemma learn_wf_switch [waf_inv]: "learn_wf e \<Longrightarrow> learn_wf (Enable e)" "learn_wf e \<Longrightarrow> learn_wf (Disable e)"
  by (simp_all add: learn_wf_def Enable_def Disable_def)

lemma learn_total: "learn_wf e \<Longrightarrow> \<exists>e'. learn x e = Some e' \<and> learn_wf e' \<and> le_max_size e' = le_max_size e"
proof (cases "le_enabled e")
  case True
  assume "learn_wf e"
  then show ?thesis unfolding learn_wf_def by (rule learn_ring.push_step[OF True, of x]) auto
qed (simp add: learn_def)

text \<open>
  an engine created with any size never panics while recording; switched on, it holds
  exactly the last \<^verbatim>\<open>maxSize\<close> records in order of arrival (1000 for a size that is not
  positive); switched off, recording changes nothing.
\<close>

lemma learning_keeps_last:
  "\<exists>e. fold_opt learn xs (NewLearningEngine n) = Some e \<and>
     chronological (le_position e) (le_records e) =
       last_n (if n \<le> 0 then 1000 else nat n) (map stamp_record xs) \<and>
     fold_opt learn ys (Disable e) = Some (Disable e)"
proof -
  have cap: "le_max_size (NewLearningEngine n) = (if n \<le> 0 then 1000 else nat n)" by (simp add: NewLearningEngine_def)
  have "le_enabled (NewLearningEngine n)" by (simp add: NewLearningEngine_def)
  moreover have "ring_wf (le_max_size (NewLearningEngine n)) (le_position (NewLearningEngine n)) (le_records (NewLearningEngine n))"
    using learn_wf_new by (simp add: learn_wf_def)
  ultimately obtain e where "fold_opt learn xs (NewLearningEngine n) = Some e"
    "chronological (le_position e) (le_records e) = last_n (if n \<le> 0 then 1000 else nat n) (map stamp_record xs)"
    using learn_ring.push_all[of "NewLearningEngine n" xs] cap by (auto simp: NewLearningEngine_def)
  moreover have "fold_opt learn ys (Disable e) = Some (Disable e)"
    by (rule learn_ring.push_all_off) (simp add: Disable_def)
  ultimately show ?thesis by blast
qed

section \<open>Statistics\<close>

record learn_stats =
  ls_total :: nat
  ls_allowed :: nat
  ls_blocked :: nat
  ls_max :: nat

fun count_verdicts :: "learn_record list \<Rightarrow> nat \<times> nat \<Rightarrow> nat \<times> nat" where
  "count_verdicts [] ab = ab"
| "count_verdicts (r # rs) (a, b) =
     (if lr_verdict r = VerdictAllow then count_verdicts rs (a + 1, b) else count_verdicts rs (a, b + 1))"

definition learn_stats :: "learn_engine \<Rightarrow> learn_stats" where
  "learn_stats e =
     (case count_verdicts (le_records e) (0, 0) of (a, b) \<Rightarrow>
        \<lparr>ls_total = length (le_records e), ls_allowed = a, ls_blocked = b, ls_max = le_max_size e\<rparr>)"

lemma count_verdicts_eq:
  "count_verdicts rs (a, b) =
     (a + length (filter (\<lambda>r. lr_verdict r = VerdictAllow) rs),
      b + length (filter (\<lambda>r. lr_verdict r \<noteq> VerdictAllow) rs))"
  by (induction rs arbitrary: a b) auto

lemma learn_stats_sum:
  "learn_wf e \<Longrightarrow> ls_allowed (learn_stats e) + ls_blocked (learn_stats e) = ls_total (learn_stats e) \<and>
   ls_total (learn_stats e) \<le> ls_max (learn_stats e)"
  by (simp add: learn_stats_def count_verdicts_eq sum_length_filter_compl learn_wf_def ring_wf_def)

section \<open>Path patterns\<close>

definition isNumeric :: "string \<Rightarrow> bool" where
  "isNumeric s = (s \<noteq> [] \<and> list_all is_digit s)"

definition isUUID :: "string \<Rightarrow> bool" where
  "isUUID s = (length s = 36 \<and> count_byte s (CHR ''-'') = 4)"

definition isHex :: "string \<Rightarrow> bool" where
  "isHex s = (s \<noteq> [] \<and> list_all is_hex_digit s)"

definition normalize_segment :: "string \<Rightarrow> string" where
  "normalize_segment seg =
     (if isNumeric seg then ''{id}''
      else if isUUID seg then ''{uuid}''
      else if isHex seg \<and> 16 < length seg then ''{hash}''
      else seg)"

text \<open>The loop over the segments; \<^verbatim>\<open>p\<close> is the path from the current start on.\<close>

function segments_loop :: "string \<Rightarrow> string" where
  "segments_loop p =
     (case index_byte p (CHR ''/'') of
        None \<Rightarrow> CHR ''/'' # normalize_segment p
      | Some i \<Rightarrow> CHR ''/'' # normalize_segment (take i p) @ segments_loop (drop (Suc i) p))"
  by pat_completeness auto
termination
  by (relation "measure length") (auto dest: index_byte_Some)

declare segments_loop.simps [simp del]

definition normalizePath :: "string \<Rightarrow> string" where
  "normalizePath path =
     (let p = (case index_byte path (CHR ''?'') of Some i \<Rightarrow> take i path | None \<Rightarrow> path);
          q = trim_byte (CHR ''/'') p
      in if q = [] then ''/'' else segments_loop q)"

lemma segments_loop_split:
  "segments_loop p = concat (map (\<lambda>seg. CHR ''/'' # normalize_segment seg) (str_split (CHR ''/'') p))"
proof (induction p rule: segments_loop.induct)
  case (1 p)
  show ?case
  proof (cases "index_byte p (CHR ''/'')")
    case None
    then have "CHR ''/'' \<notin> set p" by simp
    then show ?thesis using None segments_loop.simps[of p]
      by (simp add: str_split_simple del: index_byte_None)
  next
    case (Some i)
    have "str_split (CHR ''/'') p = take i p # str_split (CHR ''/'') (drop (Suc i) p)"
      using index_byte_split[OF Some] index_byte_Some[OF Some] str_split_append by metis
    with Some 1 show ?thesis by (subst segments_loop.simps) simp
  qed
qed

lemma no_sep_dropWhile: "b \<notin> set s \<Longrightarrow> dropWhile (\<lambda>c. c = b) s = s"
  by (cases s) auto

lemma normalize_segment_bytes:
  "\<lbrakk>b \<notin> set seg; b \<in> {CHR ''/'', CHR ''?''}\<rbrakk> \<Longrightarrow> b \<notin> set (normalize_segment seg)"
  by (auto simp: normalize_segment_def)

lemma normalize_segment_nonempty [simp]: "normalize_segment seg = [] \<longleftrightarrow> seg = []"
  by (auto simp: normalize_segment_def isNumeric_def isHex_def isUUID_def)

lemma normalize_segment_idem [simp]: "normalize_segment (normalize_segment seg) = normalize_segment seg"
proof -
  have "normalize_segment ''{id}'' = ''{id}''" "normalize_segment ''{uuid}'' = ''{uuid}''"
    "normalize_segment ''{hash}'' = ''{hash}''" by code_simp+
  moreover have "normalize_segment seg \<in> {''{id}'', ''{uuid}'', ''{hash}''} \<or> normalize_segment seg = seg"
    by (simp add: normalize_segment_def)
  ultimately show ?thesis by auto
qed

definition slash_segments :: "string list \<Rightarrow> string" where
  "slash_segments ws = concat (map (\<lambda>w. CHR ''/'' # w) ws)"

lemma slash_segments_join: "ws \<noteq> [] \<Longrightarrow> slash_segments ws = CHR ''/'' # str_join ''/'' ws"
  by (induction "''/''" ws rule: str_join.induct) (auto simp: slash_segments_def)

text \<open>Trimming the slashes of a rendered path whose outer segments are not empty.\<close>

lemma trim_slash_segments:
  assumes "ws \<noteq> []" "hd ws \<noteq> []" "List.last ws \<noteq> []" "\<And>w. w \<in> set ws \<Longrightarrow> CHR ''/'' \<notin> set w"
  shows "trim_byte (CHR ''/'') (slash_segments ws) = str_join ''/'' ws"
proof -
  obtain w ws' where ws: "ws = w # ws'" using assms(1) by (cases ws) auto
  obtain ws'' w' where ws2: "ws = ws'' @ [w']" using assms(1) by (cases ws rule: rev_cases) auto
  have w: "w \<noteq> []" "CHR ''/'' \<notin> set w" "w' \<noteq> []" "CHR ''/'' \<notin> set w'"
    using assms(2) assms(4)[of w] ws apply auto[2]
    using assms(3) assms(4)[of w'] unfolding ws2 by auto
  have hd: "hd (str_join ''/'' ws) \<noteq> CHR ''/''" and ne: "str_join ''/'' ws \<noteq> []"
    unfolding ws using w(1,2) by (cases ws'; cases w; auto)+
  have "slash_segments ws = slash_segments ws'' @ CHR ''/'' # w'" by (simp add: ws2 slash_segments_def)
  then have "CHR ''/'' # str_join ''/'' ws = slash_segments ws'' @ CHR ''/'' # w'"
    using slash_segments_join[OF assms(1)] by simp
  then have "List.last (CHR ''/'' # str_join ''/'' ws) = List.last w'" using w(3) by simp
  then have lt: "List.last (str_join ''/'' ws) \<noteq> CHR ''/''" using ne w(3,4) by (metis last.simps last_in_set)
  have "dropWhile (\<lambda>c. c = CHR ''/'') (slash_segments ws) = str_join ''/'' ws"
    using hd ne by (cases "str_join ''/'' ws") (simp_all add: slash_segments_join[OF assms(1)])
  moreover have "dropWhile (\<lambda>c. c = CHR ''/'') (rev (str_join ''/'' ws)) = rev (str_join ''/'' ws)"
    using lt ne by (cases "str_join ''/'' ws" rule: rev_cases) auto
  ultimately show ?thesis by (simp add: trim_byte_def trim_right_byte_def)
qed

lemma trim_byte_ends:
  assumes "trim_byte b s = q" "q \<noteq> []"
  shows "hd q \<noteq> b" "List.last q \<noteq> b" "set q \<subseteq> set s"
proof -
  define t where "t = dropWhile (\<lambda>c. c = b) s"
  have q: "q = rev (dropWhile (\<lambda>c. c = b) (rev t))" using assms(1) by (simp add: t_def trim_byte_def trim_right_byte_def)
  have "dropWhile (\<lambda>c. c = b) (rev t) \<noteq> []" using assms(2) q by simp
  then show "List.last q \<noteq> b" using hd_dropWhile[of "\<lambda>c. c = b" "rev t"] by (simp add: q last_rev)
  obtain u where u: "t = q @ u"
    using q takeWhile_dropWhile_id[of "\<lambda>c. c = b" "rev t"] by (metis rev_append rev_rev_ident)
  then have "t \<noteq> []" "hd t = hd q" using assms(2) by auto
  then show "hd q \<noteq> b" using hd_dropWhile[of "\<lambda>c. c = b" s] by (simp add: t_def)
  show "set q \<subseteq> set s" using u set_dropWhileD[of _ "\<lambda>c. c = b" s] by (auto simp: t_def)
qed

lemma str_split_ends:
  assumes "q \<noteq> []"
  shows "hd q \<noteq> b \<Longrightarrow> hd (str_split b q) \<noteq> []" "List.last q \<noteq> b \<Longrightarrow> List.last (str_split b q) \<noteq> []"
proof -
  show "hd q \<noteq> b \<Longrightarrow> hd (str_split b q) \<noteq> []" using assms by (cases q) (auto split: list.splits)
  show "List.last (str_split b q) \<noteq> []" if "List.last q \<noteq> b"
    using assms that
  proof (induction q)
    case (Cons c q)
    obtain w ws where sp: "str_split b q = w # ws" by (cases "str_split b q") auto
    show ?case
    proof (cases "q = []")
      case False
      then have "List.last (w # ws) \<noteq> []" using Cons sp by simp
      then show ?thesis by (auto simp: sp)
    qed (use Cons in simp)
  qed simp
qed

lemma normalizePath_cases:
  "normalizePath path = ''/'' \<or>
   (\<exists>q. q \<noteq> [] \<and> hd q \<noteq> CHR ''/'' \<and> List.last q \<noteq> CHR ''/'' \<and> CHR ''?'' \<notin> set q \<and>
        normalizePath path = slash_segments (map normalize_segment (str_split (CHR ''/'') q)))"
proof -
  define p where "p = (case index_byte path (CHR ''?'') of Some i \<Rightarrow> take i path | None \<Rightarrow> path)"
  define q where "q = trim_byte (CHR ''/'') p"
  have p: "CHR ''?'' \<notin> set p"
    unfolding p_def using index_byte_Some[of path "CHR ''?''"] index_byte_None[of path "CHR ''?''"]
    by (auto split: option.splits)
  have "normalizePath path = (if q = [] then ''/'' else segments_loop q)"
    by (simp add: normalizePath_def q_def p_def)
  moreover have "segments_loop q = slash_segments (map normalize_segment (str_split (CHR ''/'') q))"
    by (simp add: segments_loop_split slash_segments_def comp_def)
  ultimately show ?thesis
    using trim_byte_ends[of "CHR ''/''" p q] p by (cases "q = []") (auto simp: q_def)
qed

text \<open>
  path patterns are stable: normalizing a pattern again returns it, and the pattern of any
  path starts with a slash and has no query.
\<close>

lemma normalizePath_idempotent:
  "normalizePath (normalizePath path) = normalizePath path \<and>
   hd (normalizePath path) = CHR ''/'' \<and> CHR ''?'' \<notin> set (normalizePath path)"
proof (cases "normalizePath path = ''/''")
  case False
  then obtain q where q: "q \<noteq> []" "hd q \<noteq> CHR ''/''" "List.last q \<noteq> CHR ''/''" "CHR ''?'' \<notin> set q"
    and n: "normalizePath path = slash_segments (map normalize_segment (str_split (CHR ''/'') q))"
    using normalizePath_cases by blast
  define ws where "ws = map normalize_segment (str_split (CHR ''/'') q)"
  have ne: "ws \<noteq> []" by (simp add: ws_def)
  have nosep: "\<And>w. w \<in> set ws \<Longrightarrow> CHR ''/'' \<notin> set w"
    using str_split_no_sep normalize_segment_bytes by (fastforce simp: ws_def)
  have "hd ws = normalize_segment (hd (str_split (CHR ''/'') q))" by (simp add: ws_def hd_map)
  moreover have "List.last ws = normalize_segment (List.last (str_split (CHR ''/'') q))" by (simp add: ws_def last_map)
  ultimately have ends: "hd ws \<noteq> []" "List.last ws \<noteq> []"
    using str_split_ends[of q "CHR ''/''"] q by simp_all
  have trim: "trim_byte (CHR ''/'') (slash_segments ws) = str_join ''/'' ws"
    by (rule trim_slash_segments[OF ne ends nosep])
  have "set w \<subseteq> set q" if "w \<in> set (str_split (CHR ''/'') q)" for w
    using that by (rule str_split_subset)
  then have "\<And>w. w \<in> set ws \<Longrightarrow> CHR ''?'' \<notin> set w"
    using normalize_segment_bytes[of "CHR ''?''"] q(4) by (fastforce simp: ws_def)
  then have noq: "CHR ''?'' \<notin> set (slash_segments ws)" by (auto simp: slash_segments_def)
  have sp: "str_split (CHR ''/'') (str_join ''/'' ws) = ws" by (rule split_join[OF ne nosep])
  have jne: "str_join ''/'' ws \<noteq> []"
    using ends(1) ne by (cases ws rule: list.exhaust; cases "tl ws") auto
  have "index_byte (slash_segments ws) (CHR ''?'') = None" using noq by (subst index_byte_None)
  then have "normalizePath (slash_segments ws) = segments_loop (str_join ''/'' ws)"
    using trim jne by (simp add: normalizePath_def Let_def del: index_byte_None)
  also have "\<dots> = slash_segments (map normalize_segment ws)"
    using sp by (simp add: segments_loop_split slash_segments_def comp_def)
  also have "map normalize_segment ws = ws" by (simp add: ws_def)
  finally show ?thesis using n noq slash_segments_join[OF ne] by (simp add: ws_def)
next
  case True
  moreover have "normalizePath ''/'' = ''/''" by code_simp
  ultimately show ?thesis by simp
qed

section \<open>Suggestions\<close>

record suggestion =
  sg_type :: string
  sg_pattern :: string
  sg_description :: string
  sg_confidence :: float64
  sg_matches :: nat
  sg_sample :: string

record pathGroup =
  pg_count :: nat
  pg_blocked :: nat
  pg_last_seen :: int

definition em_dash :: string where "em_dash = [CHR 0xE2, CHR 0x80, CHR 0x94]"

text \<open>The zero \<^verbatim>\<open>time.Time\<close>, in nanoseconds from the Unix epoch.\<close>

definition zero_time :: int where "zero_time = - 62135596800 * 10 ^ 9"

definition add_to_group :: "learn_record \<Rightarrow> pathGroup \<Rightarrow> pathGroup" where
  "add_to_group r g =
     \<lparr>pg_count = pg_count g + 1,
      pg_blocked = (if lr_verdict r = VerdictBlock then pg_blocked g + 1 else pg_blocked g),
      pg_last_seen = (if pg_last_seen g < lr_timestamp r then lr_timestamp r else pg_last_seen g)\<rparr>"

definition path_groups :: "learn_record list \<Rightarrow> (string \<times> pathGroup) list" where
  "path_groups =
     group_by (\<lambda>r. normalizePath (lr_path r)) \<lparr>pg_count = 0, pg_blocked = 0, pg_last_seen = zero_time\<rparr> add_to_group"

definition whitelist_suggestions :: "string \<times> pathGroup \<Rightarrow> suggestion list" where
  "whitelist_suggestions pg =
     (case pg of (prefix, g) \<Rightarrow>
        if pg_count g < 10 then []
        else
          let blockRate = fdiv (float_of_int (int (pg_blocked g))) (float_of_int (int (pg_count g)))
          in (if fl (1/10) < blockRate
              then [\<lparr>sg_type = ''whitelist'', sg_pattern = prefix,
                     sg_description = ''High false positive rate '' @ em_dash @ '' consider whitelisting this path pattern'',
                     sg_confidence = blockRate, sg_matches = pg_blocked g, sg_sample = prefix\<rparr>]
              else []) @
             (if blockRate = 0 \<and> 50 \<le> pg_count g
              then [\<lparr>sg_type = ''whitelist'', sg_pattern = prefix,
                     sg_description = ''Frequently accessed with zero false positives '' @ em_dash @ '' safe to add to bypass list'',
                     sg_confidence = fl (95/100), sg_matches = pg_count g, sg_sample = prefix\<rparr>]
              else []))"

definition analyzeWhitelist :: "learn_record list \<Rightarrow> suggestion list" where
  "analyzeWhitelist rs = concat (map whitelist_suggestions (path_groups rs))"

text \<open>The counters per address; records without an address are skipped.\<close>

definition ip_counts :: "learn_record list \<Rightarrow> (string \<times> nat) list" where
  "ip_counts rs = group_by lr_remote_ip 0 (\<lambda>r. Suc) (filter (\<lambda>r. lr_remote_ip r \<noteq> []) rs)"

definition ip_blocked :: "learn_record list \<Rightarrow> (string \<times> nat) list" where
  "ip_blocked rs =
     group_by lr_remote_ip 0 (\<lambda>r. Suc) (filter (\<lambda>r. lr_remote_ip r \<noteq> [] \<and> lr_verdict r = VerdictBlock) rs)"

definition blocklist_suggestions :: "(string \<times> nat) list \<Rightarrow> string \<times> nat \<Rightarrow> suggestion list" where
  "blocklist_suggestions ipb it =
     (case it of (ip, tot) \<Rightarrow>
        let blocked = (case map_of ipb ip of Some n \<Rightarrow> n | None \<Rightarrow> 0)
        in if 5 \<le> tot \<and> 0 < blocked
           then let ratio = fdiv (float_of_int (int blocked)) (float_of_int (int tot))
                in if fl (8/10) \<le> ratio
                   then [\<lparr>sg_type = ''blocklist'', sg_pattern = ip,
                          sg_description = ''IP with high block ratio '' @ em_dash @ '' consider adding to permanent blocklist'',
                          sg_confidence = ratio, sg_matches = blocked, sg_sample = ip\<rparr>]
                   else []
           else [])"

definition analyzeBlocklist :: "learn_record list \<Rightarrow> suggestion list" where
  "analyzeBlocklist rs = concat (map (blocklist_suggestions (ip_blocked rs)) (ip_counts rs))"

definition rate_suggestions :: "nat \<Rightarrow> string \<times> nat \<Rightarrow> suggestion list" where
  "rate_suggestions len it =
     (case it of (ip, cnt) \<Rightarrow>
        if 50 \<le> cnt
        then let rate = fdiv (float_of_int (int cnt)) (float_of_int (int len))
             in if fl (1/10) < rate
                then [\<lparr>sg_type = ''rate_limit'', sg_pattern = ip,
                       sg_description = ''IP generating high traffic volume '' @ em_dash @ '' consider stricter rate limits'',
                       sg_confidence = fmul rate 5, sg_matches = cnt, sg_sample = ip\<rparr>]
                else []
        else [])"

definition analyzeRate :: "learn_record list \<Rightarrow> suggestion list" where
  "analyzeRate rs = concat (map (rate_suggestions (length rs)) (ip_counts rs))"

text \<open>\<^verbatim>\<open>sort.Slice\<close> leaves the order of equal elements open; the model's sort is stable.\<close>

definition Suggestions :: "learn_engine \<Rightarrow> suggestion list" where
  "Suggestions e =
     (let rs = le_records e
      in if rs = [] then []
         else sort_key (\<lambda>s. - sg_confidence s) (analyzeWhitelist rs @ analyzeBlocklist rs @ analyzeRate rs))"

lemma mem_ip_counts:
  "(ip, n) \<in> set (ip_counts rs) \<longleftrightarrow>
     ip \<noteq> [] \<and> 0 < n \<and> n = length (filter (\<lambda>r. lr_remote_ip r = ip) rs)"
proof -
  have f: "ip \<noteq> [] \<Longrightarrow> filter (\<lambda>r. lr_remote_ip r = ip) (filter (\<lambda>r. lr_remote_ip r \<noteq> []) rs) =
      filter (\<lambda>r. lr_remote_ip r = ip) rs"
    by (auto simp: intro!: filter_cong)
  have c: "fold (\<lambda>r. Suc) xs 0 = length xs" for xs :: "learn_record list"
    using fold_count[of "\<lambda>_. True" xs 0] by simp
  show ?thesis
  proof (cases "ip = []")
    case False
    then show ?thesis unfolding ip_counts_def group_by_mem c f[OF False]
      by (auto simp: image_iff filter_empty_conv)
  qed (auto simp: ip_counts_def group_by_mem)
qed

lemma ip_blocked_at:
  "ip \<noteq> [] \<Longrightarrow> (case map_of (ip_blocked rs) ip of Some n \<Rightarrow> n | None \<Rightarrow> 0) =
     length (filter (\<lambda>r. lr_remote_ip r = ip \<and> lr_verdict r = VerdictBlock) rs)"
proof -
  assume ip: "ip \<noteq> []"
  have f: "filter (\<lambda>r. lr_remote_ip r = ip) (filter (\<lambda>r. lr_remote_ip r \<noteq> [] \<and> lr_verdict r = VerdictBlock) rs) =
      filter (\<lambda>r. lr_remote_ip r = ip \<and> lr_verdict r = VerdictBlock) rs"
    using ip by (auto intro!: filter_cong)
  have c: "fold (\<lambda>r. Suc) xs 0 = length xs" for xs :: "learn_record list"
    using fold_count[of "\<lambda>_. True" xs 0] by simp
  show ?thesis
    unfolding ip_blocked_def map_of_group_by f c using ip
    by (auto simp: image_iff filter_empty_conv)
qed

text \<open>The suggestion for a blocked address: its ratio and what it claims.\<close>

definition block_suggestion :: "string \<Rightarrow> nat \<Rightarrow> nat \<Rightarrow> suggestion" where
  "block_suggestion ip blocked tot =
     \<lparr>sg_type = ''blocklist'', sg_pattern = ip,
      sg_description = ''IP with high block ratio '' @ em_dash @ '' consider adding to permanent blocklist'',
      sg_confidence = fdiv (float_of_int (int blocked)) (float_of_int (int tot)),
      sg_matches = blocked, sg_sample = ip\<rparr>"

lemma float_of_nat: "int n \<le> 2 ^ 53 \<Longrightarrow> float_of_int (int n) = of_nat n"
  using fl_of_int[of "int n"] by (simp add: float_of_int_def)

lemma ratio_at_least:
  assumes "0 < t" "int (4 * t) \<le> 2 ^ 52" "b \<le> t"
  shows "fl (8/10) \<le> fdiv (float_of_int (int b)) (float_of_int (int t)) \<longleftrightarrow> 4 * t \<le> 5 * b"
proof -
  have "fdiv (float_of_int (int b)) (float_of_int (int t)) = fl (of_int (int b) / of_int (int t))"
    using assms by (simp add: float_of_nat fdiv_def)
  moreover have "fl (8/10) = fl (of_int 4 / of_int 5)" by simp
  ultimately show ?thesis
    using fl_ratio_le_iff[of "int b" "int t" 5 4] assms by (simp only:) linarith
qed

text \<open>
  C38: the blocklist suggestions are exactly the addresses with at least five recorded requests of
  which at least four fifths were blocked: the floating-point ratio test against 0.8 decides as
  the exact fraction does (for fewer than 2^50 records).
\<close>

lemma analyzeBlocklist_exact:
  assumes "int (length rs) \<le> 2 ^ 50"
  shows "s \<in> set (analyzeBlocklist rs) \<longleftrightarrow>
     (\<exists>ip tot blocked.
        tot = length (filter (\<lambda>r. lr_remote_ip r = ip) rs) \<and>
        blocked = length (filter (\<lambda>r. lr_remote_ip r = ip \<and> lr_verdict r = VerdictBlock) rs) \<and>
        ip \<noteq> [] \<and> 5 \<le> tot \<and> 4 * tot \<le> 5 * blocked \<and> s = block_suggestion ip blocked tot)"
proof -
  have one: "set (blocklist_suggestions (ip_blocked rs) (ip, n)) =
      (let b = length (filter (\<lambda>r. lr_remote_ip r = ip \<and> lr_verdict r = VerdictBlock) rs)
       in if 5 \<le> n \<and> 4 * n \<le> 5 * b then {block_suggestion ip b n} else {})"
    if "(ip, n) \<in> set (ip_counts rs)" for ip n
  proof -
    define b where "b = length (filter (\<lambda>r. lr_remote_ip r = ip \<and> lr_verdict r = VerdictBlock) rs)"
    have ip: "ip \<noteq> []" "0 < n" and n: "n = length (filter (\<lambda>r. lr_remote_ip r = ip) rs)"
      using that by (auto simp: mem_ip_counts)
    have "n \<le> length rs" by (simp add: n)
    then have n50: "int (4 * n) \<le> 2 ^ 52" using assms by simp
    have bn: "b \<le> n" unfolding b_def n filter_filter[symmetric]
      by (induction rs) auto
    show ?thesis
      using ratio_at_least[OF ip(2) n50 bn] ip_blocked_at[OF ip(1), of rs]
      by (auto simp: blocklist_suggestions_def Let_def block_suggestion_def simp flip: b_def)
  qed
  have mem: "(ip, n) \<in> set (ip_counts rs) \<and> s \<in> set (blocklist_suggestions (ip_blocked rs) (ip, n)) \<longleftrightarrow>
      (ip, n) \<in> set (ip_counts rs) \<and> (\<exists>blocked.
      blocked = length (filter (\<lambda>r. lr_remote_ip r = ip \<and> lr_verdict r = VerdictBlock) rs) \<and>
      5 \<le> n \<and> 4 * n \<le> 5 * blocked \<and> s = block_suggestion ip blocked n)" for ip n
    using one[of ip n] by (cases "(ip, n) \<in> set (ip_counts rs)") (auto simp add: Let_def split: if_splits)
  have "s \<in> set (analyzeBlocklist rs) \<longleftrightarrow>
      (\<exists>ip n. (ip, n) \<in> set (ip_counts rs) \<and> s \<in> set (blocklist_suggestions (ip_blocked rs) (ip, n)))"
    by (auto simp: analyzeBlocklist_def)
  also have "\<dots> \<longleftrightarrow> (\<exists>ip n blocked. (ip, n) \<in> set (ip_counts rs) \<and>
      blocked = length (filter (\<lambda>r. lr_remote_ip r = ip \<and> lr_verdict r = VerdictBlock) rs) \<and>
      5 \<le> n \<and> 4 * n \<le> 5 * blocked \<and> s = block_suggestion ip blocked n)"
    using mem by blast
  finally show ?thesis by (auto simp: mem_ip_counts)
qed

lemma analyzeBlocklist_exact_witness:
  "let r = empty_record\<lparr>lr_remote_ip := ''10.0.0.9'', lr_verdict := VerdictBlock\<rparr>
   in block_suggestion ''10.0.0.9'' 5 5 \<in> set (analyzeBlocklist (replicate 5 r))"
  unfolding Let_def by (subst analyzeBlocklist_exact) (auto intro!: exI[of _ "''10.0.0.9''"])

text \<open>
  the suggestions are the whitelist, blocklist and rate suggestions, each once, ordered by
  descending confidence.
\<close>

lemma Suggestions_sorted:
  "sorted_wrt (\<lambda>a b. sg_confidence b \<le> sg_confidence a) (Suggestions e) \<and>
   mset (Suggestions e) =
     mset (analyzeWhitelist (le_records e)) + mset (analyzeBlocklist (le_records e)) +
     mset (analyzeRate (le_records e))"
proof
  have "sorted (map (\<lambda>s. - sg_confidence s) (Suggestions e))" by (simp add: Suggestions_def Let_def)
  then show "sorted_wrt (\<lambda>a b. sg_confidence b \<le> sg_confidence a) (Suggestions e)"
    by (simp add: sorted_wrt_map)
  show "mset (Suggestions e) =
     mset (analyzeWhitelist (le_records e)) + mset (analyzeBlocklist (le_records e)) +
     mset (analyzeRate (le_records e))"
    by (simp add: Suggestions_def Let_def analyzeWhitelist_def path_groups_def group_by_def
        analyzeBlocklist_def analyzeRate_def ip_counts_def)
qed

text \<open>A confidence above one: fifty records of a single address.\<close>

lemma rate_confidence_exceeds_one:
  "map sg_confidence (analyzeRate (replicate 50 (empty_record\<lparr>lr_remote_ip := ''10.0.0.9''\<rparr>))) = [5]"
  by code_simp

section \<open>Data set\<close>

record dataset_record =
  ds_uri :: string
  ds_method :: string
  ds_host :: string
  ds_remote_ip :: string
  ds_content_type :: string
  ds_uri_length :: nat
  ds_body_length :: nat
  ds_has_query :: bool
  ds_query_params :: nat
  ds_label :: string
  ds_rule_id :: string
  ds_reason :: string
  ds_timestamp :: string

definition dataset_entry :: "(int \<Rightarrow> string) \<Rightarrow> learn_record \<Rightarrow> dataset_record" where
  "dataset_entry rfc3339 r =
     (let entry =
        \<lparr>ds_uri = lr_path r, ds_method = lr_method r, ds_host = lr_host r, ds_remote_ip = lr_remote_ip r,
         ds_content_type = lr_content_type r, ds_uri_length = length (lr_path r),
         ds_body_length = length (lr_body_snippet r), ds_has_query = str_contains (lr_path r) ''?'',
         ds_query_params = count_byte (lr_path r) (CHR ''&'') + 1, ds_label = verdict_string (lr_verdict r),
         ds_rule_id = lr_rule_id r, ds_reason = lr_reason r, ds_timestamp = rfc3339 (lr_timestamp r)\<rparr>
      in if ds_has_query entry \<and> \<not> str_contains (lr_path r) ''=''
         then entry\<lparr>ds_query_params := 0\<rparr> else entry)"

definition ExportDataset :: "(int \<Rightarrow> string) \<Rightarrow> learn_engine \<Rightarrow> dataset_record list" where
  "ExportDataset rfc3339 e = map (dataset_entry rfc3339) (le_records e)"

text \<open>A path without a query counts one parameter.\<close>

lemma dataset_no_query:
  "\<not> str_contains (lr_path r) ''?'' \<Longrightarrow> CHR ''&'' \<notin> set (lr_path r) \<Longrightarrow>
   ds_query_params (dataset_entry f r) = 1"
  by (auto simp: dataset_entry_def Let_def count_byte_def filter_empty_conv)

end
