(* ===== verification/GoDyn.thy ===== *)
theory GoDyn
  imports GoFloat GoStrings
begin

text \<open>
  The dynamic values of \<^verbatim>\<open>interface{}\<close> that the JSON and YAML decoders produce and that the
  plugins and the configuration handlers take apart by type assertion. A Go map is an
  association list whose first entry for a key counts.
\<close>

datatype dyn =
  DNull | DBool bool | DInt int | DNum float64 | DStr string
| DList "dyn list" | DMap "(string \<times> dyn) list"

text \<open>The type assertions \<^verbatim>\<open>v.(T)\<close> in their two-value form.\<close>

fun as_bool :: "dyn \<Rightarrow> bool option" where
  "as_bool (DBool b) = Some b" | "as_bool _ = None"

fun as_int :: "dyn \<Rightarrow> int option" where
  "as_int (DInt n) = Some n" | "as_int _ = None"

fun as_string :: "dyn \<Rightarrow> string option" where
  "as_string (DStr s) = Some s" | "as_string _ = None"

fun as_list :: "dyn \<Rightarrow> dyn list option" where
  "as_list (DList xs) = Some xs" | "as_list _ = None"

fun as_map :: "dyn \<Rightarrow> (string \<times> dyn) list option" where
  "as_map (DMap m) = Some m" | "as_map _ = None"

text \<open>A missing key of a map of dynamic values reads as nil, of which every assertion fails.\<close>

definition dyn_get :: "(string \<times> dyn) list \<Rightarrow> string \<Rightarrow> dyn" where
  "dyn_get m k = (case map_of m k of None \<Rightarrow> DNull | Some v \<Rightarrow> v)"

definition dyn_set :: "string \<Rightarrow> dyn \<Rightarrow> (string \<times> dyn) list \<Rightarrow> (string \<times> dyn) list" where
  "dyn_set k v m = (if map_of m k = None then m @ [(k, v)] else map (\<lambda>(k', v'). if k' = k then (k, v) else (k', v')) m)"

lemma map_of_dyn_set [simp]: "map_of (dyn_set k v m) = (map_of m)(k \<mapsto> v)"
proof -
  have upd: "map_of (map (\<lambda>(k', v'). if k' = k then (k, v) else (k', v')) m) =
      (if map_of m k = None then map_of m else (map_of m)(k \<mapsto> v))"
    by (induction m) (auto simp: fun_eq_iff)
  show ?thesis
  proof (cases "map_of m k")
    case None
    then have "map_of (m @ [(k, v)]) = (map_of m)(k \<mapsto> v)"
      by (auto simp: fun_eq_iff map_add_def split: option.splits)
    with None show ?thesis by (simp add: dyn_set_def)
  next
    case (Some x)
    with upd show ?thesis by (simp add: dyn_set_def)
  qed
qed

end
