(* ===== verification/GoHttp.thy ===== *)
theory GoHttp
  imports GoDyn
begin

text \<open>
  Go's \<^verbatim>\<open>net/http\<close> as the handlers use it: header maps with canonical keys, the request a
  handler reads, the response writer it fills. A body is kept as the pieces that were
  written, raw bytes or the value given to the JSON encoder.
\<close>

type_synonym header = "string \<Rightarrow> string list option"

text \<open>\<^verbatim>\<open>CanonicalMIMEHeaderKey\<close> for a key of letters, digits and hyphens.\<close>

fun canonical_from :: "bool \<Rightarrow> string \<Rightarrow> string" where
  "canonical_from up [] = []"
| "canonical_from up (c # s) =
     (if up then ascii_upper c else ascii_lower c) # canonical_from (c = CHR ''-'') s"

definition canonical_key :: "string \<Rightarrow> string" where
  "canonical_key s = canonical_from True s"

definition header_get :: "header \<Rightarrow> string \<Rightarrow> string" where
  "header_get h k = (case h (canonical_key k) of Some (v # _) \<Rightarrow> v | _ \<Rightarrow> [])"

definition header_set :: "string \<Rightarrow> string \<Rightarrow> header \<Rightarrow> header" where
  "header_set k v h = h(canonical_key k \<mapsto> [v])"

definition header_add :: "string \<Rightarrow> string \<Rightarrow> header \<Rightarrow> header" where
  "header_add k v h =
     h(canonical_key k \<mapsto> (case h (canonical_key k) of None \<Rightarrow> [v] | Some vs \<Rightarrow> vs @ [v]))"

text \<open>A request header map with the given fields, as a test client builds it.\<close>

definition header_of :: "(string \<times> string) list \<Rightarrow> header" where
  "header_of kvs = fold (\<lambda>(k, v). header_set k v) kvs Map.empty"

record http_request =
  rq_method :: string
  rq_path :: string
  rq_query :: "(string \<times> string) list"
  rq_host :: string
  rq_headers :: header
  rq_remote_addr :: string
  rq_content_length :: int
  rq_body :: string

text \<open>\<^verbatim>\<open>r.URL.Query().Get(k)\<close>, with \<^verbatim>\<open>rq_query\<close> the decoded pairs.\<close>

definition query_get :: "http_request \<Rightarrow> string \<Rightarrow> string" where
  "query_get r k = (case map_of (rq_query r) k of None \<Rightarrow> [] | Some v \<Rightarrow> v)"

datatype piece = Raw string | Json dyn

record response =
  rs_header :: header
  rs_status :: "nat option"
  rs_sent :: header
  rs_body :: "piece list"

definition new_response :: response where
  "new_response = \<lparr>rs_header = Map.empty, rs_status = None, rs_sent = Map.empty, rs_body = []\<rparr>"

text \<open>
  The first \<^verbatim>\<open>WriteHeader\<close> fixes the status and the headers that are sent; a later one is
  ignored by the server. \<^verbatim>\<open>Write\<close> without a status sends 200 first.
\<close>

definition write_header :: "nat \<Rightarrow> response \<Rightarrow> response" where
  "write_header code w =
     (if rs_status w = None then w\<lparr>rs_status := Some code, rs_sent := rs_header w\<rparr> else w)"

definition write_piece :: "piece \<Rightarrow> response \<Rightarrow> response" where
  "write_piece b w = (let w' = write_header 200 w in w'\<lparr>rs_body := rs_body w' @ [b]\<rparr>)"

definition set_header :: "string \<Rightarrow> string \<Rightarrow> response \<Rightarrow> response" where
  "set_header k v w = w\<lparr>rs_header := header_set k v (rs_header w)\<rparr>"

definition add_header :: "string \<Rightarrow> string \<Rightarrow> response \<Rightarrow> response" where
  "add_header k v w = w\<lparr>rs_header := header_add k v (rs_header w)\<rparr>"

text \<open>What the client receives.\<close>

definition sent_status :: "response \<Rightarrow> nat" where
  "sent_status w = (case rs_status w of None \<Rightarrow> 200 | Some c \<Rightarrow> c)"

definition sent_header :: "response \<Rightarrow> string \<Rightarrow> string" where
  "sent_header w k = header_get (case rs_status w of None \<Rightarrow> rs_header w | Some _ \<Rightarrow> rs_sent w) k"

lemmas http_ops [go_simps] =
  new_response_def write_header_def write_piece_def set_header_def add_header_def
  sent_status_def sent_header_def header_set_def header_get_def header_add_def Let_def

lemma write_header_status [simp]:
  "rs_status (write_header c w) = Some (case rs_status w of None \<Rightarrow> c | Some d \<Rightarrow> d)"
  by (simp add: write_header_def split: option.splits)

lemma set_header_status [simp]: "rs_status (set_header k v w) = rs_status w"
  by (simp add: set_header_def)

lemma write_piece_status [simp]:
  "rs_status (write_piece b w) = Some (case rs_status w of None \<Rightarrow> 200 | Some d \<Rightarrow> d)"
  by (simp add: write_piece_def Let_def)

section \<open>JSON answers\<close>

definition json_array :: "('a \<Rightarrow> dyn) \<Rightarrow> 'a list \<Rightarrow> dyn" where
  "json_array f xs = (if xs = [] then DNull else DList (map f xs))"

definition omit_string :: "string \<Rightarrow> string \<Rightarrow> (string \<times> dyn) list" where
  "omit_string k v = (if v = [] then [] else [(k, DStr v)])"

definition omit_strings :: "string \<Rightarrow> string list \<Rightarrow> (string \<times> dyn) list" where
  "omit_strings k vs = (if vs = [] then [] else [(k, DList (map DStr vs))])"

definition send_json :: "nat \<Rightarrow> dyn \<Rightarrow> response \<Rightarrow> response" where
  "send_json code v w =
     write_piece (Json v) (write_header code (set_header ''Content-Type'' ''application/json'' w))"

text \<open>\<^verbatim>\<open>http.Error\<close> and \<^verbatim>\<open>http.NotFound\<close>.\<close>

definition http_error :: "string \<Rightarrow> nat \<Rightarrow> response \<Rightarrow> response" where
  "http_error msg code w =
     write_piece (Raw (msg @ [CHR 0x0A]))
       (write_header code (set_header ''X-Content-Type-Options'' ''nosniff''
         (set_header ''Content-Type'' ''text/plain; charset=utf-8'' w)))"

definition http_not_found :: "response \<Rightarrow> response" where
  "http_not_found w = http_error ''404 page not found'' 404 w"

lemma http_error_status [simp]: "rs_status (http_error m c w) = Some (case rs_status w of None \<Rightarrow> c | Some d \<Rightarrow> d)"
  by (simp add: http_error_def split: option.split)

end
