(* ===== verification/Events.thy ===== *)
theory Events
  imports GoHttp "HOL-Library.Sublist"
begin

text \<open>
  \<^verbatim>\<open>internal/events\<close>: validation of events, the publisher that posts them to the
  management API and the broker that fans them out to its subscribers. A subscriber is a
  channel of 64 slots, named by a number in the order of creation; what the JSON encoder
  makes of an event is the event itself here. A run-time panic (closing a closed channel,
  sending on a closed one) is \<^verbatim>\<open>None\<close>.
\<close>

section \<open>Events\<close>

datatype event_type = TypeBlocked | TypeAllowed | TypeStats | TypeSuggestion | TypeOther string

fun event_type_string :: "event_type \<Rightarrow> string" where
  "event_type_string TypeBlocked = ''blocked''"
| "event_type_string TypeAllowed = ''allowed''"
| "event_type_string TypeStats = ''stats''"
| "event_type_string TypeSuggestion = ''suggestion''"
| "event_type_string (TypeOther s) = s"

definition event_type_of :: "string \<Rightarrow> event_type" where
  "event_type_of s =
     (if s = ''blocked'' then TypeBlocked else if s = ''allowed'' then TypeAllowed
      else if s = ''stats'' then TypeStats else if s = ''suggestion'' then TypeSuggestion else TypeOther s)"

record waf_event =
  ev_type :: event_type
  ev_timestamp :: int
  ev_method :: string
  ev_path :: string
  ev_remote_ip :: string
  ev_rule_id :: string
  ev_reason :: string
  ev_payload :: dyn

definition MaxEventBodyBytes :: nat where "MaxEventBodyBytes = 64 * 1024"

datatype event_error = UnsupportedType event_type | FieldTooLong | MissingPathOrRule

definition Validate :: "waf_event \<Rightarrow> event_error + unit" where
  "Validate e =
     (if ev_type e \<noteq> TypeBlocked then Inl (UnsupportedType (ev_type e))
      else if 8192 < length (ev_path e) \<or> 4096 < length (ev_reason e) \<or> 256 < length (ev_rule_id e) \<or>
              256 < length (ev_remote_ip e) \<or> 32 < length (ev_method e) then Inl FieldTooLong
      else if ev_path e = [] \<or> ev_rule_id e = [] then Inl MissingPathOrRule
      else Inr ())"

lemma Validate_iff:
  "Validate e = Inr () \<longleftrightarrow>
     ev_type e = TypeBlocked \<and> length (ev_path e) \<in> {1..8192} \<and> length (ev_rule_id e) \<in> {1..256} \<and>
     length (ev_reason e) \<le> 4096 \<and> length (ev_remote_ip e) \<le> 256 \<and> length (ev_method e) \<le> 32"
  by (auto simp: Validate_def Suc_le_eq)

section \<open>Publisher\<close>

record publisher =
  pb_url :: string
  pb_token :: string
  pb_timeout :: int

definition NewPublisher :: "string \<Rightarrow> string \<Rightarrow> int \<Rightarrow> publisher" where
  "NewPublisher url token timeout =
     \<lparr>pb_url = url, pb_token = token, pb_timeout = (if timeout \<le> 0 then 200 * 10 ^ 6 else timeout)\<rparr>"

record out_request =
  or_method :: string
  or_url :: string
  or_headers :: header
  or_body :: waf_event

datatype publish_error =
  ValidatingEvent event_error | CreatingRequest string | PostingEvent string | ApiReturned nat

text \<open>
  \<^verbatim>\<open>new_request\<close> is the error of \<^verbatim>\<open>http.NewRequest\<close> for a URL, if any; \<^verbatim>\<open>client_do\<close> is the HTTP
  client: the error or the status of the answer. The result lists the requests sent.
\<close>

definition publish_event ::
    "(string \<Rightarrow> string option) \<Rightarrow> (int \<Rightarrow> out_request \<Rightarrow> string + nat) \<Rightarrow> publisher option \<Rightarrow> waf_event \<Rightarrow>
     (publish_error + unit) \<times> out_request list" where
  "publish_event new_request client_do p event =
     (case p of
        None \<Rightarrow> (Inr (), [])
      | Some p \<Rightarrow>
          if pb_url p = [] \<or> pb_token p = [] then (Inr (), [])
          else case Validate event of
            Inl e \<Rightarrow> (Inl (ValidatingEvent e), [])
          | Inr _ \<Rightarrow>
             (case new_request (pb_url p) of
                Some e \<Rightarrow> (Inl (CreatingRequest e), [])
              | None \<Rightarrow>
                  let req = \<lparr>or_method = ''POST'', or_url = pb_url p,
                        or_headers = header_set ''Content-Type'' ''application/json''
                          (header_set ''Authorization'' (''Bearer '' @ pb_token p) Map.empty),
                        or_body = event\<rparr>
                  in case client_do (pb_timeout p) req of
                       Inl e \<Rightarrow> (Inl (PostingEvent e), [req])
                     | Inr status \<Rightarrow> if status \<noteq> 202 then (Inl (ApiReturned status), [req]) else (Inr (), [req])))"

text \<open>
  a publisher sends at most one request, only for a valid event and only with a URL and a
  token, as a POST to its URL with the token as bearer; it reports success exactly when the
  request was accepted with 202 or there was nothing configured to send to.
\<close>

lemma publish_event_spec:
  "case publish_event new_request client_do p event of
     (res, []) \<Rightarrow> (res = Inr ()) = (p = None \<or> pb_url (the p) = [] \<or> pb_token (the p) = [])
   | (res, req # rest) \<Rightarrow>
       rest = [] \<and> p \<noteq> None \<and> Validate event = Inr () \<and> pb_url (the p) \<noteq> [] \<and> pb_token (the p) \<noteq> [] \<and>
       or_method req = ''POST'' \<and> or_url req = pb_url (the p) \<and> or_body req = event \<and>
       header_get (or_headers req) ''Authorization'' = ''Bearer '' @ pb_token (the p) \<and>
       (res = Inr () \<longleftrightarrow> client_do (pb_timeout (the p)) req = Inr 202)"
proof -
  have k: "canonical_key ''Authorization'' = ''Authorization''" "canonical_key ''Content-Type'' = ''Content-Type''"
    by code_simp+
  show ?thesis
    by (auto simp: publish_event_def Let_def header_get_def header_set_def k split: option.splits sum.splits list.splits)
qed

section \<open>Broker\<close>

record channel =
  cn_buf :: "waf_event list"
  cn_closed :: bool

record broker =
  br_channels :: "channel list"
  br_subscribers :: "nat list"

definition NewBroker :: broker where "NewBroker = \<lparr>br_channels = [], br_subscribers = []\<rparr>"

definition channel_slots :: nat where "channel_slots = 64"

definition Subscribe :: "broker \<Rightarrow> nat \<times> broker" where
  "Subscribe b =
     (let ch = length (br_channels b)
      in (ch, b\<lparr>br_channels := br_channels b @ [\<lparr>cn_buf = [], cn_closed = False\<rparr>],
                br_subscribers := br_subscribers b @ [ch]\<rparr>))"

text \<open>Closing a nil or a closed channel panics; a closed channel keeps what it buffered.\<close>

definition Unsubscribe :: "nat \<Rightarrow> broker \<Rightarrow> broker option" where
  "Unsubscribe ch b =
     (let b' = b\<lparr>br_subscribers := filter (\<lambda>c. c \<noteq> ch) (br_subscribers b)\<rparr>
      in if ch < length (br_channels b) \<and> \<not> cn_closed (br_channels b ! ch)
         then Some (b'\<lparr>br_channels := (br_channels b)[ch := (br_channels b ! ch)\<lparr>cn_closed := True\<rparr>]\<rparr>)
         else None)"

text \<open>The \<^verbatim>\<open>select\<close> with a default branch: send if there is room, else drop; a closed channel panics.\<close>

definition try_send :: "waf_event \<Rightarrow> channel \<Rightarrow> channel option" where
  "try_send m c =
     (if cn_closed c then None
      else if length (cn_buf c) < channel_slots then Some (c\<lparr>cn_buf := cn_buf c @ [m]\<rparr>) else Some c)"

definition send_to :: "waf_event \<Rightarrow> nat \<Rightarrow> channel list \<Rightarrow> channel list option" where
  "send_to m ch cs =
     (if ch < length cs then map_option (\<lambda>c. cs[ch := c]) (try_send m (cs ! ch)) else None)"

definition Publish :: "int \<Rightarrow> waf_event \<Rightarrow> broker \<Rightarrow> broker option" where
  "Publish now event b =
     (let data = event\<lparr>ev_timestamp := now\<rparr>
      in map_option (\<lambda>cs. b\<lparr>br_channels := cs\<rparr>) (fold_opt (send_to data) (br_subscribers b) (br_channels b)))"

text \<open>The receiver \<^verbatim>\<open>data := <-ch\<close> of a subscriber, when something is buffered.\<close>

definition receive :: "nat \<Rightarrow> broker \<Rightarrow> (waf_event \<times> broker) option" where
  "receive ch b =
     (if ch < length (br_channels b)
      then case cn_buf (br_channels b ! ch) of
             [] \<Rightarrow> None
           | m # ms \<Rightarrow> Some (m, b\<lparr>br_channels := (br_channels b)[ch := (br_channels b ! ch)\<lparr>cn_buf := ms\<rparr>]\<rparr>)
      else None)"

subsection \<open>Invariant\<close>

definition broker_inv :: "broker \<Rightarrow> bool" where
  "broker_inv b =
     (distinct (br_subscribers b) \<and>
      (\<forall>ch < length (br_channels b). ch \<in> set (br_subscribers b) \<longleftrightarrow> \<not> cn_closed (br_channels b ! ch)) \<and>
      (\<forall>ch \<in> set (br_subscribers b). ch < length (br_channels b)) \<and>
      (\<forall>c \<in> set (br_channels b). length (cn_buf c) \<le> channel_slots))"

lemma broker_inv_new [waf_inv]: "broker_inv NewBroker"
  by (simp add: broker_inv_def NewBroker_def)

lemma broker_inv_Subscribe [waf_inv]: "broker_inv b \<Longrightarrow> broker_inv (snd (Subscribe b))"
  by (auto simp: broker_inv_def Subscribe_def Let_def nth_append)

lemma broker_inv_Unsubscribe [waf_inv]: "broker_inv b \<Longrightarrow> Unsubscribe ch b = Some b' \<Longrightarrow> broker_inv b'"
  by (auto simp: broker_inv_def Unsubscribe_def Let_def nth_list_update split: if_splits
      dest!: set_update_subset_insert[THEN subsetD])

lemma broker_inv_update:
  assumes "broker_inv b" "cn_closed c = cn_closed (br_channels b ! ch)" "length (cn_buf c) \<le> channel_slots"
  shows "broker_inv (b\<lparr>br_channels := (br_channels b)[ch := c]\<rparr>)"
  using assms by (auto simp: broker_inv_def nth_update_split split: if_splits dest!: set_update_subset_insert[THEN subsetD])

lemma broker_inv_receive [waf_inv]:
  assumes "broker_inv b" "receive ch b = Some (m, b')"
  shows "broker_inv b'"
proof -
  from assms(2) obtain ms where r: "ch < length (br_channels b)" "cn_buf (br_channels b ! ch) = m # ms"
    "b' = b\<lparr>br_channels := (br_channels b)[ch := (br_channels b ! ch)\<lparr>cn_buf := ms\<rparr>]\<rparr>"
    by (auto simp: receive_def split: if_splits list.splits)
  have "length (m # ms) \<le> channel_slots" using assms(1) r(1) by (simp add: broker_inv_def flip: r(2))
  then show ?thesis unfolding r(3) by (intro broker_inv_update[OF assms(1)]) auto
qed

text \<open>The effect of a fan-out on each channel.\<close>

definition offered :: "waf_event \<Rightarrow> channel \<Rightarrow> channel" where
  "offered m c = (if length (cn_buf c) < channel_slots then c\<lparr>cn_buf := cn_buf c @ [m]\<rparr> else c)"

lemma offered_simps [simp]:
  "cn_closed (offered m c) = cn_closed c"
  "length (cn_buf c) \<le> channel_slots \<Longrightarrow> length (cn_buf (offered m c)) \<le> channel_slots"
  by (auto simp: offered_def)

lemma fan_out:
  "\<lbrakk>distinct us; \<And>u. u \<in> set us \<Longrightarrow> u < length cs \<and> \<not> cn_closed (cs ! u)\<rbrakk> \<Longrightarrow>
   fold_opt (send_to m) us cs = Some (map (\<lambda>u. if u \<in> set us then offered m (cs ! u) else cs ! u) [0..<length cs])"
proof (induction us arbitrary: cs)
  case Nil
  then show ?case by (simp add: map_nth)
next
  case (Cons u us)
  then have "send_to m u cs = Some (cs[u := offered m (cs ! u)])"
    by (simp add: send_to_def try_send_def offered_def)
  moreover have "fold_opt (send_to m) us (cs[u := offered m (cs ! u)]) =
      Some (map (\<lambda>v. if v \<in> set us then offered m (cs[u := offered m (cs ! u)] ! v) else cs[u := offered m (cs ! u)] ! v)
        [0..<length (cs[u := offered m (cs ! u)])])"
    using Cons.prems by (intro Cons.IH) (auto simp: nth_list_update)
  moreover have "u \<notin> set us" using Cons.prems by simp
  ultimately show ?case by (auto simp: nth_update_split split: if_splits)
qed

lemma Publish_total:
  assumes "broker_inv b"
  shows "Publish now e b = Some (b\<lparr>br_channels :=
     map (\<lambda>ch. if ch \<in> set (br_subscribers b) then offered (e\<lparr>ev_timestamp := now\<rparr>) (br_channels b ! ch)
               else br_channels b ! ch) [0..<length (br_channels b)]\<rparr>)"
  using assms fan_out[of "br_subscribers b" "br_channels b"]
  by (auto simp: Publish_def broker_inv_def Let_def)

lemma broker_inv_Publish [waf_inv]: "broker_inv b \<Longrightarrow> Publish now e b = Some b' \<Longrightarrow> broker_inv b'"
  by (auto simp: Publish_total broker_inv_def)

subsection \<open>Interleavings\<close>

text \<open>
  The operations of the broker run under its lock, so a concurrent execution is a sequence of
  the following steps. Every subscriber is unsubscribed by the handler that subscribed it.
\<close>

datatype broker_event = ESubscribe nat | EUnsubscribe nat | EPublish int waf_event | EReceive nat waf_event

inductive broker_step :: "broker \<Rightarrow> broker_event \<Rightarrow> broker \<Rightarrow> bool" where
  step_subscribe: "Subscribe b = (ch, b') \<Longrightarrow> broker_step b (ESubscribe ch) b'"
| step_unsubscribe: "\<lbrakk>ch \<in> set (br_subscribers b); Unsubscribe ch b = Some b'\<rbrakk> \<Longrightarrow> broker_step b (EUnsubscribe ch) b'"
| step_publish: "Publish now e b = Some b' \<Longrightarrow> broker_step b (EPublish now e) b'"
| step_receive: "receive ch b = Some (m, b') \<Longrightarrow> broker_step b (EReceive ch m) b'"

inductive_cases broker_stepE: "broker_step b e b'"

inductive_simps broker_step_simps:
  "broker_step b (ESubscribe ch) b'" "broker_step b (EUnsubscribe ch) b'"
  "broker_step b (EPublish now e) b'" "broker_step b (EReceive ch m) b'"

inductive broker_trace :: "broker \<Rightarrow> broker_event list \<Rightarrow> broker \<Rightarrow> bool" where
  trace_nil: "broker_trace b [] b"
| trace_snoc: "\<lbrakk>broker_trace b es b'; broker_step b' e b''\<rbrakk> \<Longrightarrow> broker_trace b (es @ [e]) b''"

lemma broker_inv_step: "broker_step b e b' \<Longrightarrow> broker_inv b \<Longrightarrow> broker_inv b'"
  by (erule broker_stepE) (auto intro: waf_inv dest: broker_inv_Subscribe)

lemma broker_inv_trace: "broker_trace b es b' \<Longrightarrow> broker_inv b \<Longrightarrow> broker_inv b'"
  by (induction rule: broker_trace.induct) (auto intro: broker_inv_step)

fun received :: "nat \<Rightarrow> broker_event list \<Rightarrow> waf_event list" where
  "received ch [] = []"
| "received ch (EReceive c m # es) = (if c = ch then m # received ch es else received ch es)"
| "received ch (e # es) = received ch es"

fun published :: "broker_event list \<Rightarrow> waf_event list" where
  "published [] = []"
| "published (EPublish now e # es) = e\<lparr>ev_timestamp := now\<rparr> # published es"
| "published (e # es) = published es"

lemma received_append [simp]: "received ch (es @ fs) = received ch es @ received ch fs"
  by (induction ch es rule: received.induct) auto

lemma published_append [simp]: "published (es @ fs) = published es @ published fs"
  by (induction es rule: published.induct) auto

definition buffered :: "nat \<Rightarrow> broker \<Rightarrow> waf_event list" where
  "buffered ch b = (if ch < length (br_channels b) then cn_buf (br_channels b ! ch) else [])"

lemma buffered_publish:
  assumes "broker_inv b" "Publish now e b = Some b'"
  shows "buffered ch b' = (if ch \<in> set (br_subscribers b) \<and> length (buffered ch b) < channel_slots
     then buffered ch b @ [e\<lparr>ev_timestamp := now\<rparr>] else buffered ch b)"
  using assms by (auto simp: Publish_total buffered_def offered_def broker_inv_def)

lemma subseq_received_buffered:
  assumes "broker_trace b es b'" "b = NewBroker"
  shows "subseq (received ch es @ buffered ch b') (published es)"
  using assms
proof (induction rule: broker_trace.induct)
  case (trace_nil b)
  then show ?case by (simp add: buffered_def NewBroker_def)
next
  case (trace_snoc b es b' e b'')
  have inv: "broker_inv b'" using trace_snoc by (auto intro: broker_inv_trace waf_inv)
  from trace_snoc.hyps(2) show ?case
  proof cases
    case (step_subscribe c)
    then have "buffered ch b'' = buffered ch b'"
      by (auto simp: Subscribe_def Let_def buffered_def nth_append)
    then show ?thesis using trace_snoc step_subscribe by simp
  next
    case (step_unsubscribe c)
    then have "buffered ch b'' = buffered ch b'"
      by (auto simp: Unsubscribe_def Let_def buffered_def nth_list_update split: if_splits)
    then show ?thesis using trace_snoc step_unsubscribe by simp
  next
    case (step_publish now ev)
    then show ?thesis
      using buffered_publish[OF inv step_publish(2), of ch] trace_snoc
      by (auto simp flip: append_assoc)
  next
    case (step_receive c m)
    then have "received ch [e] @ buffered ch b'' = buffered ch b'"
      by (auto simp: receive_def buffered_def nth_list_update split: if_splits list.splits)
    then show ?thesis using trace_snoc step_receive by simp
  qed
qed

text \<open>
  C29: in every interleaving of subscriptions, publications and receptions from a new broker,
  publishing never panics and never blocks, no channel holds more than 64 events, and what a
  subscriber has received and has buffered is a subsequence of what was published: events are
  never duplicated, reordered or made up.
\<close>

lemma broker_safe:
  assumes "broker_trace NewBroker es b"
  shows "Publish now e b \<noteq> None \<and> length (buffered ch b) \<le> 64 \<and>
     subseq (received ch es @ buffered ch b) (published es)"
proof -
  have inv: "broker_inv b" using assms by (auto intro: broker_inv_trace waf_inv)
  then have "length (buffered ch b) \<le> 64"
    by (auto simp: broker_inv_def buffered_def channel_slots_def)
  then show ?thesis using inv subseq_received_buffered[OF assms] by (simp add: Publish_total)
qed

definition sample_event :: waf_event where
  "sample_event =
     \<lparr>ev_type = TypeBlocked, ev_timestamp = 0, ev_method = ''GET'', ev_path = ''/login'',
      ev_remote_ip = ''10.0.0.9'', ev_rule_id = ''sqli'', ev_reason = [], ev_payload = DNull\<rparr>"

lemma sample_trace:
  "broker_trace NewBroker [ESubscribe 0, EPublish 7 sample_event]
     \<lparr>br_channels = [\<lparr>cn_buf = [sample_event\<lparr>ev_timestamp := 7\<rparr>], cn_closed = False\<rparr>], br_subscribers = [0]\<rparr>"
proof -
  define b1 where "b1 = snd (Subscribe NewBroker)"
  have "broker_step NewBroker (ESubscribe 0) b1"
    by (simp add: broker_step_simps b1_def Subscribe_def NewBroker_def)
  moreover have "broker_step b1 (EPublish 7 sample_event)
     \<lparr>br_channels = [\<lparr>cn_buf = [sample_event\<lparr>ev_timestamp := 7\<rparr>], cn_closed = False\<rparr>], br_subscribers = [0]\<rparr>"
    by (simp add: broker_step_simps b1_def Subscribe_def NewBroker_def Publish_def send_to_def try_send_def
        channel_slots_def Let_def)
  ultimately show ?thesis
    using trace_snoc[OF trace_snoc[OF trace_nil]] by fastforce
qed

lemma broker_safe_witness:
  "length (buffered 0 \<lparr>br_channels = [\<lparr>cn_buf = [sample_event\<lparr>ev_timestamp := 7\<rparr>], cn_closed = False\<rparr>], br_subscribers = [0]\<rparr>) \<le> 64"
  using broker_safe[OF sample_trace, of 9 sample_event 0] by blast

text \<open>
  on a broker in its invariant, a publication adds the stamped event at the end of every
  subscriber's channel that has room and changes nothing else; a full channel drops it without
  affecting the others.
\<close>

lemma Publish_fan_out:
  assumes "broker_inv b"
  shows "\<exists>b'. Publish now e b = Some b' \<and> br_subscribers b' = br_subscribers b \<and>
     (\<forall>ch. buffered ch b' = (if ch \<in> set (br_subscribers b) \<and> length (buffered ch b) < 64
        then buffered ch b @ [e\<lparr>ev_timestamp := now\<rparr>] else buffered ch b))"
proof -
  obtain b' where b': "Publish now e b = Some b'" using Publish_total[OF assms] by blast
  moreover have "br_subscribers b' = br_subscribers b" using b' by (auto simp: Publish_total[OF assms])
  ultimately show ?thesis using buffered_publish[OF assms b'] by (simp add: channel_slots_def)
qed

lemma Publish_fan_out_witness:
  "\<exists>b'. Publish 7 sample_event (snd (Subscribe NewBroker)) = Some b' \<and>
     buffered 0 b' = [sample_event\<lparr>ev_timestamp := 7\<rparr>]"
proof -
  define b where "b = snd (Subscribe NewBroker)"
  have "broker_inv b" unfolding b_def by (intro waf_inv)
  then obtain b' where "Publish 7 sample_event b = Some b'"
    "buffered 0 b' = (if 0 \<in> set (br_subscribers b) \<and> length (buffered 0 b) < 64
        then buffered 0 b @ [sample_event\<lparr>ev_timestamp := 7\<rparr>] else buffered 0 b)"
    using Publish_fan_out[of b 7 sample_event] by blast
  then show ?thesis by (simp add: b_def Subscribe_def NewBroker_def buffered_def)
qed

text \<open>Unsubscribing the same channel twice panics, which the step relation excludes.\<close>

lemma Unsubscribe_twice: "Unsubscribe ch b = Some b' \<Longrightarrow> Unsubscribe ch b' = None"
  by (auto simp: Unsubscribe_def Let_def split: if_splits)

end
