(* ===== verification/GoJson.thy ===== *)
theory GoJson
  imports GoDyn
begin

text \<open>
  The decoder of Go's \<^verbatim>\<open>encoding/json\<close>: a tokenizer and a stack machine that builds the
  dynamic value, objects as the pairs of their members in the order of the text. Decoding into
  a struct goes through the members in order, matches names up to case, takes \<^verbatim>\<open>null\<close> as no change
  of a string or number and as nil of a map or slice, and records a type mismatch as an error.
\<close>

section \<open>Strings\<close>

definition hex4 :: "char \<Rightarrow> char \<Rightarrow> char \<Rightarrow> char \<Rightarrow> nat option" where
  "hex4 a b c d =
     (if list_all is_hex_digit [a, b, c, d]
      then Some (4096 * unhex a + 256 * unhex b + 16 * unhex c + unhex d) else None)"

definition simple_escape :: "char \<Rightarrow> char option" where
  "simple_escape c =
     (if c \<in> {CHR 0x22, CHR 0x5C, CHR ''/''} then Some c
      else if c = CHR ''b'' then Some (CHR 0x08) else if c = CHR ''f'' then Some (CHR 0x0C)
      else if c = CHR ''n'' then Some (CHR 0x0A) else if c = CHR ''r'' then Some (CHR 0x0D)
      else if c = CHR ''t'' then Some (CHR 0x09) else None)"

text \<open>The second half of a surrogate pair, when the text goes on with one.\<close>

definition low_surrogate :: "string \<Rightarrow> (nat \<times> string) option" where
  "low_surrogate s =
     (case s of
        e # u # a # b # c # d # t \<Rightarrow>
          if e = CHR 0x5C \<and> u = CHR ''u''
          then (case hex4 a b c d of
                  Some l \<Rightarrow> if 0xDC00 \<le> l \<and> l \<le> 0xDFFF then Some (l, t) else None
                | None \<Rightarrow> None)
          else None
      | _ \<Rightarrow> None)"

lemma low_surrogate_length: "low_surrogate s = Some (l, t) \<Longrightarrow> length t < length s"
  by (auto simp: low_surrogate_def split: list.splits option.splits if_splits)

text \<open>From behind the opening quote: the unescaped text and what follows the closing quote.\<close>

function lex_string :: "string \<Rightarrow> (string \<times> string) option" where
  "lex_string [] = None"
| "lex_string (c # s) =
     (if c = CHR 0x22 then Some ([], s)
      else if byte c < 32 then None
      else if c \<noteq> CHR 0x5C then map_option (\<lambda>(w, t). (c # w, t)) (lex_string s)
      else case s of
        [] \<Rightarrow> None
      | e # s' \<Rightarrow>
          if e \<noteq> CHR ''u''
          then (case simple_escape e of
                  None \<Rightarrow> None
                | Some x \<Rightarrow> map_option (\<lambda>(w, t). (x # w, t)) (lex_string s'))
          else (case s' of
                  a # b # c # d # t \<Rightarrow>
                    (case hex4 a b c d of
                       None \<Rightarrow> None
                     | Some h \<Rightarrow>
                         if 0xD800 \<le> h \<and> h \<le> 0xDBFF
                         then (case low_surrogate t of
                                 Some (l, t') \<Rightarrow>
                                   map_option (\<lambda>(w, u). (encode_rune (0x10000 + (h - 0xD800) * 1024 + (l - 0xDC00)) @ w, u))
                                     (lex_string t')
                               | None \<Rightarrow> map_option (\<lambda>(w, u). (encode_rune 0xFFFD @ w, u)) (lex_string t))
                         else if 0xDC00 \<le> h \<and> h \<le> 0xDFFF
                         then map_option (\<lambda>(w, u). (encode_rune 0xFFFD @ w, u)) (lex_string t)
                         else map_option (\<lambda>(w, u). (encode_rune h @ w, u)) (lex_string t))
                | _ \<Rightarrow> None))"
  by pat_completeness auto
termination
  by (relation "measure length") (auto dest: low_surrogate_length)

declare lex_string.simps [simp del]

lemma lex_string_length: "lex_string s = Some (w, t) \<Longrightarrow> length t < length s"
proof (induction s arbitrary: w t rule: length_induct)
  case (1 s)
  have ih: "lex_string u = Some (w', t') \<Longrightarrow> length u < length s \<longrightarrow> length t' < length u" for u w' t'
    using 1(1) by blast
  show ?case
  proof (cases s)
    case Nil
    then show ?thesis using 1(2) by (simp add: lex_string.simps)
  next
    case (Cons c u)
    show ?thesis using 1(2)[unfolded Cons lex_string.simps] unfolding Cons
      by (auto simp: Cons split: if_splits list.splits option.splits dest!: ih low_surrogate_length)
  qed
qed

text \<open>Invalid UTF-8 in a string becomes U+FFFD.\<close>

definition valid_utf8 :: "string \<Rightarrow> string" where
  "valid_utf8 s = (if ascii s then s else concat (map encode_rune (runes s)))"

section \<open>Numbers\<close>

definition is_number_byte :: "char \<Rightarrow> bool" where
  "is_number_byte c = (is_digit c \<or> c \<in> {CHR ''+'', CHR ''-'', CHR ''.'', CHR ''e'', CHR ''E''})"

text \<open>The grammar \<^verbatim>\<open>-? (0 | [1-9][0-9]*) ('.' [0-9]+)? ([eE] [+-]? [0-9]+)?\<close> and its value.\<close>

definition split_digits :: "string \<Rightarrow> string \<times> string" where
  "split_digits s = (takeWhile is_digit s, dropWhile is_digit s)"

definition number_fraction :: "string \<Rightarrow> (string \<times> string) option" where
  "number_fraction s =
     (case s of
        c # t \<Rightarrow> if c = CHR ''.''
                 then (case split_digits t of (ds, u) \<Rightarrow> if ds = [] then None else Some (ds, u))
                 else Some ([], s)
      | [] \<Rightarrow> Some ([], []))"

definition number_exponent :: "string \<Rightarrow> int option" where
  "number_exponent s =
     (case s of
        [] \<Rightarrow> Some 0
      | c # t \<Rightarrow>
          if c = CHR ''e'' \<or> c = CHR ''E''
          then let neg = (case t of x # _ \<Rightarrow> x = CHR ''-'' | [] \<Rightarrow> False);
                   ds = (case t of x # u \<Rightarrow> if x = CHR ''-'' \<or> x = CHR ''+'' then u else t | [] \<Rightarrow> [])
               in if ds \<noteq> [] \<and> list_all is_digit ds
                  then Some (if neg then - int (digits_value ds) else int (digits_value ds)) else None
          else None)"

definition parse_number :: "string \<Rightarrow> rat option" where
  "parse_number s =
     (let neg = (case s of c # _ \<Rightarrow> c = CHR ''-'' | [] \<Rightarrow> False);
          (ds, t) = split_digits (if neg then drop 1 s else s)
      in if ds = [] \<or> (1 < length ds \<and> hd ds = CHR ''0'') then None
         else case number_fraction t of
           None \<Rightarrow> None
         | Some (fs, u) \<Rightarrow>
            (case number_exponent u of
               None \<Rightarrow> None
             | Some e \<Rightarrow>
                 let v = of_nat (digits_value (ds @ fs)) * 10 powi (e - int (length fs))
                 in Some (if neg then - v else v)))"

section \<open>Tokens\<close>

datatype jtok = TOpenO | TCloseO | TOpenA | TCloseA | TColon | TComma | TStr string | TVal dyn | TBad

text \<open>The largest finite \<^verbatim>\<open>float64\<close>; a larger number does not decode.\<close>

definition max_float :: rat where "max_float = (2 - 2 powi (- 52)) * 2 powi 1023"

text \<open>
  A literal without fraction and exponent is kept as an integer, because only such a literal
  decodes into a Go integer.
\<close>

definition is_int_literal :: "string \<Rightarrow> bool" where
  "is_int_literal s = list_all (\<lambda>c. is_digit c \<or> c = CHR ''-'') s"

definition number_token :: "string \<Rightarrow> jtok" where
  "number_token s =
     (case parse_number s of
        None \<Rightarrow> TBad
      | Some q \<Rightarrow> if max_float < \<bar>fl q\<bar> then TBad
                  else if is_int_literal s then TVal (DInt \<lfloor>q\<rfloor>) else TVal (DNum (fl q)))"

function json_tokens :: "string \<Rightarrow> jtok list" where
  "json_tokens [] = []"
| "json_tokens (c # s) =
     (if c \<in> {CHR 0x20, CHR 0x09, CHR 0x0A, CHR 0x0D} then json_tokens s
      else if c = CHR ''{'' then TOpenO # json_tokens s
      else if c = CHR ''}'' then TCloseO # json_tokens s
      else if c = CHR ''['' then TOpenA # json_tokens s
      else if c = CHR '']'' then TCloseA # json_tokens s
      else if c = CHR '':'' then TColon # json_tokens s
      else if c = CHR '','' then TComma # json_tokens s
      else if c = CHR 0x22
      then (case lex_string s of None \<Rightarrow> [TBad] | Some (w, t) \<Rightarrow> TStr (valid_utf8 w) # json_tokens t)
      else if has_prefix (c # s) ''true'' then TVal (DBool True) # json_tokens (drop 3 s)
      else if has_prefix (c # s) ''false'' then TVal (DBool False) # json_tokens (drop 4 s)
      else if has_prefix (c # s) ''null'' then TVal DNull # json_tokens (drop 3 s)
      else if is_number_byte c
      then number_token (takeWhile is_number_byte (c # s)) # json_tokens (dropWhile is_number_byte s)
      else [TBad])"
  by pat_completeness auto
termination
  by (relation "measure length") (auto dest: lex_string_length simp: length_dropWhile_le le_imp_less_Suc)

declare json_tokens.simps(2) [simp del]

section \<open>Values\<close>

datatype jframe = FArr "dyn list" | FObj "(string \<times> dyn) list" | FKey "(string \<times> dyn) list" string

datatype jmode = MValue | MFirst | MAfter | MKey | MFirstKey | MColon string

text \<open>
  The machine: what may come next, the open arrays and objects, the tokens. It stops at the
  end of the first value and returns it with the tokens behind it.
\<close>

definition with_value :: "dyn \<Rightarrow> jframe list \<Rightarrow> (jframe list) option" where
  "with_value v st =
     (case st of
        FArr vs # st' \<Rightarrow> Some (FArr (vs @ [v]) # st')
      | FKey ps k # st' \<Rightarrow> Some (FObj (ps @ [(k, v)]) # st')
      | _ \<Rightarrow> None)"

fun json_run :: "jmode \<Rightarrow> jframe list \<Rightarrow> jtok list \<Rightarrow> (dyn \<times> jtok list) option" where
  "json_run m st [] = None"
| "json_run (MColon k) st (t # ts) =
     (case (t, st) of (TColon, FObj ps # st') \<Rightarrow> json_run MValue (FKey ps k # st') ts | _ \<Rightarrow> None)"
| "json_run MKey st (t # ts) = (case t of TStr k \<Rightarrow> json_run (MColon k) st ts | _ \<Rightarrow> None)"
| "json_run m st (t # ts) =
     (let done = (\<lambda>v st. if st = [] then Some (v, ts)
                         else case with_value v st of None \<Rightarrow> None | Some st' \<Rightarrow> json_run MAfter st' ts)
      in if m = MAfter then
           (case (t, st) of
              (TComma, FArr vs # _) \<Rightarrow> json_run MValue st ts
            | (TComma, FObj ps # _) \<Rightarrow> json_run MKey st ts
            | (TCloseA, FArr vs # st') \<Rightarrow> done (DList vs) st'
            | (TCloseO, FObj ps # st') \<Rightarrow> done (DMap ps) st'
            | _ \<Rightarrow> None)
         else if m = MFirstKey then
           (case (t, st) of
              (TStr k, _) \<Rightarrow> json_run (MColon k) st ts
            | (TCloseO, FObj ps # st') \<Rightarrow> done (DMap ps) st'
            | _ \<Rightarrow> None)
         else
           (case t of
              TStr s \<Rightarrow> done (DStr s) st
            | TVal v \<Rightarrow> done v st
            | TOpenA \<Rightarrow> json_run MFirst (FArr [] # st) ts
            | TOpenO \<Rightarrow> json_run MFirstKey (FObj [] # st) ts
            | TCloseA \<Rightarrow> (case (m, st) of (MFirst, FArr vs # st') \<Rightarrow> done (DList vs) st' | _ \<Rightarrow> None)
            | _ \<Rightarrow> None))"

text \<open>\<^verbatim>\<open>Decoder.Decode\<close>: at the end of the input, an error, or a value and the rest.\<close>

datatype 'a decoded = EOF | DecodeError | Decoded 'a "jtok list"

definition decode_value :: "jtok list \<Rightarrow> dyn decoded" where
  "decode_value ts =
     (if ts = [] then EOF
      else case json_run MValue [] ts of None \<Rightarrow> DecodeError | Some (v, ts') \<Rightarrow> Decoded v ts')"

text \<open>\<^verbatim>\<open>json.Unmarshal\<close> wants exactly one value.\<close>

definition json_parse :: "string \<Rightarrow> dyn option" where
  "json_parse s = (case json_run MValue [] (json_tokens s) of Some (v, []) \<Rightarrow> Some v | _ \<Rightarrow> None)"

text \<open>\<^verbatim>\<open>json.NewDecoder(r.Body).Decode(&x)\<close>: the first value of the body.\<close>

definition decode_first :: "(dyn \<Rightarrow> 'a option) \<Rightarrow> string \<Rightarrow> 'a option" where
  "decode_first conv body =
     (case decode_value (json_tokens body) of Decoded v rest \<Rightarrow> conv v | _ \<Rightarrow> None)"

section \<open>Struct fields\<close>

text \<open>
  Names are compared after simple case folding; besides the ASCII letters only U+212A and
  U+017F fold to a letter of an ASCII field name.
\<close>

fun fold_name :: "string \<Rightarrow> string" where
  "fold_name (a # b # c # s) =
     (if [a, b, c] = [CHR 0xE2, CHR 0x84, CHR 0xAA] then CHR ''k'' # fold_name s
      else if [a, b] = [CHR 0xC5, CHR 0xBF] then CHR ''s'' # fold_name (c # s)
      else ascii_lower a # fold_name (b # c # s))"
| "fold_name [a, b] = (if [a, b] = [CHR 0xC5, CHR 0xBF] then ''s'' else [ascii_lower a, ascii_lower b])"
| "fold_name [a] = [ascii_lower a]"
| "fold_name [] = []"

text \<open>One field: its value after the members, and whether all of them had its type.\<close>

definition field ::
    "(dyn \<Rightarrow> 'a \<Rightarrow> 'a option) \<Rightarrow> string \<Rightarrow> 'a \<Rightarrow> (string \<times> dyn) list \<Rightarrow> 'a \<times> bool" where
  "field conv name d ps =
     fold (\<lambda>(k, v) (x, good).
       if fold_name k = fold_name name
       then (case conv v x of Some y \<Rightarrow> (y, good) | None \<Rightarrow> (x, False))
       else (x, good)) ps (d, True)"

fun conv_string :: "dyn \<Rightarrow> string \<Rightarrow> string option" where
  "conv_string (DStr s) _ = Some s" | "conv_string DNull x = Some x" | "conv_string _ _ = None"

fun conv_float :: "dyn \<Rightarrow> float64 \<Rightarrow> float64 option" where
  "conv_float (DNum q) _ = Some q" | "conv_float (DInt n) _ = Some (float_of_int n)" | "conv_float DNull x = Some x" | "conv_float _ _ = None"

fun conv_int :: "dyn \<Rightarrow> int \<Rightarrow> int option" where
  "conv_int (DInt n) _ = (if - (2 ^ 63) \<le> n \<and> n < 2 ^ 63 then Some n else None)"
| "conv_int DNull x = Some x" | "conv_int _ _ = None"

fun conv_bool :: "dyn \<Rightarrow> bool \<Rightarrow> bool option" where
  "conv_bool (DBool b) _ = Some b" | "conv_bool DNull x = Some x" | "conv_bool _ _ = None"

text \<open>The value of an \<^verbatim>\<open>interface{}\<close>: every number is a \<^verbatim>\<open>float64\<close>.\<close>

fun generic :: "dyn \<Rightarrow> dyn" where
  "generic (DInt n) = DNum (float_of_int n)"
| "generic (DList vs) = DList (map generic vs)"
| "generic (DMap ps) = DMap (fold (\<lambda>(k, v). dyn_set k v) (map (\<lambda>(k, v). (k, generic v)) ps) [])"
| "generic v = v"

fun conv_map :: "dyn \<Rightarrow> (string \<times> dyn) list \<Rightarrow> (string \<times> dyn) list option" where
  "conv_map (DMap ps) m = Some (fold (\<lambda>(k, v). dyn_set k (generic v)) ps m)" | "conv_map DNull _ = Some []" | "conv_map _ _ = None"

fun string_items :: "dyn list \<Rightarrow> string list option" where
  "string_items [] = Some []"
| "string_items (DStr s # vs) = map_option ((#) s) (string_items vs)"
| "string_items (DNull # vs) = map_option ((#) []) (string_items vs)"
| "string_items (_ # vs) = None"

fun conv_strings :: "dyn \<Rightarrow> string list \<Rightarrow> string list option" where
  "conv_strings (DList vs) _ = string_items vs" | "conv_strings DNull _ = Some []" | "conv_strings _ _ = None"

end
