(* ===== verification/RateLimit.thy ===== *)
theory RateLimit
  imports Interfaces GoFloat GoStrings
begin

text \<open>
  \<^verbatim>\<open>internal/ratelimit\<close>: the token-bucket limiter in memory and the fixed-window limiter
  over Redis. Times are nanoseconds; the readings of the clock and the Redis client are
  arguments.
\<close>

section \<open>Durations\<close>

text \<open>Division of Go's signed integers truncates towards zero.\<close>

definition quot :: "int \<Rightarrow> int \<Rightarrow> int" where
  "quot a b = (if (a < 0) = (b < 0) then \<bar>a\<bar> div \<bar>b\<bar> else - (\<bar>a\<bar> div \<bar>b\<bar>))"

definition rem :: "int \<Rightarrow> int \<Rightarrow> int" where
  "rem a b = a - b * quot a b"

lemma quot_nonneg [simp]: "0 \<le> a \<Longrightarrow> 0 < b \<Longrightarrow> quot a b = a div b"
  by (simp add: quot_def)

lemma rem_nonneg [simp]: "0 \<le> a \<Longrightarrow> 0 < b \<Longrightarrow> rem a b = a mod b"
  by (simp add: rem_def minus_mult_div_eq_mod)

abbreviation second :: int where "second \<equiv> 10 ^ 9"
abbreviation minute :: int where "minute \<equiv> 60 * second"

text \<open>\<^verbatim>\<open>t.Sub(u)\<close> saturates at the bounds of \<^verbatim>\<open>int64\<close>; \<^verbatim>\<open>d.Seconds()\<close>.\<close>

definition time_sub :: "int \<Rightarrow> int \<Rightarrow> int" where
  "time_sub t u = max (- (2 ^ 63)) (min (2 ^ 63 - 1) (t - u))"

definition seconds :: "int \<Rightarrow> float64" where
  "seconds d = fadd (float_of_int (quot d second)) (fdiv (float_of_int (rem d second)) (fl (10 ^ 9)))"

lemma time_sub_self [simp]: "time_sub t t = 0"
  by (simp add: time_sub_def)

lemma time_sub_nonneg: "u \<le> t \<Longrightarrow> 0 \<le> time_sub t u"
  by (simp add: time_sub_def)

lemma seconds_0 [simp]: "seconds 0 = 0"
  by (simp add: seconds_def float_ops)

lemma seconds_nonneg: "0 \<le> d \<Longrightarrow> 0 \<le> seconds d"
  by (simp add: seconds_def float_ops pos_imp_zdiv_nonneg_iff)

lemma seconds_pos:
  assumes "0 < d" shows "0 < seconds d"
proof (cases "d < second")
  case True
  then have "seconds d = fl (fl (fl (of_int d) / fl (10 ^ 9)))"
    using assms by (simp add: seconds_def float_ops)
  moreover have "0 < fl (of_int d)" "0 < fl (10 ^ 9)" using assms by (simp_all add: fl_pos_pos)
  ultimately show ?thesis by (simp add: fl_pos_pos)
next
  case False
  then have "1 \<le> d div second" by (simp add: int_one_le_iff_zero_less pos_imp_zdiv_pos_iff)
  then have "0 < fl (of_int (d div second))" by (intro fl_pos_pos) simp
  moreover have "0 \<le> fl (fl (of_int (d mod second)) / fl (10 ^ 9))" by simp
  ultimately have "0 < fl (of_int (d div second)) + fl (fl (of_int (d mod second)) / fl (10 ^ 9))" by linarith
  then show ?thesis using assms by (simp add: seconds_def float_ops fl_pos_pos)
qed

section \<open>Limiter in memory\<close>

record bucket =
  bk_tokens :: float64
  bk_last_check :: int
  bk_last_access :: int

record memory_limiter =
  ml_buckets :: "string \<Rightarrow> bucket option"
  ml_ttl :: int
  ml_interval :: int
  ml_done :: bool

definition NewMemoryLimiter :: memory_limiter where
  "NewMemoryLimiter =
     \<lparr>ml_buckets = Map.empty, ml_ttl = 30 * minute, ml_interval = 5 * minute, ml_done = False\<rparr>"

definition cleanup :: "int \<Rightarrow> memory_limiter \<Rightarrow> memory_limiter" where
  "cleanup now m =
     m\<lparr>ml_buckets := (\<lambda>key. case ml_buckets m key of
         Some b \<Rightarrow> if ml_ttl m < time_sub now (bk_last_access b) then None else Some b
       | None \<Rightarrow> None)\<rparr>"

text \<open>Closing the limiter twice closes a closed channel and panics.\<close>

definition close_limiter :: "memory_limiter \<Rightarrow> memory_limiter option" where
  "close_limiter m = (if ml_done m then None else Some (m\<lparr>ml_done := True\<rparr>))"

text \<open>One round of the cleanup goroutine: it returns once the limiter is closed.\<close>

definition cleanup_tick :: "int \<Rightarrow> memory_limiter \<Rightarrow> memory_limiter" where
  "cleanup_tick now m = (if ml_done m then m else cleanup now m)"

text \<open>
  \<^verbatim>\<open>t1\<close> and \<^verbatim>\<open>t2\<close> are the readings for a new bucket, \<^verbatim>\<open>now\<close> the one after it. \<^verbatim>\<open>None\<close> stands
  for a window of zero seconds, where the rate is an infinity or a NaN.
\<close>

definition refill :: "int \<Rightarrow> int \<Rightarrow> int \<Rightarrow> bucket \<Rightarrow> bucket" where
  "refill limit window now b =
     (let elapsed = seconds (time_sub now (bk_last_check b));
          rate = fdiv (float_of_int limit) (seconds window);
          tokens = fadd (bk_tokens b) (fmul elapsed rate);
          tokens = (if float_of_int limit < tokens then float_of_int limit else tokens)
      in \<lparr>bk_tokens = tokens, bk_last_check = now, bk_last_access = now\<rparr>)"

definition memory_allow ::
    "string \<Rightarrow> int \<Rightarrow> int \<Rightarrow> int \<times> int \<times> int \<Rightarrow> memory_limiter \<Rightarrow> (bool \<times> memory_limiter) option" where
  "memory_allow key limit window clock m =
     (case clock of (t1, t2, now) \<Rightarrow>
        let b = (case ml_buckets m key of
                   Some b \<Rightarrow> b
                 | None \<Rightarrow> \<lparr>bk_tokens = float_of_int limit, bk_last_check = t1, bk_last_access = t2\<rparr>)
        in if seconds window = 0 then None
           else
             let b = refill limit window now b
             in if 1 \<le> bk_tokens b
                then Some (True, m\<lparr>ml_buckets := (ml_buckets m)(key \<mapsto> b\<lparr>bk_tokens := fsub (bk_tokens b) 1\<rparr>)\<rparr>)
                else Some (False, m\<lparr>ml_buckets := (ml_buckets m)(key \<mapsto> b)\<rparr>))"

subsection \<open>Invariant\<close>

definition tokens_ok :: "int \<Rightarrow> bucket \<Rightarrow> bool" where
  "tokens_ok limit b = (0 \<le> bk_tokens b \<and> bk_tokens b \<le> float_of_int limit)"

lemma refill_ok:
  assumes "tokens_ok limit b" "bk_last_check b \<le> now" "0 \<le> limit" "0 < window"
  shows "tokens_ok limit (refill limit window now b)"
proof -
  have "0 \<le> seconds (time_sub now (bk_last_check b))"
    using assms(2) by (intro seconds_nonneg time_sub_nonneg)
  moreover have "0 \<le> fdiv (float_of_int limit) (seconds window)"
    using assms(3,4) seconds_pos[of window] by (simp add: float_ops)
  ultimately have "0 \<le> fmul (seconds (time_sub now (bk_last_check b))) (fdiv (float_of_int limit) (seconds window))"
    by (simp add: fmul_def)
  then have "0 \<le> fadd (bk_tokens b) (fmul (seconds (time_sub now (bk_last_check b))) (fdiv (float_of_int limit) (seconds window)))"
    using assms(1) by (simp add: fadd_def tokens_ok_def)
  moreover have "0 \<le> float_of_int limit" using assms(3) by (simp add: float_of_int_def)
  ultimately show ?thesis by (simp add: refill_def Let_def tokens_ok_def)
qed

lemma fsub_one_bounds: "1 \<le> x \<Longrightarrow> x \<le> float_of_int n \<Longrightarrow> 0 \<le> fsub x 1 \<and> fsub x 1 \<le> float_of_int n"
proof -
  assume x: "1 \<le> x" "x \<le> float_of_int n"
  have "x - 1 \<le> fl (of_int n)" using x(2) by (simp add: float_of_int_def)
  then have "fl (x - 1) \<le> fl (of_int n)" by (rule fl_le_fl)
  then show ?thesis using x(1) by (simp add: fsub_def float_of_int_def)
qed

text \<open>
  a call of the memory limiter on a consistent bucket answers yes exactly when the refilled
  bucket holds a whole token, keeps the tokens between zero and the limit, records the access,
  and leaves the buckets of all other keys as they are.
\<close>

lemma memory_allow_spec:
  assumes "0 \<le> limit" "0 < window"
    and "\<And>b. ml_buckets m key = Some b \<Longrightarrow> tokens_ok limit b \<and> bk_last_check b \<le> now"
    and "t1 \<le> now"
  shows "\<exists>v b m'. memory_allow key limit window (t1, t2, now) m = Some (v, m') \<and>
     ml_buckets m' = (ml_buckets m)(key \<mapsto> b) \<and> tokens_ok limit b \<and>
     bk_last_check b = now \<and> bk_last_access b = now \<and>
     v = (1 \<le> bk_tokens (refill limit window now
            (case ml_buckets m key of Some b \<Rightarrow> b
             | None \<Rightarrow> \<lparr>bk_tokens = float_of_int limit, bk_last_check = t1, bk_last_access = t2\<rparr>)))"
proof -
  define b0 where "b0 = (case ml_buckets m key of Some b \<Rightarrow> b
      | None \<Rightarrow> \<lparr>bk_tokens = float_of_int limit, bk_last_check = t1, bk_last_access = t2\<rparr>)"
  have "0 \<le> float_of_int limit" using assms(1) by (simp add: float_of_int_def)
  then have b0: "tokens_ok limit b0" "bk_last_check b0 \<le> now"
    using assms(3,4) by (auto simp: b0_def tokens_ok_def split: option.splits)
  define b where "b = refill limit window now b0"
  have b: "tokens_ok limit b" unfolding b_def by (rule refill_ok[OF b0 assms(1,2)])
  have nz: "seconds window \<noteq> 0" using seconds_pos[OF assms(2)] by simp
  have t: "bk_last_check b = now" "bk_last_access b = now" by (simp_all add: b_def refill_def Let_def)
  have run: "memory_allow key limit window (t1, t2, now) m =
      (if 1 \<le> bk_tokens b
       then Some (True, m\<lparr>ml_buckets := (ml_buckets m)(key \<mapsto> b\<lparr>bk_tokens := fsub (bk_tokens b) 1\<rparr>)\<rparr>)
       else Some (False, m\<lparr>ml_buckets := (ml_buckets m)(key \<mapsto> b)\<rparr>))"
    using nz by (simp add: memory_allow_def Let_def b_def b0_def)
  define b' where "b' = (if 1 \<le> bk_tokens b then b\<lparr>bk_tokens := fsub (bk_tokens b) 1\<rparr> else b)"
  have "memory_allow key limit window (t1, t2, now) m =
      Some (1 \<le> bk_tokens b, m\<lparr>ml_buckets := (ml_buckets m)(key \<mapsto> b')\<rparr>)"
    by (simp add: run b'_def)
  moreover have "tokens_ok limit b'" "bk_last_check b' = now" "bk_last_access b' = now"
    using b t fsub_one_bounds[of "bk_tokens b" limit] by (simp_all add: b'_def tokens_ok_def)
  ultimately show ?thesis unfolding b0_def[symmetric] b_def[symmetric]
    by (intro exI[of _ "1 \<le> bk_tokens b"] exI[of _ b'] exI) (auto simp del: fun_upd_apply)
qed

lemma memory_allow_spec_witness:
  "\<exists>v m'. memory_allow ''10.0.0.9'' 5 minute (0, 0, 0) NewMemoryLimiter = Some (v, m')"
  using memory_allow_spec[of 5 minute NewMemoryLimiter "''10.0.0.9''" 0 0 0]
  by (auto simp: NewMemoryLimiter_def)

subsection \<open>Bursts\<close>

definition memory_budget :: "string \<Rightarrow> int \<Rightarrow> memory_limiter \<Rightarrow> nat" where
  "memory_budget key limit m =
     (case ml_buckets m key of None \<Rightarrow> nat limit | Some b \<Rightarrow> nat \<lfloor>bk_tokens b\<rfloor>)"

definition memory_sound :: "string \<Rightarrow> int \<Rightarrow> int \<Rightarrow> int \<Rightarrow> memory_limiter \<Rightarrow> bool" where
  "memory_sound key limit window t m =
     (0 < window \<and> 0 \<le> limit \<and> limit \<le> 2 ^ 53 \<and>
      (case ml_buckets m key of None \<Rightarrow> True
       | Some b \<Rightarrow> bk_last_check b = t \<and> (\<exists>n. 0 \<le> n \<and> n \<le> limit \<and> bk_tokens b = of_int n)))"

lemma refill_at_once:
  assumes "bk_last_check b = t" "bk_tokens b = of_int n" "0 \<le> n" "n \<le> limit" "limit \<le> 2 ^ 53"
  shows "refill limit window t b = \<lparr>bk_tokens = of_int n, bk_last_check = t, bk_last_access = t\<rparr>"
proof -
  have "fl (of_int n) = of_int n" "float_of_int limit = of_int limit"
    using assms fl_of_int[of n] fl_of_int[of limit] by (simp_all add: float_of_int_def)
  then show ?thesis using assms by (simp add: refill_def Let_def fmul_def fadd_def)
qed

interpretation mem: budget_limiter
  "memory_allow key limit window (t, t, t)" "memory_budget key limit" "memory_sound key limit window t"
  for key limit window t
proof
  fix m assume s: "memory_sound key limit window t m"
  then have l: "0 < window" "0 \<le> limit" "limit \<le> 2 ^ 53" by (auto simp: memory_sound_def)
  have nz: "seconds window \<noteq> 0" using seconds_pos[OF l(1)] by simp
  define b0 where "b0 = (case ml_buckets m key of Some b \<Rightarrow> b
      | None \<Rightarrow> \<lparr>bk_tokens = float_of_int limit, bk_last_check = t, bk_last_access = t\<rparr>)"
  have "float_of_int limit = of_int limit" using l fl_of_int[of limit] by (simp add: float_of_int_def)
  then obtain n where n: "bk_last_check b0 = t" "bk_tokens b0 = of_int n" "0 \<le> n" "n \<le> limit"
    using s l by (auto simp: memory_sound_def b0_def split: option.splits)
  have bud: "memory_budget key limit m = nat n"
    using n(2) \<open>float_of_int limit = of_int limit\<close> by (auto simp: memory_budget_def b0_def split: option.splits)
  have step: "fsub (of_int n) 1 = of_int (n - 1)" if "1 \<le> n"
    using that n l fl_of_int[of "n - 1"] by (simp add: fsub_def)
  show "\<exists>m'. memory_allow key limit window (t, t, t) m = Some (0 < memory_budget key limit m, m') \<and>
      memory_sound key limit window t m' \<and> memory_budget key limit m' = memory_budget key limit m - 1"
  proof (cases "1 \<le> n")
    case True
    define b where "b = \<lparr>bk_tokens = of_int (n - 1), bk_last_check = t, bk_last_access = t\<rparr>"
    have "memory_allow key limit window (t, t, t) m =
        Some (True, m\<lparr>ml_buckets := (ml_buckets m)(key \<mapsto> b)\<rparr>)"
      using True nz step[OF True] refill_at_once[OF n l(3), of window]
      by (simp add: memory_allow_def Let_def b_def flip: b0_def)
    moreover have "memory_sound key limit window t (m\<lparr>ml_buckets := (ml_buckets m)(key \<mapsto> b)\<rparr>)"
      using l n True by (auto simp: memory_sound_def b_def intro!: exI[of _ "n - 1"])
    moreover have "memory_budget key limit (m\<lparr>ml_buckets := (ml_buckets m)(key \<mapsto> b)\<rparr>) = nat n - 1"
      using True by (simp add: memory_budget_def b_def nat_diff_distrib)
    ultimately show ?thesis using True bud by auto
  next
    case False
    define b where "b = \<lparr>bk_tokens = of_int n, bk_last_check = t, bk_last_access = t\<rparr>"
    have n0: "n = 0" using False n(3) by simp
    have "memory_allow key limit window (t, t, t) m =
        Some (False, m\<lparr>ml_buckets := (ml_buckets m)(key \<mapsto> b)\<rparr>)"
      using n0 nz refill_at_once[OF n l(3), of window]
      by (simp add: memory_allow_def Let_def b_def flip: b0_def)
    moreover have "memory_sound key limit window t (m\<lparr>ml_buckets := (ml_buckets m)(key \<mapsto> b)\<rparr>)"
      using l n by (auto simp: memory_sound_def b_def)
    moreover have "memory_budget key limit (m\<lparr>ml_buckets := (ml_buckets m)(key \<mapsto> b)\<rparr>) = 0"
      by (simp add: memory_budget_def b_def n0)
    ultimately show ?thesis using n0 bud by auto
  qed
qed

text \<open>
  C30: a burst of requests of a new key at one instant is admitted up to the limit exactly and
  rejected from there on.
\<close>

lemma memory_burst:
  assumes "0 < window" "0 \<le> limit" "limit \<le> 2 ^ 53" "ml_buckets m key = None"
  shows "\<exists>m'. run_limiter (memory_allow key limit window (t, t, t)) n m =
     Some (replicate (min n (nat limit)) True @ replicate (n - nat limit) False, m')"
proof -
  have "memory_sound key limit window t m" "memory_budget key limit m = nat limit"
    using assms by (simp_all add: memory_sound_def memory_budget_def)
  then show ?thesis using mem.burst[of key limit window t m n] by metis
qed

lemma memory_burst_witness:
  "\<exists>m'. run_limiter (memory_allow ''10.0.0.9'' 2 minute (0, 0, 0)) 3 NewMemoryLimiter =
     Some ([True, True, False], m')"
  using memory_burst[of minute 2 NewMemoryLimiter "''10.0.0.9''" 0 3]
  by (simp add: NewMemoryLimiter_def numeral_2_eq_2 numeral_3_eq_3)

lemma cleanup_spec:
  "ml_buckets (cleanup now m) key = Some b \<longleftrightarrow>
     ml_buckets m key = Some b \<and> time_sub now (bk_last_access b) \<le> ml_ttl m"
  by (auto simp: cleanup_def not_less split: option.splits)

section \<open>Limiter over Redis\<close>

record redis_config =
  rd_enabled :: bool
  rd_addr :: string
  rd_password :: string
  rd_db :: int

text \<open>The client library: each call may fail, and works on a server state \<^verbatim>\<open>'w\<close>.\<close>

record 'w redis_client =
  rc_ping :: "'w \<Rightarrow> string option"
  rc_incr :: "string \<Rightarrow> 'w \<Rightarrow> (string + int) \<times> 'w"
  rc_expire :: "string \<Rightarrow> int \<Rightarrow> 'w \<Rightarrow> 'w"
  rc_close :: "'w \<Rightarrow> string option"

record 'w redis_limiter =
  rl_client :: "'w redis_client"
  rl_prefix :: string

definition NewRedisLimiter ::
    "(string \<Rightarrow> string \<Rightarrow> int \<Rightarrow> 'w redis_client) \<Rightarrow> redis_config \<Rightarrow> 'w \<Rightarrow> (string \<times> string) + 'w redis_limiter option" where
  "NewRedisLimiter new_client cfg w =
     (if \<not> rd_enabled cfg then Inr None
      else
        let addr = (if rd_addr cfg = [] then ''localhost:6379'' else rd_addr cfg);
            client = new_client addr (rd_password cfg) (rd_db cfg)
        in case rc_ping client w of
             Some err \<Rightarrow> Inl (''redis connection failed at '' @ addr, err)
           | None \<Rightarrow> Inr (Some \<lparr>rl_client = client, rl_prefix = ''waffynx:ratelimit:''\<rparr>))"

text \<open>\<^verbatim>\<open>int64(f)\<close> truncates towards zero.\<close>

definition truncate :: "float64 \<Rightarrow> int" where
  "truncate f = (if 0 \<le> f then \<lfloor>f\<rfloor> else \<lceil>f\<rceil>)"

definition window_seconds :: "int \<Rightarrow> int" where
  "window_seconds window = (let w = truncate (seconds window) in if w < 1 then 1 else w)"

definition redis_key :: "string \<Rightarrow> string \<Rightarrow> int \<Rightarrow> int \<Rightarrow> string" where
  "redis_key prefix key window now = prefix @ key @ '':'' @ itoa (quot now (window_seconds window))"

text \<open>\<^verbatim>\<open>now\<close> is \<^verbatim>\<open>time.Now().Unix()\<close>.\<close>

definition redis_allow ::
    "'w redis_limiter \<Rightarrow> string \<Rightarrow> int \<Rightarrow> int \<Rightarrow> int \<Rightarrow> 'w \<Rightarrow> (string + bool) \<times> 'w" where
  "redis_allow r key limit window now w =
     (let k = redis_key (rl_prefix r) key window now
      in case rc_incr (rl_client r) k w of
           (Inl err, w') \<Rightarrow> (Inl err, w')
         | (Inr count, w') \<Rightarrow>
             (Inr (count \<le> limit),
              if count = 1 then rc_expire (rl_client r) k (window + second) w' else w'))"

definition close_redis :: "'w redis_limiter \<Rightarrow> 'w \<Rightarrow> string option" where
  "close_redis r w = rc_close (rl_client r) w"

text \<open>
  Redis as documented: \<^verbatim>\<open>INCR\<close> adds one to the counter of its key (zero when absent) and
  returns the new value; setting a deadline in the future leaves every counter as it is.
\<close>

definition redis_counts :: "'w redis_client \<Rightarrow> (string \<Rightarrow> 'w \<Rightarrow> nat) \<Rightarrow> bool" where
  "redis_counts c cnt =
     ((\<forall>k w. \<exists>w'. rc_incr c k w = (Inr (int (cnt k w) + 1), w') \<and>
         (\<forall>k'. cnt k' w' = (if k' = k then cnt k w + 1 else cnt k' w))) \<and>
      (\<forall>k d w k'. 0 < d \<longrightarrow> cnt k' (rc_expire c k d w) = cnt k' w))"

definition redis_try :: "'w redis_limiter \<Rightarrow> string \<Rightarrow> int \<Rightarrow> int \<Rightarrow> int \<Rightarrow> 'w \<Rightarrow> (bool \<times> 'w) option" where
  "redis_try r key limit window now w =
     (case redis_allow r key limit window now w of (Inl _, _) \<Rightarrow> None | (Inr v, w') \<Rightarrow> Some (v, w'))"

interpretation red: budget_limiter
  "redis_try r key limit window now"
  "\<lambda>w. nat limit - cnt (redis_key (rl_prefix r) key window now) w"
  "\<lambda>w. redis_counts (rl_client r) cnt \<and> 0 \<le> window"
  for r key limit window now cnt
proof
  fix w assume s: "redis_counts (rl_client r) cnt \<and> 0 \<le> window"
  define k where "k = redis_key (rl_prefix r) key window now"
  obtain w' where w': "rc_incr (rl_client r) k w = (Inr (int (cnt k w) + 1), w')" "cnt k w' = cnt k w + 1"
    using s unfolding redis_counts_def by metis
  define w'' where "w'' = (if cnt k w = 0 then rc_expire (rl_client r) k (window + second) w' else w')"
  have "cnt k w'' = cnt k w'"
    using s by (auto simp: w''_def redis_counts_def)
  then have c: "cnt k w'' = cnt k w + 1" using w'(2) by simp
  have "redis_try r key limit window now w = Some (int (cnt k w) + 1 \<le> limit, w'')"
    by (simp add: redis_try_def redis_allow_def Let_def w''_def w'(1) flip: k_def)
  moreover have "(int (cnt k w) + 1 \<le> limit) = (0 < nat limit - cnt k w)" by linarith
  ultimately show "\<exists>w'. redis_try r key limit window now w = Some (0 < nat limit - cnt (redis_key (rl_prefix r) key window now) w, w') \<and>
      (redis_counts (rl_client r) cnt \<and> 0 \<le> window) \<and>
      nat limit - cnt (redis_key (rl_prefix r) key window now) w' =
      nat limit - cnt (redis_key (rl_prefix r) key window now) w - 1"
    using s c by (auto simp flip: k_def)
qed


definition sample_client :: "(string \<Rightarrow> nat) redis_client" where
  "sample_client =
     \<lparr>rc_ping = (\<lambda>w. None), rc_incr = (\<lambda>k w. (Inr (int (w k) + 1), w(k := w k + 1))),
      rc_expire = (\<lambda>k d w. w), rc_close = (\<lambda>w. None)\<rparr>"


end
