(* ===== verification/Appsec.thy ===== *)
theory Appsec
  imports GoHttp GoJson RateLimit
begin

text \<open>
  \<^verbatim>\<open>internal/appsec\<close>: the threshold, the scorer in Go and the client of the open-appsec
  bridge. The Unicode lower-case table \<^verbatim>\<open>ul\<close>, \<^verbatim>\<open>math.Log2\<close> (whose rounding Go does not
  specify) and the clock are arguments. Where the source ranges over a map of code point
  frequencies, the model adds in the order of first occurrence.
\<close>

section \<open>Verdicts and results\<close>

datatype verdict_level = LAllow | LSuspicious | LBlock

fun severity :: "verdict_level \<Rightarrow> nat" where
  "severity LAllow = 0" | "severity LSuspicious = 1" | "severity LBlock = 2"

instantiation verdict_level :: linorder
begin

definition less_eq_verdict_level :: "verdict_level \<Rightarrow> verdict_level \<Rightarrow> bool" where
  "less_eq_verdict_level a b = (severity a \<le> severity b)"

definition less_verdict_level :: "verdict_level \<Rightarrow> verdict_level \<Rightarrow> bool" where
  "less_verdict_level a b = (severity a < severity b)"

instance
proof
  fix a b c :: verdict_level
  show "(a < b) = (a \<le> b \<and> \<not> b \<le> a)" by (auto simp: less_verdict_level_def less_eq_verdict_level_def)
  show "a \<le> a" "a \<le> b \<Longrightarrow> b \<le> c \<Longrightarrow> a \<le> c" "a \<le> b \<or> b \<le> a" by (auto simp: less_eq_verdict_level_def)
  show "a \<le> b \<Longrightarrow> b \<le> a \<Longrightarrow> a = b" by (cases a; cases b) (simp_all add: less_eq_verdict_level_def)
qed

end

fun verdict_name :: "verdict_level \<Rightarrow> string" where
  "verdict_name LAllow = ''allow''" | "verdict_name LSuspicious = ''suspicious''" | "verdict_name LBlock = ''block''"

definition ScoreThreshold :: "float64 \<Rightarrow> verdict_level" where
  "ScoreThreshold score = (if fl (70/100) \<le> score then LBlock else if fl (40/100) \<le> score then LSuspicious else LAllow)"

record scorer_result =
  sr_verdict :: string
  sr_score :: float64
  sr_confidence :: float64
  sr_reasons :: "string list"
  sr_anomalies :: "string list"
  sr_model :: string

definition zero_result :: scorer_result where
  "zero_result =
     \<lparr>sr_verdict = [], sr_score = 0, sr_confidence = 0, sr_reasons = [], sr_anomalies = [], sr_model = []\<rparr>"

record features =
  ft_method :: string
  ft_uri :: string
  ft_host :: string
  ft_client_ip :: string
  ft_user_agent :: string
  ft_content_type :: string
  ft_referer :: string
  ft_body :: string
  ft_headers_count :: int
  ft_uri_length :: int
  ft_query_params :: "(string \<times> string) list"
  ft_has_payload :: bool
  ft_payload_size :: int

lemma ScoreThreshold_mono: "s \<le> t \<Longrightarrow> ScoreThreshold s \<le> ScoreThreshold t"
proof -
  have "fl (40/100) \<le> fl (70/100)" by (rule fl_mono) simp
  then show "s \<le> t \<Longrightarrow> ScoreThreshold s \<le> ScoreThreshold t"
    by (auto simp: ScoreThreshold_def less_eq_verdict_level_def)
qed

section \<open>Basic scorer\<close>

record ipCounter =
  ic_count :: int
  ic_window_start :: int

record BasicScorer =
  bs_enabled :: bool
  bs_sqli :: "string list"
  bs_xss :: "string list"
  bs_path_traversal :: "string list"
  bs_cmd_injection :: "string list"
  bs_ip_frequency :: "string \<Rightarrow> ipCounter option"
  bs_max_per_minute :: int

definition quote :: string where "quote = [CHR 0x27]"
definition backtick :: string where "backtick = [CHR 0x60]"
definition backslash :: string where "backslash = [CHR 0x5C]"

definition scorer_sqli :: "string list" where
  "scorer_sqli =
     [''union select'', ''union/**/select'', ''or 1=1'', quote @ '' or '' @ quote @ ''1'' @ quote @ ''='' @ quote @ ''1'',
      ''or 1=1--'', quote @ '' or 1=1#'', ''information_schema'', ''load_file('', ''outfile'', ''char('']"

definition scorer_xss :: "string list" where
  "scorer_xss =
     [''<script'', ''</script>'', ''javascript:'', ''onerror='', ''onload='', ''onclick='', ''onfocus='', ''alert('',
      ''prompt('', ''confirm('', ''document.cookie'', ''document.write'', ''eval('', ''fromcharcode'']"

definition scorer_path :: "string list" where
  "scorer_path =
     [''../'', ''..'' @ backslash, ''/etc/passwd'', ''/etc/shadow'', ''boot.ini'', ''win.ini'', ''proc/self/environ'']"

definition scorer_cmd :: "string list" where
  "scorer_cmd =
     ['';cat '', '';ls '', '';id '', '';wget '', ''|cat '', ''|ls '', ''|id '', ''&&cat '', ''&&ls '', ''&&id '',
      ''$(cat '', ''$(id)'', ''$(ls)'', backtick @ ''cat '', backtick @ ''id'' @ backtick, backtick @ ''ls'' @ backtick]"

definition toLowerSlice :: "(nat \<Rightarrow> nat) \<Rightarrow> string list \<Rightarrow> string list" where
  "toLowerSlice ul xs = map (to_lower ul) xs"

definition NewBasicScorer :: "(nat \<Rightarrow> nat) \<Rightarrow> BasicScorer" where
  "NewBasicScorer ul =
     \<lparr>bs_enabled = True, bs_sqli = toLowerSlice ul scorer_sqli, bs_xss = toLowerSlice ul scorer_xss,
      bs_path_traversal = toLowerSlice ul scorer_path, bs_cmd_injection = toLowerSlice ul scorer_cmd,
      bs_ip_frequency = Map.empty, bs_max_per_minute = 300\<rparr>"

definition pattern_hits :: "(nat \<Rightarrow> nat) \<Rightarrow> string \<Rightarrow> (string \<times> string) list \<Rightarrow> string \<Rightarrow> string \<Rightarrow> bool" where
  "pattern_hits ul uri params body p =
     (str_contains (to_lower ul uri) p \<or> list_ex (\<lambda>(k, v). str_contains (to_lower ul v) p) params \<or>
      (body \<noteq> [] \<and> str_contains (to_lower ul body) p))"

definition checkPatterns ::
    "(nat \<Rightarrow> nat) \<Rightarrow> string \<Rightarrow> (string \<times> string) list \<Rightarrow> string \<Rightarrow> string list \<Rightarrow> float64 \<times> string" where
  "checkPatterns ul uri params body patterns =
     (case find (pattern_hits ul uri params body) patterns of Some p \<Rightarrow> (fl (9/10), p) | None \<Rightarrow> (0, []))"

definition calculateEntropy :: "(float64 \<Rightarrow> float64) \<Rightarrow> string \<Rightarrow> float64" where
  "calculateEntropy log2 s =
     (if s = [] then 0
      else
        let freq = group_by id 0 (\<lambda>_. Suc) (runes s); n = float_of_int (int (length s))
        in foldl (\<lambda>entropy (r, cnt). let p = fdiv (float_of_int (int cnt)) n in fsub entropy (fmul p (log2 p))) 0 freq)"

text \<open>\<^verbatim>\<open>unicode.IsUpper\<close>, \<^verbatim>\<open>IsLower\<close> and \<^verbatim>\<open>IsDigit\<close> of one byte, a code point of Latin-1.\<close>

definition latin_upper :: "char \<Rightarrow> bool" where
  "latin_upper c = (let b = byte c in (65 \<le> b \<and> b \<le> 90) \<or> (0xC0 \<le> b \<and> b \<le> 0xDE \<and> b \<noteq> (0xD7 :: nat)))"

definition latin_lower :: "char \<Rightarrow> bool" where
  "latin_lower c =
     (let b = byte c in (97 \<le> b \<and> b \<le> 122) \<or> b = 0xB5 \<or> (0xDF \<le> b \<and> b \<noteq> (0xF7 :: nat)))"

record char_counts =
  cc_upper :: nat
  cc_lower :: nat
  cc_digits :: nat
  cc_special :: nat
  cc_encoded :: nat

fun count_chars :: "string \<Rightarrow> char_counts \<Rightarrow> char_counts" where
  "count_chars [] n = n"
| "count_chars (c # s) n =
     count_chars s
       (if latin_upper c then n\<lparr>cc_upper := cc_upper n + 1\<rparr>
        else if latin_lower c then n\<lparr>cc_lower := cc_lower n + 1\<rparr>
        else if is_digit c then n\<lparr>cc_digits := cc_digits n + 1\<rparr>
        else if c = CHR ''%''
        then (case s of
                a # b # _ \<Rightarrow> if is_hex_digit a \<and> is_hex_digit b
                             then n\<lparr>cc_encoded := cc_encoded n + 1, cc_special := cc_special n + 1\<rparr>
                             else n\<lparr>cc_special := cc_special n + 1\<rparr>
              | _ \<Rightarrow> n\<lparr>cc_special := cc_special n + 1\<rparr>)
        else n\<lparr>cc_special := cc_special n + 1\<rparr>)"

definition analyzeCharDistribution :: "string \<Rightarrow> float64" where
  "analyzeCharDistribution s =
     (if s = [] then 0
      else
        let n = count_chars s \<lparr>cc_upper = 0, cc_lower = 0, cc_digits = 0, cc_special = 0, cc_encoded = 0\<rparr>;
            tot = float_of_int (int (length s));
            encodedRatio = fdiv (float_of_int (int (cc_encoded n))) tot
        in if fl (5/100) < encodedRatio then min (fmul encodedRatio 10) 1
           else
             let specialRatio = fdiv (float_of_int (int (cc_special n))) tot
             in if fl (15/100) < specialRatio then min (fmul specialRatio 3) 1 else 0)"

definition badUAs :: "string list" where
  "badUAs = [''nikto'', ''sqlmap'', ''acunetix'', ''nessus'', ''burpsuite'', ''nmap'', ''masscan'']"

definition analyzeHeaders :: "(nat \<Rightarrow> nat) \<Rightarrow> features \<Rightarrow> float64" where
  "analyzeHeaders ul f =
     (let ua = ft_user_agent f;
          add = (\<lambda>c x (score, reasons). if c then (fadd score (fl x), reasons + 1) else (score, reasons :: nat));
          (score, reasons) =
            add (500 < length ua) (3/10)
              (add (ua \<noteq> [] \<and> length ua < 10) (2/10)
                (add (list_ex (\<lambda>bad. str_contains (to_lower ul ua) bad) badUAs) (8/10)
                  (add (ua = []) (3/10) (0, 0))))
      in if reasons = 0 then 0 else min score 1)"

definition checkRate :: "int \<Rightarrow> string \<Rightarrow> BasicScorer \<Rightarrow> float64 \<times> BasicScorer" where
  "checkRate now ip s =
     (if ip = [] then (0, s)
      else
        let fresh = (0, s\<lparr>bs_ip_frequency := (bs_ip_frequency s)(ip \<mapsto> \<lparr>ic_count = 1, ic_window_start = now\<rparr>)\<rparr>)
        in case bs_ip_frequency s ip of
             None \<Rightarrow> fresh
           | Some c \<Rightarrow>
               if minute < time_sub now (ic_window_start c) then fresh
               else
                 let c = c\<lparr>ic_count := ic_count c + 1\<rparr>;
                     s = s\<lparr>bs_ip_frequency := (bs_ip_frequency s)(ip \<mapsto> c)\<rparr>;
                     rate = fdiv (float_of_int (ic_count c)) (float_of_int (bs_max_per_minute s))
                 in (if 1 < rate then min (fsub rate 1) 1 else 0, s))"

text \<open>\<^verbatim>\<open>%.2f\<close> of a value that is not negative.\<close>

definition format_2f :: "float64 \<Rightarrow> string" where
  "format_2f x =
     (let n = nat (round_even (x * 100)); c = n mod 100
      in itoa (int (n div 100)) @ ''.'' @ (if c < 10 then ''0'' else []) @ itoa (int c))"

type_synonym scoring = "float64 \<times> string list \<times> string list"

definition pattern_step ::
    "(nat \<Rightarrow> nat) \<Rightarrow> features \<Rightarrow> string list \<Rightarrow> rat \<Rightarrow> string \<Rightarrow> string \<Rightarrow> scoring \<Rightarrow> scoring" where
  "pattern_step ul f patterns weight name label sc =
     (case (sc, checkPatterns ul (ft_uri f) (ft_query_params f) (ft_body f) patterns) of
        ((tot, anomalies, reasons), (score, matched)) \<Rightarrow>
          if 0 < score then (fadd tot (fmul score (fl weight)), anomalies @ [name], reasons @ [label @ matched])
          else (tot, anomalies, reasons))"

definition pattern_scoring :: "(nat \<Rightarrow> nat) \<Rightarrow> BasicScorer \<Rightarrow> features \<Rightarrow> scoring" where
  "pattern_scoring ul s f =
     pattern_step ul f (bs_cmd_injection s) (80/100) ''cmd-injection'' ''Command injection detected: ''
       (pattern_step ul f (bs_path_traversal s) (75/100) ''path-traversal'' ''Path traversal detected: ''
         (pattern_step ul f (bs_xss s) (80/100) ''xss'' ''XSS pattern detected: ''
           (pattern_step ul f (bs_sqli s) (80/100) ''sqli'' ''SQLi pattern detected: '' (0, [], []))))"

definition entropy_step :: "(float64 \<Rightarrow> float64) \<Rightarrow> features \<Rightarrow> scoring \<Rightarrow> scoring" where
  "entropy_step log2 f sc =
     (case sc of (tot, anomalies, reasons) \<Rightarrow>
        let e = calculateEntropy log2 (ft_uri f);
            b = calculateEntropy log2 (ft_body f);
            entropy = (if ft_body f \<noteq> [] \<and> e < b then b else e)
        in if fl (45/10) < entropy
           then let es = fdiv (fsub entropy (fl (45/10))) (fl (35/10));
                    es = (if 1 < es then 1 else es);
                    tot = fadd tot (fmul es (fl (15/100)))
                in if fl (5/10) < es
                   then (tot, anomalies @ [''high-entropy''], reasons @ [''High URI entropy: '' @ format_2f entropy])
                   else (tot, anomalies, reasons)
           else sc)"

definition char_step :: "features \<Rightarrow> scoring \<Rightarrow> scoring" where
  "char_step f sc =
     (case sc of (tot, anomalies, reasons) \<Rightarrow>
        let u = analyzeCharDistribution (ft_uri f);
            b = analyzeCharDistribution (ft_body f);
            cs = (if ft_body f \<noteq> [] \<and> u < b then b else u);
            tot = fadd tot (fmul cs (fl (10/100)))
        in if fl (5/10) < cs
           then (tot, anomalies @ [''char-distribution''], reasons @ [''Suspicious character distribution''])
           else (tot, anomalies, reasons))"

definition header_step :: "(nat \<Rightarrow> nat) \<Rightarrow> features \<Rightarrow> scoring \<Rightarrow> scoring" where
  "header_step ul f sc =
     (case sc of (tot, anomalies, reasons) \<Rightarrow>
        let hs = analyzeHeaders ul f; tot = fadd tot (fmul hs (fl (10/100)))
        in if fl (5/10) < hs then (tot, anomalies @ [''header-anomaly''], reasons) else (tot, anomalies, reasons))"

definition rate_step :: "float64 \<Rightarrow> features \<Rightarrow> scoring \<Rightarrow> scoring" where
  "rate_step rs f sc =
     (case sc of (tot, anomalies, reasons) \<Rightarrow>
        let tot = fadd tot (fmul rs (fl (10/100)))
        in if fl (5/10) < rs
           then (tot, anomalies @ [''rate-anomaly''], reasons @ [''High request rate from '' @ ft_client_ip f])
           else (tot, anomalies, reasons))"

definition length_step :: "features \<Rightarrow> scoring \<Rightarrow> scoring" where
  "length_step f sc =
     (case sc of (tot, anomalies, reasons) \<Rightarrow>
        if 2048 < ft_uri_length f
        then (fadd tot (fmul (min (fdiv (float_of_int (ft_uri_length f)) 8192) 1) (fl (5/100))),
              anomalies @ [''uri-length''],
              reasons @ [''Unusually long URI: '' @ itoa (ft_uri_length f) @ '' chars''])
        else sc)"

definition basic_name :: string where "basic_name = ''basic-go''"

definition final_result :: "scoring \<Rightarrow> scorer_result" where
  "final_result sc =
     (case sc of (tot, anomalies, reasons) \<Rightarrow>
        let tot = (if 1 < tot then 1 else tot);
            confidence = (if 3 \<le> length anomalies then fl (95/100)
                          else if 2 \<le> length anomalies then fl (85/100) else fl (7/10))
        in \<lparr>sr_verdict = verdict_name (ScoreThreshold tot), sr_score = tot, sr_confidence = confidence,
            sr_reasons = reasons, sr_anomalies = anomalies, sr_model = basic_name\<rparr>)"

definition EvaluateBasic ::
    "(nat \<Rightarrow> nat) \<Rightarrow> (float64 \<Rightarrow> float64) \<Rightarrow> int \<Rightarrow> features \<Rightarrow> BasicScorer \<Rightarrow> scorer_result \<times> BasicScorer" where
  "EvaluateBasic ul log2 now f s =
     (if \<not> bs_enabled s then (zero_result\<lparr>sr_verdict := verdict_name LAllow, sr_model := basic_name\<rparr>, s)
      else
        let (tot, anomalies, reasons) = pattern_scoring ul s f
        in if anomalies \<noteq> [] \<and> fl (70/100) \<le> tot
           then (\<lparr>sr_verdict = verdict_name LBlock, sr_score = tot, sr_confidence = fl (90/100),
                  sr_reasons = reasons, sr_anomalies = anomalies, sr_model = basic_name\<rparr>, s)
           else
             let (rs, s') = checkRate now (ft_client_ip f) s
             in (final_result (length_step f (rate_step rs f (header_step ul f (char_step f
                   (entropy_step log2 f (tot, anomalies, reasons)))))), s'))"

subsection \<open>Facts\<close>

lemma checkPatterns_hit:
  "p \<in> set patterns \<Longrightarrow> pattern_hits ul uri params body p \<Longrightarrow> fst (checkPatterns ul uri params body patterns) = fl (9/10)"
  by (auto simp: checkPatterns_def find_None_iff split: option.splits)

lemma checkPatterns_nonneg: "0 \<le> fst (checkPatterns ul uri params body patterns)"
  by (auto simp: checkPatterns_def split: option.splits)

text \<open>The running total of the pattern steps never falls, and anomalies are only added.\<close>

definition scoring_le :: "scoring \<Rightarrow> scoring \<Rightarrow> bool" where
  "scoring_le a b = (fl (fst a) \<le> fst b \<and> (fst (snd a) \<noteq> [] \<longrightarrow> fst (snd b) \<noteq> []))"

lemma pattern_step_total:
  "fst (pattern_step ul f ps w name label sc) =
     (let s = fst (checkPatterns ul (ft_uri f) (ft_query_params f) (ft_body f) ps)
      in if 0 < s then fadd (fst sc) (fmul s (fl w)) else fst sc)"
  "fst (snd (pattern_step ul f ps w name label sc)) =
     (if 0 < fst (checkPatterns ul (ft_uri f) (ft_query_params f) (ft_body f) ps)
      then fst (snd sc) @ [name] else fst (snd sc))"
  by (auto simp: pattern_step_def Let_def split: prod.splits)

lemma pattern_step_mono:
  assumes "0 \<le> w" "x \<le> fst sc" "fl x = x"
  shows "x \<le> fst (pattern_step ul f ps w name label sc)"
proof -
  have "0 \<le> fmul s (fl w)" if "0 \<le> s" for s using that assms(1) by (simp add: fmul_def)
  then have "x \<le> fst sc + fmul s (fl w)" if "0 \<le> s" for s using that assms(2) by (metis add.right_neutral add_mono)
  then have "x \<le> fadd (fst sc) (fmul s (fl w))" if "0 \<le> s" for s
    using fl_mono[of x] that assms(3) by (metis fadd_def)
  then show ?thesis using assms(2) by (simp add: pattern_step_total Let_def)
qed

lemma pattern_step_anomalies: "fst (snd sc) \<noteq> [] \<Longrightarrow> fst (snd (pattern_step ul f ps w name label sc)) \<noteq> []"
  by (simp add: pattern_step_total)

lemma pattern_step_hit:
  assumes "p \<in> set ps" "pattern_hits ul (ft_uri f) (ft_query_params f) (ft_body f) p" "0 \<le> fst sc"
  shows "fmul (fl (9/10)) (fl w) \<le> fst (pattern_step ul f ps w name label sc)"
    and "fst (snd (pattern_step ul f ps w name label sc)) \<noteq> []"
proof -
  have s: "fst (checkPatterns ul (ft_uri f) (ft_query_params f) (ft_body f) ps) = fl (9/10)"
    using checkPatterns_hit[OF assms(1,2)] .
  have pos: "0 < fl (9/10)" by (simp add: fl_pos_pos)
  have "fmul (fl (9/10)) (fl w) \<le> fst sc + fmul (fl (9/10)) (fl w)" using assms(3) by simp
  then have "fl (fmul (fl (9/10)) (fl w)) \<le> fadd (fst sc) (fmul (fl (9/10)) (fl w))"
    unfolding fadd_def by (rule fl_mono)
  then show "fmul (fl (9/10)) (fl w) \<le> fst (pattern_step ul f ps w name label sc)"
    using pos by (simp add: pattern_step_total s Let_def fmul_def)
  show "fst (snd (pattern_step ul f ps w name label sc)) \<noteq> []" using pos by (simp add: pattern_step_total s)
qed

lemma block_weight: "fl (70/100) \<le> fmul (fl (9/10)) (fl (80/100))"
  by code_simp

lemma pattern_scoring_hit:
  assumes "p \<in> set (bs_sqli s) \<union> set (bs_xss s) \<union> set (bs_cmd_injection s)"
    and "pattern_hits ul (ft_uri f) (ft_query_params f) (ft_body f) p"
  shows "fl (70/100) \<le> fst (pattern_scoring ul s f) \<and> fst (snd (pattern_scoring ul s f)) \<noteq> []"
proof -
  define a where "a = pattern_step ul f (bs_sqli s) (80/100) ''sqli'' ''SQLi pattern detected: '' (0, [], [])"
  define b where "b = pattern_step ul f (bs_xss s) (80/100) ''xss'' ''XSS pattern detected: '' a"
  define c where "c = pattern_step ul f (bs_path_traversal s) (75/100) ''path-traversal'' ''Path traversal detected: '' b"
  define d where "d = pattern_step ul f (bs_cmd_injection s) (80/100) ''cmd-injection'' ''Command injection detected: '' c"
  have d_eq: "pattern_scoring ul s f = d" by (simp add: pattern_scoring_def a_def b_def c_def d_def)
  have nn: "0 \<le> fst a" "0 \<le> fst b" "0 \<le> fst c"
    unfolding a_def b_def c_def by (intro pattern_step_mono; simp)+
  define x where "x = fmul (fl (9/10)) (fl (80/100))"
  have fx: "fl x = x" by (simp add: x_def fmul_def)
  consider "p \<in> set (bs_sqli s)" | "p \<in> set (bs_xss s)" | "p \<in> set (bs_cmd_injection s)" using assms(1) by blast
  then have "x \<le> fst d \<and> fst (snd d) \<noteq> []"
  proof cases
    case 1
    have "x \<le> fst a" "fst (snd a) \<noteq> []"
      unfolding x_def a_def by (rule pattern_step_hit[OF 1 assms(2)]; simp)+
    then show ?thesis unfolding d_def c_def b_def by (intro conjI pattern_step_mono pattern_step_anomalies fx) simp_all
  next
    case 2
    have "x \<le> fst b" "fst (snd b) \<noteq> []"
      unfolding x_def b_def by (rule pattern_step_hit[OF 2 assms(2) nn(1)])+
    then show ?thesis unfolding d_def c_def by (intro conjI pattern_step_mono pattern_step_anomalies fx) simp_all
  next
    case 3
    show ?thesis unfolding x_def d_def using pattern_step_hit[OF 3 assms(2) nn(3)] by blast
  qed
  then show ?thesis using block_weight by (auto simp: d_eq x_def)
qed

text \<open>
  C39: a request that contains one of the scorer's SQL injection, script or command patterns in
  its URI, a query parameter or its body, in any letter case and among any other bytes, is
  blocked, and the scorer's state does not change.
\<close>

lemma attack_patterns_block:
  assumes "ascii_table ul" "ascii w" "map ascii_lower w \<in> set scorer_sqli \<union> set scorer_xss \<union> set scorer_cmd"
    and "str_contains (ft_uri f) w \<or> list_ex (\<lambda>(k, v). str_contains v w) (ft_query_params f) \<or> str_contains (ft_body f) w"
    and "s = NewBasicScorer ul \<lparr>bs_ip_frequency := ips\<rparr>"
  shows "sr_verdict (fst (EvaluateBasic ul log2 now f s)) = ''block'' \<and> snd (EvaluateBasic ul log2 now f s) = s"
proof -
  define p where "p = map ascii_lower w"
  have low: "to_lower ul q = q" if "q \<in> set scorer_sqli \<union> set scorer_xss \<union> set scorer_cmd" for q
  proof -
    have "list_all (\<lambda>q. ascii q \<and> list_all (\<lambda>c. \<not> (65 \<le> byte c \<and> byte c \<le> 90)) q) (scorer_sqli @ scorer_xss @ scorer_cmd)"
      by (simp add: scorer_sqli_def scorer_xss_def scorer_cmd_def quote_def backtick_def)
    then have "ascii q" "list_all (\<lambda>c. \<not> (65 \<le> byte c \<and> byte c \<le> 90)) q" using that by (auto simp: list_all_iff)
    moreover have "map ascii_lower q = q" using calculation(2) by (intro map_idI) (auto simp: ascii_lower_def list_all_iff)
    ultimately show ?thesis by (simp add: to_lower_ascii)
  qed
  have p: "p \<in> set (bs_sqli s) \<union> set (bs_xss s) \<union> set (bs_cmd_injection s)"
    using assms(3,5) low by (force simp: p_def NewBasicScorer_def toLowerSlice_def)
  have c: "str_contains (to_lower ul t) p" if "str_contains t w" for t
    using to_lower_contains_lower[OF assms(1,2) _ that, of p] by (simp add: p_def)
  have ne: "w \<noteq> []" using assms(3) by (auto simp: scorer_sqli_def scorer_xss_def scorer_cmd_def)
  then have "ft_body f \<noteq> []" if "str_contains (ft_body f) w" using that by (cases "ft_body f") auto
  then have "pattern_hits ul (ft_uri f) (ft_query_params f) (ft_body f) p"
    using assms(4) c by (auto simp: pattern_hits_def list_ex_iff)
  from pattern_scoring_hit[OF p this] show ?thesis
    using assms(5) by (auto simp: EvaluateBasic_def NewBasicScorer_def Let_def split: prod.splits)
qed

definition plain_features :: features where
  "plain_features =
     \<lparr>ft_method = ''GET'', ft_uri = ''/'', ft_host = ''h'', ft_client_ip = ''10.0.0.9'', ft_user_agent = ''Mozilla/5.0'',
      ft_content_type = [], ft_referer = [], ft_body = [], ft_headers_count = 1, ft_uri_length = 1,
      ft_query_params = [], ft_has_payload = False, ft_payload_size = 0\<rparr>"

lemma attack_patterns_block_witness:
  "sr_verdict (fst (EvaluateBasic ascii_only_lower (\<lambda>_. 0) 0 (plain_features\<lparr>ft_body := ''x<ScRiPt>''\<rparr>)
     (NewBasicScorer ascii_only_lower))) = ''block''"
proof -
  define f where "f = plain_features\<lparr>ft_body := ''x<ScRiPt>''\<rparr>"
  have "map ascii_lower ''<ScRiPt'' = ''<script''" by code_simp
  then have m: "map ascii_lower ''<ScRiPt'' \<in> set scorer_sqli \<union> set scorer_xss \<union> set scorer_cmd"
    by (simp add: scorer_xss_def)
  have "str_contains (''x'' @ ''<ScRiPt'' @ ''>'') ''<ScRiPt''" by (rule str_containsI)
  then have "str_contains (ft_body f) ''<ScRiPt''" by (simp only: f_def append_Cons append_Nil) (simp add: features.defs)
  moreover have "ascii ''<ScRiPt''" by simp
  moreover have "NewBasicScorer ascii_only_lower = NewBasicScorer ascii_only_lower \<lparr>bs_ip_frequency := Map.empty\<rparr>"
    by (simp add: NewBasicScorer_def)
  ultimately show ?thesis
    using attack_patterns_block[OF ascii_only_lower_table _ m, of f] unfolding f_def by blast
qed

text \<open>
  the reported verdict is always the one that the threshold gives for the reported score,
  and a score above one is only reported for a blocked pattern match.
\<close>

lemma EvaluateBasic_verdict:
  "let r = fst (EvaluateBasic ul log2 now f s)
   in sr_verdict r = verdict_name (ScoreThreshold (sr_score r)) \<and>
      (sr_score r \<le> 1 \<or> sr_verdict r = ''block'' \<and> sr_confidence r = fl (90/100))"
proof -
  have t0: "ScoreThreshold 0 = LAllow"
  proof -
    have "0 < fl (70/100)" "0 < fl (40/100)" by (simp_all add: fl_pos_pos)
    then show ?thesis by (simp add: ScoreThreshold_def)
  qed
  have fin: "sr_verdict (final_result sc) = verdict_name (ScoreThreshold (sr_score (final_result sc))) \<and>
      sr_score (final_result sc) \<le> 1" for sc
    by (cases sc) (simp add: final_result_def Let_def)
  show ?thesis
    using fin by (auto simp: EvaluateBasic_def Let_def zero_result_def t0 ScoreThreshold_def[of "fst _"] split: prod.splits)
      (simp_all add: ScoreThreshold_def)
qed

text \<open>
  The weight of a path traversal match alone stays below the block threshold, and two other
  matches together report a score above one.
\<close>

lemma path_weight_below_threshold: "fmul (fl (9/10)) (fl (75/100)) < fl (70/100)"
  by code_simp

lemma two_matches_exceed_one: "1 < fadd (fmul (fl (9/10)) (fl (80/100))) (fmul (fl (9/10)) (fl (80/100)))"
  by code_simp

subsection \<open>Request rate\<close>

definition rate_score :: "int \<Rightarrow> int \<Rightarrow> float64" where
  "rate_score n limit =
     (let rate = fdiv (float_of_int n) (float_of_int limit) in if 1 < rate then min (fsub rate 1) 1 else 0)"

fun rate_run :: "string \<Rightarrow> int list \<Rightarrow> BasicScorer \<Rightarrow> float64 list" where
  "rate_run ip [] s = []"
| "rate_run ip (t # ts) s = (case checkRate t ip s of (r, s') \<Rightarrow> r # rate_run ip ts s')"

lemma rate_score_pos:
  assumes "0 < n" "n \<le> 2 ^ 52" "0 < limit" "limit \<le> 2 ^ 52"
  shows "0 < rate_score n limit \<longleftrightarrow> limit < n"
proof -
  have f: "float_of_int n = of_int n" "float_of_int limit = of_int limit"
    using assms fl_of_int[of n] fl_of_int[of limit] by (simp_all add: float_of_int_def)
  have "1 < fl (of_int n / of_int limit) \<longleftrightarrow> limit < n"
  proof
    assume "limit < n"
    then have "fl (of_int 1 / of_int 1) < fl (of_int n / of_int limit)"
      using assms by (intro fl_ratio_less) auto
    then show "1 < fl (of_int n / of_int limit)" by simp
  next
    assume l: "1 < fl (of_int n / of_int limit)"
    show "limit < n"
    proof (rule ccontr)
      assume "\<not> limit < n"
      then have "(of_int n :: rat) / of_int limit \<le> 1" using assms by simp
      then have "fl (of_int n / of_int limit) \<le> fl 1" by (rule fl_mono)
      then show False using l by simp
    qed
  qed
  then show ?thesis by (auto simp: rate_score_def Let_def fdiv_def f fsub_def fl_pos_pos)
qed

lemma rate_run_window:
  assumes "ip \<noteq> []" "bs_ip_frequency s ip = Some \<lparr>ic_count = c, ic_window_start = t0\<rparr>"
    and "list_all (\<lambda>t. time_sub t t0 \<le> minute) ts"
  shows "rate_run ip ts s = map (\<lambda>i. rate_score (c + int i + 1) (bs_max_per_minute s)) [0..<length ts]"
  using assms(2,3)
proof (induction ts arbitrary: s c)
  case (Cons t ts)
  define s' where "s' = s\<lparr>bs_ip_frequency := (bs_ip_frequency s)(ip \<mapsto> \<lparr>ic_count = c + 1, ic_window_start = t0\<rparr>)\<rparr>"
  have "checkRate t ip s = (rate_score (c + 1) (bs_max_per_minute s), s')"
    using Cons.prems assms(1) by (simp add: checkRate_def Let_def rate_score_def s'_def)
  moreover have "rate_run ip ts s' = map (\<lambda>i. rate_score (c + 1 + int i + 1) (bs_max_per_minute s)) [0..<length ts]"
    using Cons.IH[of s' "c + 1"] Cons.prems by (simp add: s'_def)
  ultimately show ?case
    by (simp add: upt_conv_Cons map_Suc_upt[symmetric] comp_def ac_simps del: upt_Suc)
qed simp

text \<open>
  within one minute of the first request of an address, exactly the requests from number
  301 on are scored as a rate anomaly.
\<close>

lemma rate_anomaly_from_301:
  assumes "ip \<noteq> []" "bs_ip_frequency s ip = None" "bs_max_per_minute s = 300"
    and "list_all (\<lambda>t. time_sub t t0 \<le> minute) ts" "length ts < 2 ^ 52"
  shows "length (rate_run ip (t0 # ts) s) = length ts + 1 \<and>
     map (\<lambda>r. 0 < r) (rate_run ip (t0 # ts) s) = map (\<lambda>i. 300 < i + 1) [0..<length ts + 1]"
proof -
  define s' where "s' = s\<lparr>bs_ip_frequency := (bs_ip_frequency s)(ip \<mapsto> \<lparr>ic_count = 1, ic_window_start = t0\<rparr>)\<rparr>"
  have first: "checkRate t0 ip s = (0, s')"
    using assms(1,2) by (simp add: checkRate_def Let_def s'_def)
  have "bs_ip_frequency s' ip = Some \<lparr>ic_count = 1, ic_window_start = t0\<rparr>" by (simp add: s'_def)
  from rate_run_window[OF assms(1) this assms(4)]
  have run: "rate_run ip (t0 # ts) s = 0 # map (\<lambda>i. rate_score (1 + int i + 1) 300) [0..<length ts]"
    using first assms(3) by (simp add: s'_def)
  have pos: "(0 < rate_score (1 + int i + 1) 300) = (300 < Suc i + 1)" if "i < length ts" for i
    using rate_score_pos[of "1 + int i + 1" 300] that assms(5) by auto
  have "map (\<lambda>i. 300 < i + 1) [0..<length ts + 1] = False # map (\<lambda>i. 300 < Suc i + 1) [0..<length ts]"
    by (simp add: upt_conv_Cons map_Suc_upt[symmetric] comp_def del: upt_Suc)
  then show ?thesis unfolding run using pos by simp
qed

lemma rate_anomaly_from_301_witness:
  "length (filter (\<lambda>r. 0 < r) (rate_run ''10.0.0.9'' (replicate 302 0) (NewBasicScorer ascii_only_lower))) = 2"
proof -
  have rep: "replicate 302 (0::int) = 0 # replicate 301 0" by (simp add: numeral_eq_Suc)
  define rs where "rs = rate_run ''10.0.0.9'' (replicate 302 0) (NewBasicScorer ascii_only_lower)"
  have "map (\<lambda>r. 0 < r) rs = map (\<lambda>i. 300 < i + 1) [0..<302]"
    unfolding rs_def rep
    using rate_anomaly_from_301[of "''10.0.0.9''" "NewBasicScorer ascii_only_lower" 0 "replicate 301 0"]
    by (simp add: NewBasicScorer_def list_all_iff time_sub_def)
  moreover have "length (filter (\<lambda>r. 0 < r) rs) = length (filter id (map (\<lambda>r. 0 < r) rs))"
    by (simp add: filter_map comp_def)
  moreover have "[0..<302] = [0..<300] @ [300, 301::nat]" by (simp add: upt_rec)
  ultimately have "length (filter (\<lambda>r. 0 < r) rs) = length (filter id (map (\<lambda>i. 300 < i + 1) [0..<300::nat])) + 2"
    by simp
  moreover have "filter id (map (\<lambda>i. 300 < i + 1) [0..<300::nat]) = []" by (auto simp: filter_empty_conv)
  ultimately show ?thesis by (simp add: rs_def)
qed

section \<open>Bridge\<close>

record BridgeScorer =
  br_socket_path :: string
  br_enabled :: bool
  br_timeout :: int

definition NewBridgeScorer :: "string \<Rightarrow> int \<Rightarrow> BridgeScorer" where
  "NewBridgeScorer socketPath timeout =
     \<lparr>br_socket_path = socketPath, br_enabled = True, br_timeout = timeout\<rparr>"

definition bridge_name :: string where "bridge_name = ''open-appsec''"

text \<open>
  The answer as the decoder fills it: the members in order, an error for a member of the wrong
  type; the text behind the first value is not read.
\<close>

definition decode_result :: "dyn \<Rightarrow> scorer_result option" where
  "decode_result v =
     (case v of
        DNull \<Rightarrow> Some zero_result
      | DMap ps \<Rightarrow>
          (let (vd, g1) = field conv_string ''verdict'' [] ps;
               (sc, g2) = field conv_float ''score'' 0 ps;
               (cf, g3) = field conv_float ''confidence'' 0 ps;
               (re, g4) = field conv_strings ''reasons'' [] ps;
               (an, g5) = field conv_strings ''anomalies'' [] ps;
               (mo, g6) = field conv_string ''model_name'' [] ps
           in if g1 \<and> g2 \<and> g3 \<and> g4 \<and> g5 \<and> g6
              then Some \<lparr>sr_verdict = vd, sr_score = sc, sr_confidence = cf, sr_reasons = re, sr_anomalies = an, sr_model = mo\<rparr>
              else None)
      | _ \<Rightarrow> None)"

datatype bridge_error = Unreachable string | Unhealthy nat | DecodeResponse

text \<open>\<^verbatim>\<open>client_do\<close> is the HTTP client on the Unix socket: an error, or the status and the body.\<close>

definition bridge_health :: "(string \<Rightarrow> string + nat) \<Rightarrow> BridgeScorer \<Rightarrow> bridge_error option" where
  "bridge_health client_get b =
     (case client_get ''http://unix/health'' of
        Inl e \<Rightarrow> Some (Unreachable e)
      | Inr status \<Rightarrow> if status \<noteq> 200 then Some (Unhealthy status) else None)"

definition EvaluateBridge :: "(features \<Rightarrow> string + string) \<Rightarrow> features \<Rightarrow> BridgeScorer \<Rightarrow> bridge_error + scorer_result" where
  "EvaluateBridge client_do f b =
     (if \<not> br_enabled b then Inr (zero_result\<lparr>sr_verdict := verdict_name LAllow, sr_model := bridge_name\<rparr>)
      else case client_do f of
        Inl e \<Rightarrow> Inr (zero_result\<lparr>sr_verdict := verdict_name LAllow,
                        sr_reasons := [''bridge unavailable: '' @ e], sr_model := bridge_name\<rparr>)
      | Inr body \<Rightarrow>
          (case decode_value (json_tokens body) of
             Decoded v _ \<Rightarrow>
               (case decode_result v of
                  Some r \<Rightarrow> Inr (r\<lparr>sr_model := bridge_name\<rparr>)
                | None \<Rightarrow> Inl DecodeResponse)
           | _ \<Rightarrow> Inl DecodeResponse))"

text \<open>
  the bridge fails open: without an answer it allows the request with score zero and never
  reports an error; an error is reported only for an answer that does not decode, and every
  result carries the bridge's own model name.
\<close>

lemma EvaluateBridge_fail_open:
  "(case EvaluateBridge client_do f b of
      Inl e \<Rightarrow> e = DecodeResponse \<and> br_enabled b \<and> (\<exists>body. client_do f = Inr body)
    | Inr r \<Rightarrow> sr_model r = ''open-appsec'' \<and>
        (br_enabled b \<or> sr_verdict r = ''allow'')) \<and>
   (case client_do f of
      Inl e \<Rightarrow> \<exists>r. EvaluateBridge client_do f b = Inr r \<and> sr_verdict r = ''allow'' \<and> sr_score r = 0
    | Inr body \<Rightarrow> True)"
  by (auto simp: EvaluateBridge_def bridge_name_def zero_result_def split: sum.splits decoded.splits option.splits)

text \<open>The stub that replaces the CGo bridge on other platforms allows everything.\<close>

definition stub_name :: string where "stub_name = ''open-appsec-cpp (stub)''"

definition EvaluateStub :: "features \<Rightarrow> bridge_error + scorer_result" where
  "EvaluateStub f = Inr (zero_result\<lparr>sr_verdict := verdict_name LAllow, sr_confidence := 1, sr_model := stub_name\<rparr>)"

end
