(* ===== verification/PluginChain.thy ===== *)
theory PluginChain
  imports GoHttp "HOL-Library.Multiset" "HOL-Library.AList"
begin

text \<open>
  \<^verbatim>\<open>internal/plugin\<close>: the plugin interface, the chain that runs plugins by phase and
  priority, and the registry of constructors. A Go interface value is a record of its
  methods. What a plugin keeps between calls (limiter buckets, say) lives in a shared
  world of type \<^verbatim>\<open>'w\<close> that \<^verbatim>\<open>Execute\<close> reads and updates.
\<close>

section \<open>Types\<close>

datatype plugin_phase =
  PhasePreRequest | PhasePostRequest | PhasePreResponse | PhasePostResponse | PhaseLog | PhaseCustom string

record plugin_ctx =
  cx_request :: "http_request option"
  cx_writer :: response
  cx_values :: "string \<Rightarrow> dyn option"
  cx_tags :: "string \<Rightarrow> string option"
  cx_status_code :: int
  cx_body_size :: int

definition NewContext :: "response \<Rightarrow> http_request \<Rightarrow> plugin_ctx" where
  "NewContext w r =
     \<lparr>cx_request = Some r, cx_writer = w, cx_values = Map.empty, cx_tags = Map.empty,
      cx_status_code = 0, cx_body_size = 0\<rparr>"

text \<open>\<^verbatim>\<open>ctx.Values[k].(string)\<close> in its two-value form.\<close>

definition value_string :: "plugin_ctx \<Rightarrow> string \<Rightarrow> string option" where
  "value_string ctx k = (case cx_values ctx k of None \<Rightarrow> None | Some v \<Rightarrow> as_string v)"

record 'w plugin =
  pl_name :: string
  pl_version :: string
  pl_description :: string
  pl_phase :: plugin_phase
  pl_priority :: int
  pl_execute :: "plugin_ctx \<Rightarrow> 'w \<Rightarrow> plugin_ctx \<times> 'w \<times> string option"
  pl_close :: "'w \<Rightarrow> 'w \<times> string option"

record metadata =
  md_name :: string
  md_version :: string
  md_description :: string
  md_author :: string
  md_license :: string
  md_phase :: plugin_phase
  md_priority :: int
  md_tags :: "string list"
  md_homepage :: string

section \<open>The chain\<close>

record 'w chain =
  ch_plugins :: "'w plugin list"
  ch_by_phase :: "plugin_phase \<Rightarrow> 'w plugin list option"

definition NewChain :: "'w chain" where
  "NewChain = \<lparr>ch_plugins = [], ch_by_phase = Map.empty\<rparr>"

definition phase_plugins :: "'w chain \<Rightarrow> plugin_phase \<Rightarrow> 'w plugin list" where
  "phase_plugins c ph = (case ch_by_phase c ph of None \<Rightarrow> [] | Some ps \<Rightarrow> ps)"

text \<open>\<^verbatim>\<open>sort.SliceStable\<close> by priority is the stable \<^const>\<open>sort_key\<close>.\<close>

definition chain_add :: "'w chain \<Rightarrow> 'w plugin \<Rightarrow> 'w chain" where
  "chain_add c p =
     c\<lparr>ch_plugins := ch_plugins c @ [p],
       ch_by_phase := (ch_by_phase c)(pl_phase p \<mapsto>
         sort_key pl_priority (phase_plugins c (pl_phase p) @ [p]))\<rparr>"

fun run_plugins :: "'w plugin list \<Rightarrow> plugin_ctx \<Rightarrow> 'w \<Rightarrow> plugin_ctx \<times> 'w \<times> string option" where
  "run_plugins [] ctx w = (ctx, w, None)"
| "run_plugins (p # ps) ctx w =
     (case pl_execute p ctx w of
        (ctx', w', Some e) \<Rightarrow> (ctx', w', Some (''plugin '' @ pl_name p @ '' error: '' @ e))
      | (ctx', w', None) \<Rightarrow> run_plugins ps ctx' w')"

definition chain_execute :: "'w chain \<Rightarrow> plugin_ctx \<Rightarrow> plugin_phase \<Rightarrow> 'w \<Rightarrow> plugin_ctx \<times> 'w \<times> string option" where
  "chain_execute c ctx ph w =
     (case ch_by_phase c ph of None \<Rightarrow> (ctx, w, None) | Some ps \<Rightarrow> run_plugins ps ctx w)"

fun close_plugins :: "'w plugin list \<Rightarrow> 'w \<Rightarrow> 'w \<times> string list" where
  "close_plugins [] w = (w, [])"
| "close_plugins (p # ps) w =
     (case pl_close p w of (w', r) \<Rightarrow>
        case close_plugins ps w' of (w'', errs) \<Rightarrow>
          (w'', (case r of None \<Rightarrow> errs | Some e \<Rightarrow> (''closing '' @ pl_name p @ '': '' @ e) # errs)))"

definition chain_close :: "'w chain \<Rightarrow> 'w \<Rightarrow> 'w \<times> string option" where
  "chain_close c w =
     (case close_plugins (ch_plugins c) w of (w', errs) \<Rightarrow>
        (w', if errs \<noteq> [] then Some (''plugin close errors: ['' @ str_join '' '' errs @ '']'') else None))"

section \<open>The registry\<close>

text \<open>
  A constructor with \<^verbatim>\<open>Init\<close> already applied: the configured plugin or the error. The order
  of iteration over a Go map is unspecified; here it is the order of the list.
\<close>

record 'w registry =
  reg_plugins :: "(string \<times> ((string \<times> dyn) list \<Rightarrow> string + 'w plugin)) list"
  reg_meta :: "(string \<times> metadata) list"

definition register :: "string \<Rightarrow> ((string \<times> dyn) list \<Rightarrow> string + 'w plugin) \<Rightarrow> metadata \<Rightarrow> 'w registry \<Rightarrow> 'w registry" where
  "register n c m r = \<lparr>reg_plugins = AList.update n c (reg_plugins r), reg_meta = AList.update n m (reg_meta r)\<rparr>"

definition registry_create :: "'w registry \<Rightarrow> string \<Rightarrow> (string \<times> dyn) list \<Rightarrow> string + 'w plugin" where
  "registry_create r n config =
     (case map_of (reg_plugins r) n of
        None \<Rightarrow> Inl (''plugin '' @ n @ '' not registered'')
      | Some c \<Rightarrow> (case c config of
            Inl e \<Rightarrow> Inl (''initializing plugin '' @ n @ '': '' @ e)
          | Inr p \<Rightarrow> Inr p))"

definition registry_list :: "'w registry \<Rightarrow> metadata list" where
  "registry_list r = map snd (reg_meta r)"

definition registry_get :: "'w registry \<Rightarrow> string \<Rightarrow> string + metadata" where
  "registry_get r n =
     (case map_of (reg_meta r) n of None \<Rightarrow> Inl (''plugin '' @ n @ '' not found'') | Some m \<Rightarrow> Inr m)"

section \<open>The chain invariant\<close>

text \<open>For every phase the chain holds the added plugins of that phase, stably sorted by priority.\<close>

definition chain_inv :: "'w chain \<Rightarrow> bool" where
  "chain_inv c \<longleftrightarrow> (\<forall>ph. phase_plugins c ph = sort_key pl_priority (filter (\<lambda>p. pl_phase p = ph) (ch_plugins c)))"

lemma sort_key_snoc_sorted: "sort_key f (sort_key f xs @ [x]) = sort_key f (xs @ [x])"
proof (rule properties_for_sort_key)
  fix k
  show "filter (\<lambda>y. f k = f y) (sort_key f (xs @ [x])) = filter (\<lambda>y. f k = f y) (sort_key f xs @ [x])"
    using sort_key_stable[of f "f k" "xs @ [x]"] sort_key_stable[of f "f k" xs] by (simp add: eq_commute)
qed auto

lemma chain_inv_new [waf_inv]: "chain_inv NewChain"
  by (simp add: chain_inv_def NewChain_def phase_plugins_def)

lemma phase_plugins_add:
  "phase_plugins (chain_add c p) ph =
     (if ph = pl_phase p then sort_key pl_priority (phase_plugins c ph @ [p]) else phase_plugins c ph)"
  by (simp add: phase_plugins_def chain_add_def)

lemma chain_inv_add [waf_inv]: "chain_inv c \<Longrightarrow> chain_inv (chain_add c p)"
  unfolding chain_inv_def phase_plugins_add
  by (simp add: chain_add_def sort_key_snoc_sorted)

definition build_chain :: "'w plugin list \<Rightarrow> 'w chain" where
  "build_chain ps = fold (\<lambda>p c. chain_add c p) ps NewChain"

lemma build_chain_phase:
  "phase_plugins (build_chain ps) ph = sort_key pl_priority (filter (\<lambda>p. pl_phase p = ph) ps)"
proof -
  have "chain_inv c \<Longrightarrow> chain_inv (fold (\<lambda>p c. chain_add c p) ps c) \<and>
      ch_plugins (fold (\<lambda>p c. chain_add c p) ps c) = ch_plugins c @ ps" for c :: "'a chain"
    by (induction ps arbitrary: c) (auto simp: chain_inv_add, simp add: chain_add_def)
  from this[of NewChain] have "chain_inv (build_chain ps)" "ch_plugins (build_chain ps) = ps"
    by (simp_all add: chain_inv_new build_chain_def) (simp add: NewChain_def)
  then show ?thesis by (simp add: chain_inv_def)
qed

lemma chain_execute_phase: "chain_execute c ctx ph w = run_plugins (phase_plugins c ph) ctx w"
  by (auto simp: chain_execute_def phase_plugins_def split: option.splits)

section \<open>Execution\<close>

lemma run_plugins_append:
  "run_plugins (ps @ qs) ctx w =
     (case run_plugins ps ctx w of
        (ctx', w', Some e) \<Rightarrow> (ctx', w', Some e)
      | (ctx', w', None) \<Rightarrow> run_plugins qs ctx' w')"
  by (induction ps arbitrary: ctx w) (auto split: prod.splits option.splits)

text \<open>An error of a plugin ends the run: the plugins behind it have no effect.\<close>

lemma run_plugins_stops:
  assumes "run_plugins ps ctx w = (ctx', w', Some e)"
  shows "\<exists>qs p us ctx0 w0 e0. ps = qs @ p # us \<and> run_plugins qs ctx w = (ctx0, w0, None) \<and>
     pl_execute p ctx0 w0 = (ctx', w', Some e0) \<and> e = ''plugin '' @ pl_name p @ '' error: '' @ e0"
  using assms
proof (induction ps arbitrary: ctx w)
  case (Cons p ps)
  obtain c1 w1 r where x: "pl_execute p ctx w = (c1, w1, r)" by (cases "pl_execute p ctx w")
  show ?case
  proof (cases r)
    case (Some e0)
    with x Cons.prems show ?thesis by (intro exI[of _ "[]"]) auto
  next
    case None
    with x Cons.prems have "run_plugins ps c1 w1 = (ctx', w', Some e)" by simp
    from Cons.IH[OF this] obtain qs q us ctx0 w0 e0 where
      "ps = qs @ q # us" "run_plugins qs c1 w1 = (ctx0, w0, None)" "pl_execute q ctx0 w0 = (ctx', w', Some e0)"
      "e = ''plugin '' @ pl_name q @ '' error: '' @ e0" by blast
    with x None show ?thesis by (intro exI[of _ "p # qs"]) auto
  qed
qed simp

text \<open>A property of the context that every plugin preserves holds after the run.\<close>

lemma run_plugins_inv:
  assumes "\<And>p c w c' w' r. p \<in> set ps \<Longrightarrow> P c w \<Longrightarrow> pl_execute p c w = (c', w', r) \<Longrightarrow> P c' w'"
  shows "P ctx w \<Longrightarrow> run_plugins ps ctx w = (ctx', w', r) \<Longrightarrow> P ctx' w'"
  using assms
proof (induction ps arbitrary: ctx w)
  case (Cons p ps)
  obtain c1 w1 q where x: "pl_execute p ctx w = (c1, w1, q)" by (cases "pl_execute p ctx w")
  with Cons.prems have P1: "P c1 w1" by (metis list.set_intros(1))
  show ?case
  proof (cases q)
    case None
    with x Cons.prems have "run_plugins ps c1 w1 = (ctx', w', r)" by simp
    with P1 show ?thesis by (rule Cons.IH) (metis Cons.prems(3) list.set_intros(2))
  next
    case (Some e)
    with x Cons.prems P1 show ?thesis by simp
  qed
qed simp

text \<open>
  a chain built by adding plugins in any order runs, for each phase, exactly the
  added plugins of that phase, by ascending priority and, among equal priorities, in the
  order in which they were added.
\<close>

lemma chain_runs_by_priority:
  "chain_execute (build_chain ps) ctx ph w =
     run_plugins (sort_key pl_priority (filter (\<lambda>p. pl_phase p = ph) ps)) ctx w \<and>
   sorted (map pl_priority (phase_plugins (build_chain ps) ph)) \<and>
   mset (phase_plugins (build_chain ps) ph) = mset (filter (\<lambda>p. pl_phase p = ph) ps) \<and>
   filter (\<lambda>p. pl_priority p = k) (phase_plugins (build_chain ps) ph) =
     filter (\<lambda>p. pl_priority p = k) (filter (\<lambda>p. pl_phase p = ph) ps)"
  unfolding chain_execute_phase build_chain_phase by (simp add: sort_key_stable)

section \<open>The registry\<close>

lemma registry_create_registered:
  "registry_create (register n c m r) n config =
     (case c config of Inl e \<Rightarrow> Inl (''initializing plugin '' @ n @ '': '' @ e) | Inr p \<Rightarrow> Inr p)"
  by (simp add: registry_create_def register_def update_conv')

lemma registry_create_other:
  "k \<noteq> n \<Longrightarrow> registry_create (register n c m r) k config = registry_create r k config"
  by (simp add: registry_create_def register_def update_conv')

lemma registry_get_registered:
  "registry_get (register n c m r) k = (if k = n then Inr m else registry_get r k)"
  by (simp add: registry_get_def register_def update_conv')

end
