(* ===== verification/Parsers.thy ===== *)
theory Parsers
  imports GoJson GoHttp
begin

text \<open>
  \<^verbatim>\<open>internal/parsers\<close>: the inspection of GraphQL bodies and of file uploads. Lower casing
  beyond ASCII is Unicode's table, an argument \<^verbatim>\<open>ul\<close>.
\<close>

section \<open>GraphQL\<close>

record GraphQLResult =
  gr_is_graphql :: bool
  gr_is_introspection :: bool
  gr_query_depth :: int
  gr_is_batched :: bool
  gr_issues :: "string list"

definition no_graphql :: GraphQLResult where
  "no_graphql = \<lparr>gr_is_graphql = False, gr_is_introspection = False, gr_query_depth = 0, gr_is_batched = False, gr_issues = []\<rparr>"

definition introspectionFields :: "string list" where
  "introspectionFields =
     [''__schema'', ''__type'', ''__typename'', ''queryType'', ''mutationType'', ''subscriptionType'',
      ''types'', ''fields'', ''inputFields'', ''interfaces'', ''enumValues'', ''possibleTypes'', ''directives'',
      ''args'', ''defaultValue'', ''locations'']"

text \<open>Whether a text, lowered, contains one of the lowered patterns.\<close>

definition lower_contains_any :: "(nat \<Rightarrow> nat) \<Rightarrow> string list \<Rightarrow> string \<Rightarrow> bool" where
  "lower_contains_any ul ps s = list_ex (\<lambda>p. str_contains (to_lower ul s) p) ps"

definition isGraphQLContentType :: "(nat \<Rightarrow> nat) \<Rightarrow> string \<Rightarrow> bool" where
  "isGraphQLContentType ul ct = lower_contains_any ul [''application/graphql'', ''application/json''] ct"

fun depth_loop :: "nat list \<Rightarrow> int \<Rightarrow> int \<Rightarrow> int" where
  "depth_loop [] depth maxDepth = maxDepth"
| "depth_loop (c # cs) depth maxDepth =
     (if c = byte (CHR ''{'') then depth_loop cs (depth + 1) (if maxDepth < depth + 1 then depth + 1 else maxDepth)
      else if c = byte (CHR ''}'') then depth_loop cs (depth - 1) maxDepth
      else depth_loop cs depth maxDepth)"

definition calculateQueryDepth :: "(nat \<Rightarrow> nat) \<Rightarrow> string \<Rightarrow> int" where
  "calculateQueryDepth ul query = depth_loop (runes (to_lower ul query)) 0 0"

definition detectIntrospection :: "(nat \<Rightarrow> nat) \<Rightarrow> string \<Rightarrow> bool" where
  "detectIntrospection ul query = lower_contains_any ul (map (to_lower ul) introspectionFields) query"

definition sqli_patterns :: "string list" where
  "sqli_patterns =
     [''union select'', CHR 0x27 # '' or '', ''or 1=1'', ''or '' @ [CHR 0x27] @ ''1'' @ [CHR 0x27] @ ''='' @ [CHR 0x27] @ ''1'',
      ''--'', ''information_schema'', ''load_file('']"

definition detectSQLi :: "(nat \<Rightarrow> nat) \<Rightarrow> string \<Rightarrow> bool" where
  "detectSQLi ul s = lower_contains_any ul sqli_patterns s"

definition xss_patterns :: "string list" where
  "xss_patterns = [''<script'', ''javascript:'', ''onerror='', ''alert('']"

definition detectXSS :: "(nat \<Rightarrow> nat) \<Rightarrow> string \<Rightarrow> bool" where
  "detectXSS ul s = lower_contains_any ul xss_patterns s"

definition suspicious_value :: "(nat \<Rightarrow> nat) \<Rightarrow> dyn \<Rightarrow> bool" where
  "suspicious_value ul v = (case v of DStr s \<Rightarrow> detectSQLi ul s \<or> detectXSS ul s | _ \<Rightarrow> False)"

definition checkSuspiciousVariables :: "(nat \<Rightarrow> nat) \<Rightarrow> (string \<times> dyn) list \<Rightarrow> string list \<Rightarrow> string list" where
  "checkSuspiciousVariables ul vars issues =
     (if list_ex (\<lambda>(k, v). suspicious_value ul v) vars
      then issues @ [''suspicious variable value detected''] else issues)"

text \<open>The request object and its decoding; \<^verbatim>\<open>None\<close> is an error.\<close>

record gql_request =
  gq_query :: string
  gq_operation :: string
  gq_variables :: "(string \<times> dyn) list"

fun decode_gql :: "dyn \<Rightarrow> gql_request option" where
  "decode_gql (DMap ps) =
     (let (q, g1) = field conv_string ''query'' [] ps;
          (n, g2) = field conv_string ''operationName'' [] ps;
          (v, g3) = field conv_map ''variables'' [] ps
      in if g1 \<and> g2 \<and> g3 then Some \<lparr>gq_query = q, gq_operation = n, gq_variables = v\<rparr> else None)"
| "decode_gql DNull = Some \<lparr>gq_query = [], gq_operation = [], gq_variables = []\<rparr>"
| "decode_gql _ = None"

fun decode_batch :: "dyn list \<Rightarrow> gql_request list option" where
  "decode_batch [] = Some []"
| "decode_batch (v # vs) =
     (case decode_gql v of
        None \<Rightarrow> None
      | Some q \<Rightarrow> (case decode_batch vs of None \<Rightarrow> None | Some qs \<Rightarrow> Some (q # qs)))"

definition decode_batched :: "dyn \<Rightarrow> gql_request list option" where
  "decode_batched v = (case v of DList vs \<Rightarrow> decode_batch vs | DNull \<Rightarrow> Some [] | _ \<Rightarrow> None)"

definition inspect_single :: "(nat \<Rightarrow> nat) \<Rightarrow> gql_request \<Rightarrow> GraphQLResult" where
  "inspect_single ul q =
     (let depth = calculateQueryDepth ul (gq_query q);
          intro = detectIntrospection ul (gq_query q);
          issues = (if 20 < depth then [''query depth exceeds limit (>20)''] else []);
          issues = (if intro then issues @ [''introspection query detected''] else issues)
      in \<lparr>gr_is_graphql = True, gr_is_introspection = intro, gr_query_depth = depth, gr_is_batched = False,
          gr_issues = checkSuspiciousVariables ul (gq_variables q) issues\<rparr>)"

fun batch_loop :: "(nat \<Rightarrow> nat) \<Rightarrow> gql_request list \<Rightarrow> GraphQLResult \<Rightarrow> GraphQLResult" where
  "batch_loop ul [] r = r"
| "batch_loop ul (q # qs) r =
     (let depth = calculateQueryDepth ul (gq_query q);
          r = (if gr_query_depth r < depth then r\<lparr>gr_query_depth := depth\<rparr> else r);
          r = (if detectIntrospection ul (gq_query q) then r\<lparr>gr_is_introspection := True\<rparr> else r);
          r = r\<lparr>gr_issues := checkSuspiciousVariables ul (gq_variables q) (gr_issues r)\<rparr>
      in batch_loop ul qs r)"

definition inspect_batch :: "(nat \<Rightarrow> nat) \<Rightarrow> gql_request list \<Rightarrow> GraphQLResult" where
  "inspect_batch ul qs =
     (let r = no_graphql\<lparr>gr_is_graphql := True, gr_is_batched := True,
            gr_issues := (if 10 < length qs then [''batched query exceeds limit (>10)''] else [])\<rparr>;
          r = batch_loop ul qs r
      in if gr_is_introspection r then r\<lparr>gr_issues := gr_issues r @ [''introspection query detected'']\<rparr> else r)"

definition InspectGraphQL :: "(nat \<Rightarrow> nat) \<Rightarrow> string \<Rightarrow> string \<Rightarrow> GraphQLResult" where
  "InspectGraphQL ul contentType body =
     (if \<not> isGraphQLContentType ul contentType then no_graphql
      else case Option.bind (json_parse body) decode_gql of
        Some q \<Rightarrow>
          if gq_query q \<noteq> [] then inspect_single ul q
          else (case Option.bind (json_parse body) decode_batched of
                  Some qs \<Rightarrow> if qs \<noteq> [] then inspect_batch ul qs else no_graphql
                | None \<Rightarrow> no_graphql)
      | None \<Rightarrow>
          (case Option.bind (json_parse body) decode_batched of
             Some qs \<Rightarrow> if qs \<noteq> [] then inspect_batch ul qs else no_graphql
           | None \<Rightarrow> no_graphql))"

subsection \<open>Depth\<close>

text \<open>The excess of opening over closing braces in a text.\<close>

definition brace_level :: "string \<Rightarrow> int" where
  "brace_level s = int (count_byte s (CHR ''{'')) - int (count_byte s (CHR ''}''))"

lemma depth_loop_step:
  "depth_loop (byte c # cs) d m =
     (let d' = d + brace_level [c] in depth_loop cs d' (if c = CHR ''{'' \<and> m < d' then d' else m))"
  unfolding depth_loop.simps of_char_eq_iff by (simp add: brace_level_def count_byte_def Let_def)

lemma brace_level_Cons: "brace_level (c # s) = brace_level [c] + brace_level s"
  by (simp add: brace_level_def count_byte_def)

lemma depth_loop_bounds:
  "d \<le> m \<Longrightarrow> m \<le> depth_loop (map byte s) d m \<and>
   (\<forall>k \<le> length s. d + brace_level (take k s) \<le> depth_loop (map byte s) d m) \<and>
   (depth_loop (map byte s) d m = m \<or> (\<exists>k \<le> length s. depth_loop (map byte s) d m = d + brace_level (take k s)))"
proof (induction s arbitrary: d m)
  case Nil
  then show ?case by (simp add: brace_level_def count_byte_def)
next
  case (Cons c s)
  define d' where "d' = d + brace_level [c]"
  define m' where "m' = (if c = CHR ''{'' \<and> m < d' then d' else m)"
  have run: "depth_loop (map byte (c # s)) d m = depth_loop (map byte s) d' m'"
    unfolding list.map depth_loop_step Let_def d'_def m'_def ..
  have lev: "brace_level [c] = (if c = CHR ''{'' then 1 else if c = CHR ''}'' then -1 else 0)"
    by (simp add: brace_level_def count_byte_def)
  have dm: "d' \<le> m'" "m \<le> m'" using Cons.prems lev by (auto simp: d'_def m'_def)
  note ih = Cons.IH[OF dm(1)]
  have shift: "d' + brace_level (take k s) = d + brace_level (take (Suc k) (c # s))" for k
    using brace_level_Cons[of c "take k s"] by (simp add: d'_def)
  have zero: "brace_level (take 0 (c # s)) = 0" by (simp add: brace_level_def count_byte_def)
  show ?case
  proof (intro conjI allI impI)
    show "m \<le> depth_loop (map byte (c # s)) d m" using ih dm run by linarith
    fix k assume "k \<le> length (c # s)"
    then show "d + brace_level (take k (c # s)) \<le> depth_loop (map byte (c # s)) d m"
    proof (cases k)
      case 0
      then show ?thesis using zero Cons.prems ih dm run by simp
    next
      case (Suc j)
      then show ?thesis using ih shift[of j] run \<open>k \<le> length (c # s)\<close> by (metis Suc_le_mono length_Cons)
    qed
  next
    have "m' = m \<or> m' = d + brace_level (take 1 (c # s))" by (auto simp: m'_def d'_def)
    then show "depth_loop (map byte (c # s)) d m = m \<or>
        (\<exists>k \<le> length (c # s). depth_loop (map byte (c # s)) d m = d + brace_level (take k (c # s)))"
      using ih shift run by (metis Suc_le_mono length_Cons One_nat_def Suc_leI zero_less_Suc)
  qed
qed

text \<open>
  the depth of an ASCII query is the largest excess of opening over closing braces at any
  point of it: no point is deeper, and some point (the start, for a query that never opens)
  is that deep.
\<close>

lemma query_depth_is_max_level:
  assumes "ascii q"
  shows "(\<forall>k. brace_level (take k q) \<le> calculateQueryDepth ul q) \<and>
     (\<exists>k. calculateQueryDepth ul q = brace_level (take k q)) \<and> 0 \<le> calculateQueryDepth ul q"
proof -
  have low: "ascii_lower c = b \<longleftrightarrow> c = b" if "b \<in> {CHR ''{'', CHR ''}''}" for c b
  proof -
    have "byte b = 123 \<or> byte b = 125" using that by auto
    then have "byte (ascii_lower c) = (byte b :: nat) \<longleftrightarrow> byte c = (byte b :: nat)" by (auto simp: byte_lower)
    then show ?thesis by (simp only: byte_eq_iff)
  qed
  have cb: "count_byte (map ascii_lower s) b = count_byte s b" if "b \<in> {CHR ''{'', CHR ''}''}" for s b
    using low[OF that] by (simp add: count_byte_def filter_map comp_def)
  have lv: "brace_level (map ascii_lower s) = brace_level s" for s
    by (simp add: brace_level_def cb)
  define s where "s = map ascii_lower q"
  have "ascii s" using assms by (simp add: s_def ascii_def list_all_iff)
  then have d: "calculateQueryDepth ul q = depth_loop (map byte s) 0 0"
    using assms by (simp add: calculateQueryDepth_def to_lower_ascii runes_ascii s_def)
  have tk: "brace_level (take k s) = brace_level (take k q)" for k
    by (simp add: s_def take_map lv)
  note b = depth_loop_bounds[of 0 0 s, simplified, folded d]
  have all: "brace_level (take k q) \<le> calculateQueryDepth ul q" for k
  proof (cases "k \<le> length s")
    case True
    then show ?thesis using b tk by auto
  next
    case False
    then have "take k q = take (length s) q" by (simp add: s_def)
    then show ?thesis using b tk[of "length s"] by auto
  qed
  have "brace_level (take 0 q) = 0" by (simp add: brace_level_def count_byte_def)
  then show ?thesis using b tk all by metis
qed

lemma query_depth_is_max_level_witness:
  "3 \<le> calculateQueryDepth id ''{a{b{c}}d{e}}''"
proof -
  have "brace_level (take 6 ''{a{b{c}}d{e}}'') = 3" by (simp add: brace_level_def count_byte_def)
  moreover have "ascii ''{a{b{c}}d{e}}''" by simp
  ultimately show ?thesis using query_depth_is_max_level[of "''{a{b{c}}d{e}}''" id] by metis
qed

subsection \<open>Detection\<close>

lemma lower_contains_anyI:
  assumes "ascii_table ul" "p \<in> set ps" "ascii w" "map ascii_lower w = p" "str_contains s w"
  shows "lower_contains_any ul ps s"
  using assms to_lower_contains_lower[OF assms(1,3,4,5)] by (auto simp: lower_contains_any_def list_ex_iff)

text \<open>
  no change of letter case and no surrounding text hides an attack: a text that contains
  one of the listed patterns in any mixture of cases is detected, whatever bytes (valid UTF-8
  or not) are around it.
\<close>

lemma detection_ignores_case:
  assumes "ascii_table ul" "ascii w" "str_contains s w"
  shows "(map ascii_lower w \<in> set sqli_patterns \<longrightarrow> detectSQLi ul s) \<and>
     (map ascii_lower w \<in> set xss_patterns \<longrightarrow> detectXSS ul s) \<and>
     (map ascii_lower w \<in> map ascii_lower ` set introspectionFields \<longrightarrow> detectIntrospection ul s)"
proof -
  have "list_all ascii introspectionFields" by (simp add: introspectionFields_def)
  then have "map ascii_lower ` set introspectionFields = set (map (to_lower ul) introspectionFields)"
    by (auto simp: list_all_iff to_lower_ascii)
  then show ?thesis
    using lower_contains_anyI[OF assms(1) _ assms(2) refl assms(3)]
    unfolding detectIntrospection_def detectSQLi_def detectXSS_def by metis
qed

lemma detection_ignores_case_witness: "detectSQLi ascii_only_lower ([CHR 0xFF] @ ''1 UnIoN SeLeCt'' @ '' x'')"
proof -
  have "str_contains ([CHR 0xFF] @ ''1 UnIoN SeLeCt'' @ '' x'') ''UnIoN SeLeCt''"
    using str_containsI[of "[CHR 0xFF] @ ''1 ''" "''UnIoN SeLeCt''" "'' x''"] by (simp only: append_Cons append_Nil)
  moreover have "map ascii_lower ''UnIoN SeLeCt'' = ''union select''" by code_simp
  then have "map ascii_lower ''UnIoN SeLeCt'' \<in> set sqli_patterns" by (simp add: sqli_patterns_def)
  moreover have "ascii ''UnIoN SeLeCt''" by simp
  ultimately show ?thesis using detection_ignores_case[OF ascii_only_lower_table] by blast
qed

section \<open>File uploads\<close>

record FileUploadResult =
  up_is_upload :: bool
  up_content_type :: string
  up_extension :: string
  up_size :: nat
  up_is_executable :: bool
  up_magic_match :: bool
  up_issues :: "string list"

definition blockedExtensions :: "string list" where
  "blockedExtensions =
     [''.exe'', ''.dll'', ''.so'', ''.dylib'', ''.sh'', ''.bash'', ''.php'', ''.jsp'', ''.asp'', ''.aspx'', ''.cgi'',
      ''.pl'', ''.py'', ''.rb'', ''.war'', ''.jar'', ''.class'']"

definition blockedContentTypes :: "string list" where
  "blockedContentTypes =
     [''application/x-msdownload'', ''application/x-msdos-program'', ''application/x-msi'', ''application/x-sh'',
      ''application/x-shockwave-flash'']"

text \<open>No type is a prefix of another, so the order of the map does not matter.\<close>

definition magicSignatures :: "(string \<times> nat list) list" where
  "magicSignatures =
     [(''image/jpeg'', [0xFF, 0xD8, 0xFF]), (''image/png'', [0x89, 0x50, 0x4E, 0x47]), (''image/gif'', [0x47, 0x49, 0x46]),
      (''application/pdf'', [0x25, 0x50, 0x44, 0x46]), (''application/zip'', [0x50, 0x4B, 0x03, 0x04]),
      (''application/x-gzip'', [0x1F, 0x8B]), (''audio/mpeg'', [0xFF, 0xFB])]"

definition isUpload :: "(nat \<Rightarrow> nat) \<Rightarrow> string \<Rightarrow> string \<Rightarrow> bool" where
  "isUpload ul contentType body =
     (has_prefix contentType ''multipart/form-data'' \<or>
      (body \<noteq> [] \<and>
       list_ex (\<lambda>p. has_prefix (to_lower ul contentType) p)
         [''image/'', ''application/octet-stream'', ''application/pdf'', ''application/zip'']))"

definition validateMagicBytes :: "(nat \<Rightarrow> nat) \<Rightarrow> string \<Rightarrow> string \<Rightarrow> bool" where
  "validateMagicBytes ul contentType data =
     (if length data < 4 then True
      else case find (\<lambda>(ct, magic). has_prefix (to_lower ul contentType) ct) magicSignatures of
        None \<Rightarrow> True
      | Some (ct, magic) \<Rightarrow> length magic \<le> length data \<and> map byte (take (length magic) data) = magic)"

definition InspectFileUpload :: "(nat \<Rightarrow> nat) \<Rightarrow> http_request \<Rightarrow> string \<Rightarrow> FileUploadResult" where
  "InspectFileUpload ul r body =
     (let ct = header_get (rq_headers r) ''Content-Type'';
          result = \<lparr>up_is_upload = False, up_content_type = ct, up_extension = [], up_size = length body,
            up_is_executable = False, up_magic_match = False, up_issues = []\<rparr>
      in if \<not> isUpload ul ct body then result
         else
           let result = result\<lparr>up_is_upload := True\<rparr>;
               result = (case find (\<lambda>ext. has_suffix (to_lower ul (rq_path r)) ext) blockedExtensions of
                   Some ext \<Rightarrow> result\<lparr>up_extension := ext, up_issues := up_issues result @ [''blocked extension: '' @ ext]\<rparr>
                 | None \<Rightarrow> result);
               result = (case find (\<lambda>b. str_contains (to_lower ul ct) b) blockedContentTypes of
                   Some b \<Rightarrow> result\<lparr>up_issues := up_issues result @ [''blocked content type: '' @ b], up_is_executable := True\<rparr>
                 | None \<Rightarrow> result);
               magic = validateMagicBytes ul ct body;
               result = result\<lparr>up_magic_match := magic\<rparr>;
               result = (if \<not> magic \<and> 4 < length body
                 then result\<lparr>up_issues := up_issues result @ [''content-type does not match file signature'']\<rparr> else result)
           in if 50 * 1024 * 1024 < up_size result
              then result\<lparr>up_issues := up_issues result @ [''file size exceeds limit (50MB)'']\<rparr> else result)"

text \<open>
  an upload is reported without issues exactly if its path has no blocked extension, its
  content type names no blocked type, its first bytes are the signature of the declared type
  (where the type has one and the body more than four bytes) and it has at most 50 MB.
\<close>

lemma upload_clean:
  "let r' = InspectFileUpload ul r body; ct = header_get (rq_headers r) ''Content-Type''
   in (up_is_upload r' \<and> up_issues r' = []) =
      (isUpload ul ct body \<and>
       list_all (\<lambda>ext. \<not> has_suffix (to_lower ul (rq_path r)) ext) blockedExtensions \<and>
       list_all (\<lambda>b. \<not> str_contains (to_lower ul ct) b) blockedContentTypes \<and>
       (validateMagicBytes ul ct body \<or> length body \<le> 4) \<and>
       length body \<le> 50 * 1024 * 1024)"
proof -
  define ct where "ct = header_get (rq_headers r) ''Content-Type''"
  have f: "find P xs = None \<longleftrightarrow> list_all (\<lambda>x. \<not> P x) xs" for P and xs :: "string list"
    by (auto simp: find_None_iff list_all_iff)
  define fe where "fe = find (\<lambda>ext. has_suffix (to_lower ul (rq_path r)) ext) blockedExtensions"
  define fb where "fb = find (\<lambda>b. str_contains (to_lower ul ct) b) blockedContentTypes"
  show ?thesis
    unfolding f[symmetric] Let_def InspectFileUpload_def ct_def[symmetric] fe_def[symmetric] fb_def[symmetric]
    by (cases fe; cases fb) (auto split: if_splits)
qed

lemma validateMagicBytes_png:
  "has_prefix (to_lower ul ct) ''image/png'' \<Longrightarrow> 4 \<le> length data \<Longrightarrow>
   validateMagicBytes ul ct data = (map byte (take 4 data) = [0x89, 0x50, 0x4E, 0x47])"
  by (auto simp: validateMagicBytes_def magicSignatures_def has_prefix_iff eval_nat_numeral)

end
