(* ===== verification/Plugins.thy ===== *)
theory Plugins
  imports PluginChain Parsers RateLimit GoNet
begin

text \<open>
  The four plugins under \<^verbatim>\<open>plugins/\<close>: request validation, bot protection, geographic
  blocking and rate limiting. The GeoIP database and the Redis client are arguments or part
  of the world. Reading a field of a missing request is a nil dereference, \<^verbatim>\<open>None\<close>; the sidecar
  always passes a request. The contract that the sidecar relies on, that a plugin that fails
  has answered the request and one that succeeds has not touched the answer, is the locale
  \<open>answering_plugin\<close>.
\<close>

section \<open>Answers\<close>

text \<open>The block of statements with which every plugin denies a request.\<close>

definition plugin_deny :: "nat \<Rightarrow> piece \<Rightarrow> plugin_ctx \<Rightarrow> plugin_ctx" where
  "plugin_deny code body ctx =
     ctx\<lparr>cx_status_code := int code,
         cx_writer := write_piece body (write_header code
           (set_header ''Content-Type'' ''application/json'' (cx_writer ctx)))\<rparr>"

definition set_tag :: "string \<Rightarrow> string \<Rightarrow> plugin_ctx \<Rightarrow> plugin_ctx" where
  "set_tag k v ctx = ctx\<lparr>cx_tags := (cx_tags ctx)(k \<mapsto> v)\<rparr>"

type_synonym plugin_outcome = "(plugin_ctx \<times> string option) option"

text \<open>The outcome as a method of the plugin interface; net/http recovers from the panic.\<close>

definition lift_outcome :: "(plugin_ctx \<Rightarrow> plugin_outcome) \<Rightarrow> plugin_ctx \<Rightarrow> 'w \<Rightarrow> plugin_ctx \<times> 'w \<times> string option" where
  "lift_outcome f ctx w =
     (case f ctx of Some (ctx', e) \<Rightarrow> (ctx', w, e) | None \<Rightarrow> (ctx, w, Some ''nil pointer dereference''))"

section \<open>Request validation\<close>

record RequestValidationPlugin =
  rv_enabled :: bool
  rv_max_body_size :: int
  rv_allowed_content_types :: "string list"
  rv_block_patterns :: "string list"

definition block_patterns :: "string list" where
  "block_patterns =
     [''../'', ''..'' @ [CHR 0x5C], ''<script'', ''</script>'', ''javascript:'', ''onerror='', ''onload='',
      ''union select'', ''union/**/select'', ''or 1=1'',
      [CHR 0x27] @ '' or '' @ [CHR 0x27] @ ''1'' @ [CHR 0x27] @ ''='' @ [CHR 0x27] @ ''1'',
      ''exec('', ''system('', ''${'', ''{{'']"

definition dyn_strings :: "dyn list \<Rightarrow> string list" where
  "dyn_strings vs = List.map_filter as_string vs"

definition init_validation :: "(string \<times> dyn) list \<Rightarrow> RequestValidationPlugin" where
  "init_validation config =
     \<lparr>rv_enabled = True,
      rv_max_body_size = (case as_int (dyn_get config ''max_body_size'') of Some n \<Rightarrow> n | None \<Rightarrow> 10 * 1024 * 1024),
      rv_allowed_content_types =
        (case as_list (dyn_get config ''allowed_content_types'') of Some vs \<Rightarrow> dyn_strings vs | None \<Rightarrow> []),
      rv_block_patterns = block_patterns\<rparr>"

text \<open>The URI as the patterns see it.\<close>

definition decoded_uri :: "plugin_ctx \<Rightarrow> string" where
  "decoded_uri ctx =
     replace_byte (CHR ''+'') '' ''
       (case value_string ctx ''wn_uri'' of
          None \<Rightarrow> []
        | Some s \<Rightarrow> (case query_unescape s of Some d \<Rightarrow> d | None \<Rightarrow> s))"

definition find_pattern :: "(nat \<Rightarrow> nat) \<Rightarrow> string list \<Rightarrow> string \<Rightarrow> string option" where
  "find_pattern ul ps s = find (\<lambda>p. str_contains (to_lower ul s) (to_lower ul p)) ps"

definition validate_body ::
    "(nat \<Rightarrow> nat) \<Rightarrow> RequestValidationPlugin \<Rightarrow> string \<Rightarrow> string \<Rightarrow> plugin_ctx \<Rightarrow> plugin_outcome" where
  "validate_body ul p contentType body ctx =
     (case find_pattern ul (rv_block_patterns p) body of
        Some pattern \<Rightarrow>
          Some (set_tag ''waf_pattern'' pattern (set_tag ''waf_blocked'' ''true''
                  (plugin_deny 403 (Raw ''{\"error\":\"malicious request detected\"}'') ctx)),
                Some (''waf pattern matched in body: '' @ pattern))
      | None \<Rightarrow>
          let gql = InspectGraphQL ul contentType body in
          if gr_is_graphql gql \<and> gr_issues gql \<noteq> []
          then Some (set_tag ''waf_graphql_depth'' (itoa (gr_query_depth gql)) (set_tag ''waf_blocked'' ''true''
                  (plugin_deny 403 (Json (DMap [(''error'', DStr (''graphql validation failed: '' @ str_join ''; '' (gr_issues gql)))])) ctx)),
                Some (''graphql validation: '' @ str_join ''; '' (gr_issues gql)))
          else case cx_request ctx of
            None \<Rightarrow> None
          | Some r \<Rightarrow>
              let up = InspectFileUpload ul r body in
              if up_is_upload up \<and> up_issues up \<noteq> []
              then Some (set_tag ''waf_blocked'' ''true''
                  (plugin_deny 403 (Json (DMap [(''error'', DStr (''file upload validation failed: '' @ str_join ''; '' (up_issues up)))])) ctx),
                Some (''file upload validation: '' @ str_join ''; '' (up_issues up)))
              else Some (ctx, None))"

definition content_type_denied :: "RequestValidationPlugin \<Rightarrow> string \<Rightarrow> http_request option \<Rightarrow> bool option" where
  "content_type_denied p contentType r =
     (if rv_allowed_content_types p = [] \<or> list_ex (has_prefix contentType) (rv_allowed_content_types p) then Some False
      else case r of None \<Rightarrow> None | Some r \<Rightarrow> Some (0 < rq_content_length r))"

definition execute_validation :: "(nat \<Rightarrow> nat) \<Rightarrow> RequestValidationPlugin \<Rightarrow> plugin_ctx \<Rightarrow> plugin_outcome" where
  "execute_validation ul p ctx =
     (if \<not> rv_enabled p then Some (ctx, None)
      else
        let contentType = (case value_string ctx ''wn_ct'' of Some s \<Rightarrow> s | None \<Rightarrow> []) in
        case content_type_denied p contentType (cx_request ctx) of
          None \<Rightarrow> None
        | Some True \<Rightarrow>
            Some (plugin_deny 415 (Raw ''{\"error\":\"unsupported content type\"}'') ctx,
                  Some (''unsupported content type: '' @ contentType))
        | Some False \<Rightarrow>
           (case find_pattern ul (rv_block_patterns p) (decoded_uri ctx) of
              Some pattern \<Rightarrow>
                Some (set_tag ''waf_pattern'' pattern (set_tag ''waf_blocked'' ''true''
                        (plugin_deny 403 (Raw ''{\"error\":\"malicious request detected\"}'') ctx)),
                      Some (''waf pattern matched in URL: '' @ pattern))
            | None \<Rightarrow>
               (case value_string ctx ''wn_body'' of
                  None \<Rightarrow> Some (ctx, None)
                | Some body \<Rightarrow> if body \<noteq> [] then validate_body ul p contentType body ctx else Some (ctx, None))))"

definition validation_plugin :: "(nat \<Rightarrow> nat) \<Rightarrow> RequestValidationPlugin \<Rightarrow> 'w plugin" where
  "validation_plugin ul p =
     \<lparr>pl_name = ''request-validation'', pl_version = ''1.0.0'', pl_description = ''Request validation plugin'',
      pl_phase = PhasePreRequest, pl_priority = 25,
      pl_execute = lift_outcome (execute_validation ul p), pl_close = (\<lambda>w. (w, None))\<rparr>"

section \<open>Bot protection\<close>

record BotProtectionPlugin =
  bp_enabled :: bool
  bp_challenge_type :: string
  bp_mode :: string
  bp_known_bots :: "string list"

definition init_bot :: "(string \<times> dyn) list \<Rightarrow> BotProtectionPlugin" where
  "init_bot config =
     \<lparr>bp_enabled = True,
      bp_challenge_type = (case as_string (dyn_get config ''challenge_type'') of Some s \<Rightarrow> s | None \<Rightarrow> ''js''),
      bp_mode = (case as_string (dyn_get config ''mode'') of Some s \<Rightarrow> s | None \<Rightarrow> ''log''),
      bp_known_bots = [''curl'', ''wget'', ''python-requests'', ''Go-http-client'', ''libwww-perl'']\<rparr>"

definition bot_user_agent :: "plugin_ctx \<Rightarrow> string option" where
  "bot_user_agent ctx =
     (let ua = (case value_string ctx ''wn_ua'' of Some s \<Rightarrow> s | None \<Rightarrow> [])
      in if ua = [] then map_option (\<lambda>r. header_get (rq_headers r) ''User-Agent'') (cx_request ctx) else Some ua)"

definition execute_bot :: "(nat \<Rightarrow> nat) \<Rightarrow> BotProtectionPlugin \<Rightarrow> plugin_ctx \<Rightarrow> plugin_outcome" where
  "execute_bot ul p ctx =
     (if \<not> bp_enabled p then Some (ctx, None)
      else case bot_user_agent ctx of
        None \<Rightarrow> None
      | Some ua \<Rightarrow>
         (case find_pattern ul (bp_known_bots p) ua of
            None \<Rightarrow> Some (ctx, None)
          | Some name \<Rightarrow>
              let ctx = set_tag ''bot_user_agent'' ua (set_tag ''bot_detected'' ''true'' ctx)
              in if bp_mode p = ''block''
                 then Some (plugin_deny 403 (Raw ''{\"error\":\"bot access denied\"}'') ctx, Some (''bot access denied: '' @ name))
                 else Some (ctx, None)))"

definition bot_plugin :: "(nat \<Rightarrow> nat) \<Rightarrow> BotProtectionPlugin \<Rightarrow> 'w plugin" where
  "bot_plugin ul p =
     \<lparr>pl_name = ''bot-protection'', pl_version = ''1.0.0'', pl_description = ''Bot protection plugin'',
      pl_phase = PhasePreRequest, pl_priority = 75,
      pl_execute = lift_outcome (execute_bot ul p), pl_close = (\<lambda>w. (w, None))\<rparr>"

section \<open>Geographic blocking\<close>

text \<open>The database reader maps an address to the country code or an error.\<close>

record GeoBlockPlugin =
  gb_enabled :: bool
  gb_allowed :: "string list"
  gb_blocked :: "string list"
  gb_mode :: string
  gb_db_path :: string
  gb_db :: "(ip \<Rightarrow> string + string) option"

definition parseCountryList :: "dyn \<Rightarrow> string list" where
  "parseCountryList raw = (case as_list raw of Some vs \<Rightarrow> dyn_strings vs | None \<Rightarrow> [])"

definition non_empty_string :: "dyn \<Rightarrow> string option" where
  "non_empty_string v = (case as_string v of Some s \<Rightarrow> if s \<noteq> [] then Some s else None | None \<Rightarrow> None)"

text \<open>\<^verbatim>\<open>file_exists\<close> is \<^verbatim>\<open>os.Stat\<close>, \<^verbatim>\<open>open_db\<close> the GeoIP library.\<close>

definition init_geo ::
    "(string \<Rightarrow> bool) \<Rightarrow> (string \<Rightarrow> string + (ip \<Rightarrow> string + string)) \<Rightarrow> (string \<times> dyn) list \<Rightarrow> string + GeoBlockPlugin" where
  "init_geo file_exists open_db config =
     (let p = \<lparr>gb_enabled = True,
            gb_allowed = parseCountryList (dyn_get config ''allowed_countries''),
            gb_blocked = parseCountryList (dyn_get config ''blocked_countries''),
            gb_mode = (case non_empty_string (dyn_get config ''mode'') of Some s \<Rightarrow> s | None \<Rightarrow> ''block''),
            gb_db_path = (case non_empty_string (dyn_get config ''db_path'') of
               Some s \<Rightarrow> s | None \<Rightarrow> ''/opt/waffynx/geoip/GeoLite2-Country.mmdb''),
            gb_db = None\<rparr>
      in if file_exists (gb_db_path p)
         then (case open_db (gb_db_path p) of
                 Inl e \<Rightarrow> Inl (''opening GeoIP database: '' @ e)
               | Inr db \<Rightarrow> Inr (p\<lparr>gb_db := Some db\<rparr>))
         else Inr p)"

definition geo_extract_ip :: "plugin_ctx \<Rightarrow> string" where
  "geo_extract_ip ctx =
     (case value_string ctx ''wn_ip'' of
        Some (c # s) \<Rightarrow> c # s
      | _ \<Rightarrow>
         (case cx_request ctx of
            None \<Rightarrow> []
          | Some r \<Rightarrow>
              let fwd = header_get (rq_headers r) ''X-Forwarded-For'';
                  i = (if fwd \<noteq> [] then fwd else rq_remote_addr r)
              in (case split_host_port i of Some (host, _) \<Rightarrow> host | None \<Rightarrow> i)))"

definition lookupCountry :: "GeoBlockPlugin \<Rightarrow> ip \<Rightarrow> string" where
  "lookupCountry p i =
     (case gb_db p of
        None \<Rightarrow> ''XX''
      | Some db \<Rightarrow> (case db i of Inl _ \<Rightarrow> ''XX'' | Inr code \<Rightarrow> if code = [] then ''XX'' else code))"

definition execute_geo :: "GeoBlockPlugin \<Rightarrow> plugin_ctx \<Rightarrow> plugin_outcome" where
  "execute_geo p ctx =
     (if \<not> gb_enabled p then Some (ctx, None)
      else
        let clientIP = geo_extract_ip ctx in
        if clientIP = [] then Some (ctx, None)
        else case parse_ip clientIP of
          None \<Rightarrow> Some (ctx, None)
        | Some i \<Rightarrow>
            let country = lookupCountry p i in
            if gb_mode p = ''allow'' \<and> gb_allowed p \<noteq> [] then
              (if country \<notin> set (gb_allowed p)
               then Some (plugin_deny 403 (Raw ''{\"error\":\"access denied: country not allowed\"}'') ctx,
                     Some (''geo-block: '' @ clientIP @ '' from '' @ country @ '' not in allowed list''))
               else Some (ctx, None))
            else if gb_blocked p \<noteq> [] \<and> country \<in> set (gb_blocked p)
            then Some (plugin_deny 403 (Raw ''{\"error\":\"access denied: country blocked\"}'') ctx,
                  Some (''geo-block: '' @ clientIP @ '' from '' @ country @ '' is blocked''))
            else Some (ctx, None))"

definition geo_plugin :: "GeoBlockPlugin \<Rightarrow> 'w plugin" where
  "geo_plugin p =
     \<lparr>pl_name = ''geo-block'', pl_version = ''1.0.0'', pl_description = ''Geo-blocking plugin'',
      pl_phase = PhasePreRequest, pl_priority = 50,
      pl_execute = lift_outcome (execute_geo p), pl_close = (\<lambda>w. (w, None))\<rparr>"

section \<open>Rate limiting\<close>

text \<open>
  The limiter behind the interface, and the world it works on: the buckets in memory, the
  Redis server, the readings of the clock (in nanoseconds, and in seconds for Redis).
\<close>

datatype 'r limiter_kind = MemoryBackend | RedisBackend "'r redis_limiter"

record 'r limiter_world =
  lw_memory :: memory_limiter
  lw_redis :: 'r
  lw_clock :: "int \<times> int \<times> int"
  lw_unix :: int

record 'r RateLimitPlugin =
  rp_enabled :: bool
  rp_requests_per_second :: int
  rp_burst :: int
  rp_limiter :: "'r limiter_kind"

definition parseRedisConfig :: "(string \<times> dyn) list \<Rightarrow> redis_config" where
  "parseRedisConfig config =
     (case as_map (dyn_get config ''redis'') of
        None \<Rightarrow> \<lparr>rd_enabled = False, rd_addr = [], rd_password = [], rd_db = 0\<rparr>
      | Some m \<Rightarrow>
          \<lparr>rd_enabled = (case as_bool (dyn_get m ''enabled'') of Some b \<Rightarrow> b | None \<Rightarrow> False),
           rd_addr = (case as_string (dyn_get m ''addr'') of Some s \<Rightarrow> s | None \<Rightarrow> []),
           rd_password = (case as_string (dyn_get m ''password'') of Some s \<Rightarrow> s | None \<Rightarrow> []),
           rd_db = (case as_int (dyn_get m ''db'') of Some n \<Rightarrow> n | None \<Rightarrow> 0)\<rparr>)"

definition init_rate ::
    "(string \<Rightarrow> string \<Rightarrow> int \<Rightarrow> 'r redis_client) \<Rightarrow> (string \<times> dyn) list \<Rightarrow> 'r \<Rightarrow> 'r RateLimitPlugin" where
  "init_rate new_client config w =
     (let rps = (case as_int (dyn_get config ''requests_per_second'') of Some n \<Rightarrow> n | None \<Rightarrow> 0);
          burst = (case as_int (dyn_get config ''burst'') of Some n \<Rightarrow> n | None \<Rightarrow> 0);
          cfg = parseRedisConfig config
      in \<lparr>rp_enabled = True, rp_requests_per_second = (if rps = 0 then 100 else rps),
          rp_burst = (if burst = 0 then 200 else burst),
          rp_limiter =
            (case NewRedisLimiter new_client cfg w of
               Inr (Some l) \<Rightarrow> RedisBackend l | _ \<Rightarrow> MemoryBackend)\<rparr>)"

text \<open>\<^verbatim>\<open>Limiter.Allow\<close>; in memory it never fails, its window is not zero here.\<close>

definition limiter_allow ::
    "'r limiter_kind \<Rightarrow> string \<Rightarrow> int \<Rightarrow> int \<Rightarrow> 'r limiter_world \<Rightarrow> (string + bool) \<times> 'r limiter_world" where
  "limiter_allow l key limit window w =
     (case l of
        MemoryBackend \<Rightarrow>
          (case memory_allow key limit window (lw_clock w) (lw_memory w) of
             Some (v, m) \<Rightarrow> (Inr v, w\<lparr>lw_memory := m\<rparr>)
           | None \<Rightarrow> (Inr False, w))
      | RedisBackend r \<Rightarrow>
          (case redis_allow r key limit window (lw_unix w) (lw_redis w) of
             (res, s) \<Rightarrow> (res, w\<lparr>lw_redis := s\<rparr>)))"

definition rate_extract_ip :: "plugin_ctx \<Rightarrow> string" where
  "rate_extract_ip ctx =
     (case value_string ctx ''wn_ip'' of
        Some (c # s) \<Rightarrow> c # s
      | _ \<Rightarrow>
         (case cx_request ctx of
            None \<Rightarrow> []
          | Some r \<Rightarrow>
              let fwd = header_get (rq_headers r) ''X-Forwarded-For''
              in if fwd \<noteq> [] then fwd else rq_remote_addr r))"

definition execute_rate :: "'r RateLimitPlugin \<Rightarrow> plugin_ctx \<Rightarrow> 'r limiter_world \<Rightarrow> plugin_ctx \<times> 'r limiter_world \<times> string option" where
  "execute_rate p ctx w =
     (if \<not> rp_enabled p then (ctx, w, None)
      else
        let clientIP = rate_extract_ip ctx in
        if clientIP = [] then (ctx, w, None)
        else case limiter_allow (rp_limiter p) clientIP (rp_requests_per_second p) second w of
          (Inl e, w') \<Rightarrow> (ctx, w', None)
        | (Inr allowed, w') \<Rightarrow>
            if \<not> allowed
            then (plugin_deny 429 (Raw ''{\"error\":\"rate limit exceeded\"}'')
                    (ctx\<lparr>cx_writer := set_header ''Retry-After'' ''1'' (cx_writer ctx)\<rparr>), w',
                  Some (''rate limit exceeded for '' @ clientIP))
            else (ctx, w', None))"

definition close_rate :: "'r RateLimitPlugin \<Rightarrow> 'r limiter_world \<Rightarrow> 'r limiter_world \<times> string option" where
  "close_rate p w =
     (case rp_limiter p of
        MemoryBackend \<Rightarrow>
          (case close_limiter (lw_memory w) of
             Some m \<Rightarrow> (w\<lparr>lw_memory := m\<rparr>, None) | None \<Rightarrow> (w, Some ''close of closed channel''))
      | RedisBackend r \<Rightarrow> (w, close_redis r (lw_redis w)))"

definition rate_plugin :: "'r RateLimitPlugin \<Rightarrow> 'r limiter_world plugin" where
  "rate_plugin p =
     \<lparr>pl_name = ''rate-limit'', pl_version = ''1.1.0'', pl_description = ''Rate limiting plugin'',
      pl_phase = PhasePreRequest, pl_priority = 100,
      pl_execute = execute_rate p, pl_close = close_rate p\<rparr>"

section \<open>The contract of the plugins\<close>

definition answered :: "plugin_ctx \<Rightarrow> bool" where
  "answered ctx =
     (cx_status_code ctx \<in> {403, 415, 429} \<and> rs_status (cx_writer ctx) = Some (nat (cx_status_code ctx)))"

text \<open>A context with a request whose answer has not been started.\<close>

definition fresh_ctx :: "plugin_ctx \<Rightarrow> bool" where
  "fresh_ctx ctx = (cx_request ctx \<noteq> None \<and> rs_status (cx_writer ctx) = None \<and> cx_status_code ctx = 0)"

locale answering_plugin =
  fixes p :: "'w plugin"
  assumes denies: "\<lbrakk>fresh_ctx ctx; pl_execute p ctx w = (ctx', w', Some e)\<rbrakk> \<Longrightarrow> answered ctx'"
    and passes: "\<lbrakk>fresh_ctx ctx; pl_execute p ctx w = (ctx', w', None)\<rbrakk> \<Longrightarrow>
      cx_writer ctx' = cx_writer ctx \<and> cx_status_code ctx' = 0 \<and> cx_request ctx' = cx_request ctx \<and>
      cx_values ctx' = cx_values ctx"
begin

lemma stays_fresh: "\<lbrakk>fresh_ctx ctx; pl_execute p ctx w = (ctx', w', None)\<rbrakk> \<Longrightarrow> fresh_ctx ctx'"
  using passes[of ctx w ctx' w'] unfolding fresh_ctx_def by metis

end

text \<open>A list of such plugins keeps the contract.\<close>

lemma run_answering:
  assumes "\<And>p. p \<in> set ps \<Longrightarrow> answering_plugin p" "fresh_ctx ctx"
    and "run_plugins ps ctx w = (ctx', w', r)"
  shows "case r of Some e \<Rightarrow> answered ctx'
     | None \<Rightarrow> cx_writer ctx' = cx_writer ctx \<and> cx_status_code ctx' = 0 \<and> cx_request ctx' = cx_request ctx \<and>
         cx_values ctx' = cx_values ctx"
  using assms
proof (induction ps arbitrary: ctx w)
  case Nil
  then show ?case by (auto simp: fresh_ctx_def)
next
  case (Cons p ps)
  have p: "answering_plugin p" and ps: "\<And>q. q \<in> set ps \<Longrightarrow> answering_plugin q" using Cons.prems(1) by auto
  obtain c1 w1 q where x: "pl_execute p ctx w = (c1, w1, q)" by (cases "pl_execute p ctx w")
  show ?case
  proof (cases q)
    case (Some e)
    then have "answered c1" using answering_plugin.denies[OF p Cons.prems(2)] x by simp
    then show ?thesis using Some x Cons.prems(3) by auto
  next
    case None
    note pass = answering_plugin.passes[OF p Cons.prems(2) x[unfolded None]]
    have "fresh_ctx c1" by (rule answering_plugin.stays_fresh[OF p Cons.prems(2) x[unfolded None]])
    moreover have "run_plugins ps c1 w1 = (ctx', w', r)" using x None Cons.prems(3) by simp
    ultimately have "case r of Some e \<Rightarrow> answered ctx'
     | None \<Rightarrow> cx_writer ctx' = cx_writer c1 \<and> cx_status_code ctx' = 0 \<and> cx_request ctx' = cx_request c1 \<and>
         cx_values ctx' = cx_values c1"
      using Cons.IH[OF ps] by blast
    with pass show ?thesis by (simp split: option.splits)
  qed
qed

lemma plugin_deny_simps [simp]:
  "cx_status_code (plugin_deny code body ctx) = int code"
  "rs_status (cx_writer (plugin_deny code body ctx)) =
     Some (case rs_status (cx_writer ctx) of None \<Rightarrow> code | Some d \<Rightarrow> d)"
  "cx_request (plugin_deny code body ctx) = cx_request ctx"
  by (simp_all add: plugin_deny_def split: option.splits)

lemma set_tag_simps [simp]:
  "cx_status_code (set_tag k v ctx) = cx_status_code ctx" "cx_writer (set_tag k v ctx) = cx_writer ctx"
  "cx_request (set_tag k v ctx) = cx_request ctx" "cx_values (set_tag k v ctx) = cx_values ctx"
  by (simp_all add: set_tag_def)

text \<open>The two outcomes of a plugin that keeps the contract.\<close>

definition good_outcome :: "plugin_ctx \<Rightarrow> plugin_outcome \<Rightarrow> bool" where
  "good_outcome ctx out =
     (case out of
        None \<Rightarrow> False
      | Some (c, Some e) \<Rightarrow> answered c
      | Some (c, None) \<Rightarrow> cx_writer c = cx_writer ctx \<and> cx_status_code c = cx_status_code ctx \<and>
          cx_request c = cx_request ctx \<and> cx_values c = cx_values ctx)"

lemma good_outcome_rules:
  "good_outcome ctx (Some (ctx, None))"
  "fresh_ctx c \<Longrightarrow> code \<in> {403, 415, 429} \<Longrightarrow> good_outcome ctx (Some (plugin_deny code body c, Some e))"
  "good_outcome ctx (Some (set_tag k v c, r)) \<longleftrightarrow> good_outcome ctx (Some (c, r))"
  by (auto simp: good_outcome_def answered_def fresh_ctx_def split: option.splits)

lemma fresh_ctx_set_tag [simp]: "fresh_ctx (set_tag k v ctx) = fresh_ctx ctx"
  by (simp add: fresh_ctx_def)

lemma fresh_request: "fresh_ctx ctx \<Longrightarrow> cx_request ctx \<noteq> None"
  by (simp add: fresh_ctx_def)

lemma lift_answering:
  assumes "\<And>ctx. fresh_ctx ctx \<Longrightarrow> good_outcome ctx (f ctx)" "pl_execute p = lift_outcome f"
  shows "answering_plugin p"
proof
  fix ctx w ctx' w' e
  assume f: "fresh_ctx ctx"
  note g = assms(1)[OF f]
  show "answered ctx'" if "pl_execute p ctx w = (ctx', w', Some e)"
    using that g by (auto simp: assms(2) lift_outcome_def good_outcome_def split: option.splits)
  show "cx_writer ctx' = cx_writer ctx \<and> cx_status_code ctx' = 0 \<and> cx_request ctx' = cx_request ctx \<and>
      cx_values ctx' = cx_values ctx" if "pl_execute p ctx w = (ctx', w', None)"
    using that g f by (auto simp: assms(2) lift_outcome_def good_outcome_def fresh_ctx_def split: option.splits)
qed

lemma validate_body_good: "fresh_ctx ctx \<Longrightarrow> good_outcome ctx (validate_body ul p ct body ctx)"
  unfolding validate_body_def Let_def
  by (auto simp: good_outcome_rules dest: fresh_request split: option.split)

lemma execute_validation_good: "fresh_ctx ctx \<Longrightarrow> good_outcome ctx (execute_validation ul p ctx)"
  unfolding execute_validation_def Let_def
  by (auto simp: good_outcome_rules validate_body_good content_type_denied_def dest: fresh_request
      split: option.split bool.split if_splits)

lemma execute_bot_good: "fresh_ctx ctx \<Longrightarrow> good_outcome ctx (execute_bot ul p ctx)"
  unfolding execute_bot_def Let_def
  by (auto simp: good_outcome_rules bot_user_agent_def Let_def dest: fresh_request split: option.split if_splits)

lemma execute_geo_good: "fresh_ctx ctx \<Longrightarrow> good_outcome ctx (execute_geo p ctx)"
  unfolding execute_geo_def Let_def by (auto simp: good_outcome_rules split: option.split)

interpretation rv: answering_plugin "validation_plugin ul p" for ul p
  by (rule lift_answering[OF execute_validation_good]) (simp_all add: validation_plugin_def)

interpretation bp: answering_plugin "bot_plugin ul p" for ul p
  by (rule lift_answering[OF execute_bot_good]) (simp_all add: bot_plugin_def)

interpretation gb: answering_plugin "geo_plugin p" for p
  by (rule lift_answering[OF execute_geo_good]) (simp_all add: geo_plugin_def)

interpretation rp: answering_plugin "rate_plugin p" for p
proof
  fix ctx :: plugin_ctx and w ctx' w' e
  assume f: "fresh_ctx ctx"
  show "answered ctx'" if "pl_execute (rate_plugin p) ctx w = (ctx', w', Some e)"
    using that f
    by (auto simp: rate_plugin_def execute_rate_def answered_def fresh_ctx_def Let_def split: if_splits prod.splits sum.splits)
  show "cx_writer ctx' = cx_writer ctx \<and> cx_status_code ctx' = 0 \<and> cx_request ctx' = cx_request ctx \<and>
      cx_values ctx' = cx_values ctx" if "pl_execute (rate_plugin p) ctx w = (ctx', w', None)"
    using that f
    by (auto simp: rate_plugin_def execute_rate_def fresh_ctx_def Let_def split: if_splits prod.splits sum.splits)
qed

text \<open>
  C15: whatever the configuration and the order of the four plugins, the pre-request chain either
  reports an error, and then exactly one answer with status 403, 415 or 429 has been started
  and its status is in the context, or reports none, and then the answer is untouched.
\<close>

lemma chain_answers:
  assumes "set ps \<subseteq> range (validation_plugin ul) \<union> range (bot_plugin ul) \<union> range geo_plugin \<union> range rate_plugin"
    and "fresh_ctx ctx" "chain_execute (build_chain ps) ctx PhasePreRequest w = (ctx', w', r)"
  shows "case r of Some e \<Rightarrow> answered ctx'
     | None \<Rightarrow> cx_writer ctx' = cx_writer ctx \<and> cx_status_code ctx' = 0 \<and> cx_request ctx' = cx_request ctx \<and>
         cx_values ctx' = cx_values ctx"
proof (rule run_answering[OF _ assms(2)])
  show "run_plugins (phase_plugins (build_chain ps) PhasePreRequest) ctx w = (ctx', w', r)"
    using assms(3) by (simp add: chain_execute_phase)
  fix p assume "p \<in> set (phase_plugins (build_chain ps) PhasePreRequest)"
  then have "p \<in> set ps" by (auto simp: build_chain_phase)
  then show "answering_plugin p"
    using assms(1) rv.answering_plugin_axioms bp.answering_plugin_axioms gb.answering_plugin_axioms
      rp.answering_plugin_axioms by blast
qed

definition sample_request :: http_request where
  "sample_request =
     \<lparr>rq_method = ''GET'', rq_path = ''/evaluate'', rq_query = [], rq_host = ''sidecar'', rq_headers = Map.empty,
      rq_remote_addr = ''@'', rq_content_length = 0, rq_body = []\<rparr>"

definition sample_ctx :: "(string \<times> dyn) list \<Rightarrow> plugin_ctx" where
  "sample_ctx vs = (NewContext new_response sample_request)\<lparr>cx_values := map_of vs\<rparr>"

lemma sample_ctx_fresh: "fresh_ctx (sample_ctx vs)"
  by (simp add: fresh_ctx_def sample_ctx_def NewContext_def new_response_def)

definition sample_world :: "unit limiter_world" where
  "sample_world = \<lparr>lw_memory = NewMemoryLimiter, lw_redis = (), lw_clock = (0, 0, 0), lw_unix = 0\<rparr>"

lemma chain_answers_witness:
  "case chain_execute (build_chain [bot_plugin ascii_only_lower (init_bot [(''mode'', DStr ''block'')])])
      (sample_ctx [(''wn_ua'', DStr ''curl/8'')]) PhasePreRequest sample_world of
     (ctx', w', Some e) \<Rightarrow> answered ctx' | (ctx', w', None) \<Rightarrow> cx_status_code ctx' = 0"
proof -
  obtain ctx' w' r where x: "chain_execute (build_chain [bot_plugin ascii_only_lower (init_bot [(''mode'', DStr ''block'')])])
      (sample_ctx [(''wn_ua'', DStr ''curl/8'')]) PhasePreRequest sample_world = (ctx', w', r)" by (rule prod_cases3)
  from chain_answers[OF _ sample_ctx_fresh x, of ascii_only_lower] show ?thesis
    unfolding x by (auto split: option.splits)
qed

section \<open>Request validation in detail\<close>

lemma block_patterns_lowered: "p \<in> set block_patterns \<Longrightarrow> to_lower ul p = p"
proof -
  assume p: "p \<in> set block_patterns"
  have "list_all (\<lambda>q. ascii q \<and> list_all (\<lambda>c. \<not> (65 \<le> byte c \<and> byte c \<le> 90)) q) block_patterns"
    by (simp add: block_patterns_def)
  then have "ascii p" "list_all (\<lambda>c. \<not> (65 \<le> byte c \<and> byte c \<le> 90)) p" using p by (auto simp: list_all_iff)
  moreover have "map ascii_lower p = p" using calculation(2) by (intro map_idI) (auto simp: ascii_lower_def list_all_iff)
  ultimately show ?thesis by (simp add: to_lower_ascii)
qed

lemma find_pattern_hit:
  assumes "ascii_table ul" "ascii w" "map ascii_lower w \<in> set block_patterns" "str_contains s w"
  shows "find_pattern ul block_patterns s \<noteq> None"
  using to_lower_contains_lower[OF assms(1,2) refl assms(4)] assms(3) block_patterns_lowered[OF assms(3)]
  by (auto simp: find_pattern_def find_None_iff)

lemma validation_denies:
  assumes "ascii_table ul" "ascii w" "map ascii_lower w \<in> set block_patterns" "fresh_ctx ctx"
    and "str_contains (decoded_uri ctx) w \<or> (\<exists>body. value_string ctx ''wn_body'' = Some body \<and> str_contains body w)"
  shows "\<exists>ctx' e. execute_validation ul (init_validation config) ctx = Some (ctx', Some e) \<and> answered ctx' \<and>
     cx_status_code ctx' \<in> {403, 415}"
proof -
  define p where "p = init_validation config"
  have p: "rv_enabled p" "rv_block_patterns p = block_patterns" by (simp_all add: p_def init_validation_def)
  have "w \<noteq> []" using assms(3) by (auto simp: block_patterns_def)
  then have ne: "body \<noteq> []" if "str_contains body w" for body using that by (cases body) auto
  note hit = find_pattern_hit[OF assms(1-3)]
  have good: "good_outcome ctx (execute_validation ul p ctx)" by (rule execute_validation_good[OF assms(4)])
  define ct where "ct = (case value_string ctx ''wn_ct'' of Some s \<Rightarrow> s | None \<Rightarrow> [])"
  have body: "\<exists>pat. validate_body ul p ct b ctx = Some (set_tag ''waf_pattern'' pat (set_tag ''waf_blocked'' ''true''
        (plugin_deny 403 (Raw ''{\"error\":\"malicious request detected\"}'') ctx)),
        Some (''waf pattern matched in body: '' @ pat))" if "str_contains b w" for b
    using hit[OF that] by (auto simp: validate_body_def p)
  have uri: "find_pattern ul block_patterns (decoded_uri ctx) \<noteq> None \<or>
      (\<exists>b. value_string ctx ''wn_body'' = Some b \<and> b \<noteq> [] \<and> str_contains b w)"
    using assms(5) hit ne by blast
  have status: "cx_status_code c \<in> {403, 415} \<and> e \<noteq> None" if x: "execute_validation ul p ctx = Some (c, e)" for c e
  proof (cases "content_type_denied p ct (cx_request ctx)")
    case None
    then show ?thesis using x by (simp add: execute_validation_def p Let_def ct_def)
  next
    case (Some denied)
    note run = x[unfolded execute_validation_def Let_def ct_def[symmetric] Some p]
    show ?thesis
    proof (cases denied)
      case True
      then show ?thesis using run p(1) by auto
    next
      case False
      show ?thesis
      proof (cases "find_pattern ul block_patterns (decoded_uri ctx)")
        case None
        then obtain b where b: "value_string ctx ''wn_body'' = Some b" "b \<noteq> []" "str_contains b w" using uri by blast
        then show ?thesis using run False None p(1) body[OF b(3)] by auto
      qed (use run False p(1) in auto)
    qed
  qed
  obtain c e where ce: "execute_validation ul p ctx = Some (c, e)"
    using good by (auto simp: good_outcome_def split: option.splits)
  then obtain e' where "e = Some e'" using status by blast
  then show ?thesis using ce good status[OF ce] by (auto simp: p_def good_outcome_def)
qed

text \<open>
  with any configuration, a request whose decoded URI or whose body contains a block
  pattern, in any letter case and among any other bytes, is denied with 403 (or 415 if its
  content type is not accepted), the answer written.
\<close>

lemma validation_blocks:
  assumes "ascii_table ul" "ascii w" "map ascii_lower w \<in> set block_patterns" "fresh_ctx ctx"
    and "str_contains (decoded_uri ctx) w \<or> (\<exists>body. value_string ctx ''wn_body'' = Some body \<and> str_contains body w)"
  shows "\<exists>ctx' e. execute_validation ul (init_validation config) ctx = Some (ctx', Some e) \<and> answered ctx' \<and>
     cx_status_code ctx' \<in> {403, 415}"
  using assms by (rule validation_denies)

lemma validation_blocks_witness:
  "\<exists>ctx' e. execute_validation ascii_only_lower (init_validation [])
     (sample_ctx [(''wn_uri'', DStr ''/s?q=%27+Or+1%3D1'')]) = Some (ctx', Some e)"
proof -
  define ctx where "ctx = sample_ctx [(''wn_uri'', DStr ''/s?q=%27+Or+1%3D1'')]"
  have "query_unescape ''/s?q=%27+Or+1%3D1'' = Some (''/s?q='' @ [CHR 0x27] @ '' Or 1=1'')" by code_simp
  moreover have "value_string ctx ''wn_uri'' = Some ''/s?q=%27+Or+1%3D1''"
    by (simp add: ctx_def sample_ctx_def value_string_def)
  ultimately have "decoded_uri ctx = (''/s?q='' @ [CHR 0x27] @ '' '') @ ''Or 1=1'' @ []"
    by (simp add: decoded_uri_def replace_byte_def)
  then have "str_contains (decoded_uri ctx) ''Or 1=1''" using str_containsI by metis
  moreover have "map ascii_lower ''Or 1=1'' = ''or 1=1''" by code_simp
  then have "map ascii_lower ''Or 1=1'' \<in> set block_patterns" by (simp add: block_patterns_def)
  moreover have "ascii ''Or 1=1''" "fresh_ctx ctx" by (simp_all add: ctx_def sample_ctx_fresh)
  ultimately show ?thesis using validation_blocks[OF ascii_only_lower_table] unfolding ctx_def by blast
qed

text \<open>
  The upload inspection is given the sidecar's own request: its path is the fixed
  \<^verbatim>\<open>/evaluate\<close>, so no file extension of the original request is ever found.
\<close>

lemma upload_extension_never_found:
  "rq_path r = ''/evaluate'' \<Longrightarrow> up_extension (InspectFileUpload ul r body) = []"
proof -
  assume "rq_path r = ''/evaluate''"
  moreover have "map ascii_lower ''/evaluate'' = ''/evaluate''" by code_simp
  ultimately have "to_lower ul (rq_path r) = ''/evaluate''" by (simp add: to_lower_ascii)
  moreover have "find (\<lambda>ext. has_suffix ''/evaluate'' ext) blockedExtensions = None"
    by (simp add: blockedExtensions_def has_suffix_def)
  ultimately show ?thesis by (auto simp: InspectFileUpload_def Let_def split: option.splits)
qed

section \<open>Geographic blocking in detail\<close>

text \<open>
  an enabled geographic filter denies a request exactly when its address parses and the
  country of that address (XX when unknown) is outside a non-empty list of allowed countries
  in the mode \<^verbatim>\<open>allow\<close>, or else on the list of blocked countries.
\<close>

lemma geo_denies_exactly:
  assumes "gb_enabled p"
  shows "(\<exists>ctx' e. execute_geo p ctx = Some (ctx', Some e)) =
     (case parse_ip (geo_extract_ip ctx) of
        None \<Rightarrow> False
      | Some i \<Rightarrow> if gb_mode p = ''allow'' \<and> gb_allowed p \<noteq> [] then lookupCountry p i \<notin> set (gb_allowed p)
                  else lookupCountry p i \<in> set (gb_blocked p))"
proof (cases "geo_extract_ip ctx = []")
  case False
  have "gb_blocked p \<noteq> [] \<and> c \<in> set (gb_blocked p) \<longleftrightarrow> c \<in> set (gb_blocked p)" for c by auto
  with False assms show ?thesis
    by (auto simp: execute_geo_def Let_def split: option.splits)
qed (use assms in \<open>simp add: execute_geo_def\<close>)

definition sample_geo :: GeoBlockPlugin where
  "sample_geo =
     \<lparr>gb_enabled = True, gb_allowed = [], gb_blocked = [''XX''], gb_mode = ''block'', gb_db_path = [], gb_db = None\<rparr>"

lemma geo_denies_exactly_witness:
  "(\<exists>ctx' e. execute_geo sample_geo (sample_ctx [(''wn_ip'', DStr ''not an address'')]) = Some (ctx', Some e)) =
   (case parse_ip ''not an address'' of None \<Rightarrow> False | Some i \<Rightarrow> True)"
  using geo_denies_exactly[of sample_geo "sample_ctx [(''wn_ip'', DStr ''not an address'')]"]
  by (cases "parse_ip ''not an address''")
    (simp_all add: sample_geo_def geo_extract_ip_def value_string_def sample_ctx_def lookupCountry_def)

section \<open>Bots in detail\<close>

text \<open>In any mode but \<^verbatim>\<open>block\<close> a bot is only tagged.\<close>

lemma bot_log_mode_passes:
  "bp_mode p \<noteq> ''block'' \<Longrightarrow> execute_bot ul p ctx = Some (ctx', r) \<Longrightarrow> r = None"
  by (auto simp: execute_bot_def Let_def split: if_splits option.splits)

end
