(* ===== verification/Sidecar.thy ===== *)
theory Sidecar
  imports Rules AuditStore Learning Events Appsec Plugins
begin

text \<open>
  \<^verbatim>\<open>internal/engine/sidecar.go\<close>: the HTTP handlers that nginx's module calls. The components
  the sidecar holds by pointer are its state; a handler returns the response and the new
  state, \<^verbatim>\<open>None\<close> is a run-time panic. The clock, the Unicode table, the network and the
  bridge are the environment.
\<close>

section \<open>State and environment\<close>

datatype scorer = ScorerBasic BasicScorer | ScorerBridge BridgeScorer | ScorerStub

record 'w sidecar =
  sd_chain :: "'w chain"
  sd_engine :: "plugin_ctx rule_engine"
  sd_scorer :: "scorer option"
  sd_learning :: "learn_engine option"
  sd_audit :: "audit_store option"
  sd_rules :: "rules_engine option"
  sd_broker :: "broker option"
  sd_publisher :: "publisher option"
  sd_world :: 'w
  sd_sent :: "out_request list"

record sidecar_env =
  se_lower :: "nat \<Rightarrow> nat"
  se_log2 :: "float64 \<Rightarrow> float64"
  se_bridge :: "features \<Rightarrow> string + string"
  se_new_request :: "string \<Rightarrow> string option"
  se_client_do :: "int \<Rightarrow> out_request \<Rightarrow> string + nat"
  se_rfc3339 :: "int \<Rightarrow> string"
  se_body_error :: bool
  se_start :: int
  se_score_time :: int
  se_finish :: int
  se_learn_time :: int
  se_audit_time :: int
  se_event_time :: int

definition NewSidecar ::
    "plugin_ctx rule_engine \<Rightarrow> 'w chain \<Rightarrow> scorer option \<Rightarrow> learn_engine option \<Rightarrow> audit_store option \<Rightarrow>
     rules_engine option \<Rightarrow> broker option \<Rightarrow> 'w \<Rightarrow> 'w sidecar" where
  "NewSidecar eval ch sc le a r b w =
     \<lparr>sd_chain = ch, sd_engine = eval, sd_scorer = sc, sd_learning = le, sd_audit = a, sd_rules = r,
      sd_broker = b, sd_publisher = None, sd_world = w, sd_sent = []\<rparr>"

definition SetEventPublisher :: "publisher \<Rightarrow> 'w sidecar \<Rightarrow> 'w sidecar" where
  "SetEventPublisher p s = s\<lparr>sd_publisher := Some p\<rparr>"

section \<open>Answers\<close>

definition respondAllow :: "response \<Rightarrow> response" where
  "respondAllow w = write_header 204 (set_header ''X-WN-Verdict'' ''allow'' w)"

definition respondDeny :: "string \<Rightarrow> string \<Rightarrow> response \<Rightarrow> response" where
  "respondDeny ruleID reason w =
     write_piece (Json (DMap [(''error'', DStr ''blocked by WAF''), (''reason'', DStr reason), (''rule_id'', DStr ruleID)]))
       (write_header 403
         (set_header ''Content-Type'' ''application/json''
           (set_header ''X-WN-Rule'' ruleID (set_header ''X-WN-Verdict'' ''deny'' w))))"

definition writeSidecarError :: "string \<Rightarrow> nat \<Rightarrow> response \<Rightarrow> response" where
  "writeSidecarError msg code w =
     write_piece (Json (DMap [(''error'', DStr msg)]))
       (write_header code (set_header ''Content-Type'' ''application/json'' w))"

definition handleHealth :: "response \<Rightarrow> response" where
  "handleHealth w = write_piece (Raw ''{\"status\":\"ok\",\"service\":\"waffynx-sidecar\"}'') (write_header 200 w)"

section \<open>The request under evaluation\<close>

definition maxBodyRead :: nat where "maxBodyRead = 65536"

definition body_bytes :: "http_request \<Rightarrow> string" where
  "body_bytes r = take maxBodyRead (rq_body r)"

definition wn :: "http_request \<Rightarrow> string \<Rightarrow> string" where
  "wn r k = header_get (rq_headers r) k"

definition original_request :: "sidecar_env \<Rightarrow> http_request \<Rightarrow> request" where
  "original_request env r =
     \<lparr>Method = wn r ''X-WN-M'', Host = wn r ''X-WN-H'', Path = wn r ''X-WN-U'', Query = [],
      Headers = [''User-Agent'' \<mapsto> [wn r ''X-WN-UA''], ''Content-Type'' \<mapsto> [wn r ''X-WN-CT''],
                 ''Referer'' \<mapsto> [wn r ''X-WN-Ref'']],
      Body = (if se_body_error env then [] else body_bytes r),
      RemoteIP = wn r ''X-WN-IP''\<rparr>"

definition plugin_values :: "http_request \<Rightarrow> string \<Rightarrow> dyn option" where
  "plugin_values r =
     [''wn_method'' \<mapsto> DStr (wn r ''X-WN-M''), ''wn_uri'' \<mapsto> DStr (wn r ''X-WN-U''),
      ''wn_host'' \<mapsto> DStr (wn r ''X-WN-H''), ''wn_ip'' \<mapsto> DStr (wn r ''X-WN-IP''),
      ''wn_ua'' \<mapsto> DStr (wn r ''X-WN-UA''), ''wn_ct'' \<mapsto> DStr (wn r ''X-WN-CT''),
      ''wn_ref'' \<mapsto> DStr (wn r ''X-WN-Ref'')] ++
     (if body_bytes r \<noteq> [] then [''wn_body'' \<mapsto> DStr (body_bytes r)] else Map.empty)"

definition evaluate_ctx :: "response \<Rightarrow> http_request \<Rightarrow> plugin_ctx" where
  "evaluate_ctx w r = (NewContext w r)\<lparr>cx_values := plugin_values r\<rparr>"

text \<open>\<^verbatim>\<open>strings.SplitN(pair, "=", 2)\<close> and the map it fills; a later pair replaces an earlier one.\<close>

definition set_param :: "string \<Rightarrow> string \<Rightarrow> (string \<times> string) list \<Rightarrow> (string \<times> string) list" where
  "set_param k v ps = AList.update k v ps"

definition add_pair :: "string \<Rightarrow> (string \<times> string) list \<Rightarrow> (string \<times> string) list" where
  "add_pair pair ps =
     (case str_cut (CHR ''='') pair of
        (k, v, True) \<Rightarrow> set_param k v ps
      | (k, _, False) \<Rightarrow> if k \<noteq> [] then set_param k [] ps else ps)"

definition parseQueryParams :: "string \<Rightarrow> (string \<times> string) list" where
  "parseQueryParams rawURI =
     (case index_byte rawURI (CHR ''?'') of
        None \<Rightarrow> []
      | Some idx \<Rightarrow>
          if int idx = int (length rawURI) - 1 then []
          else
            let queryStr = drop (idx + 1) rawURI;
                decoded = (case query_unescape queryStr of Some d \<Rightarrow> d | None \<Rightarrow> queryStr);
                decoded = replace_byte (CHR ''+'') '' '' decoded
            in fold add_pair (str_split (CHR ''&'') decoded) [])"

definition request_features :: "http_request \<Rightarrow> features" where
  "request_features r =
     (let uri = wn r ''X-WN-U''; body = body_bytes r
      in \<lparr>ft_method = wn r ''X-WN-M'', ft_uri = uri, ft_host = wn r ''X-WN-H'', ft_client_ip = wn r ''X-WN-IP'',
          ft_user_agent = wn r ''X-WN-UA'', ft_content_type = wn r ''X-WN-CT'', ft_referer = wn r ''X-WN-Ref'',
          ft_body = body, ft_headers_count = 0, ft_uri_length = int (length uri),
          ft_query_params = parseQueryParams uri, ft_has_payload = (body \<noteq> []),
          ft_payload_size = int (length body)\<rparr>)"

definition scorer_evaluate :: "sidecar_env \<Rightarrow> features \<Rightarrow> scorer \<Rightarrow> (bridge_error + scorer_result) \<times> scorer" where
  "scorer_evaluate env f sc =
     (case sc of
        ScorerBasic b \<Rightarrow>
          (case EvaluateBasic (se_lower env) (se_log2 env) (se_score_time env) f b of (r, b') \<Rightarrow> (Inr r, ScorerBasic b'))
      | ScorerBridge b \<Rightarrow> (EvaluateBridge (se_bridge env) f b, sc)
      | ScorerStub \<Rightarrow> (EvaluateStub f, sc))"

section \<open>Recording\<close>

definition learning_record :: "sidecar_env \<Rightarrow> request \<Rightarrow> lverdict \<Rightarrow> string \<Rightarrow> string \<Rightarrow> learn_record" where
  "learning_record env req verdict ruleID reason =
     empty_record\<lparr>lr_method := Method req, lr_path := Path req, lr_host := Host req, lr_remote_ip := RemoteIP req,
       lr_body_snippet := take 100 (Body req), lr_verdict := verdict,
       lr_rule_id := (if ruleID = [] then ''unknown'' else ruleID), lr_reason := reason,
       lr_duration := time_sub (se_finish env) (se_start env)\<rparr>"

definition block_audit_event :: "request \<Rightarrow> string \<Rightarrow> string \<Rightarrow> audit_event" where
  "block_audit_event req ruleID reason =
     empty_event\<lparr>ae_actor := RemoteIP req, ae_actor_ip := RemoteIP req, ae_action := Method req @ '' '' @ Path req,
       ae_resource := Host req, ae_result := ''blocked'', ae_details := ''rule='' @ ruleID @ '' reason='' @ reason\<rparr>"

definition block_event :: "request \<Rightarrow> string \<Rightarrow> string \<Rightarrow> waf_event" where
  "block_event req ruleID reason =
     \<lparr>ev_type = TypeBlocked, ev_timestamp = zero_time, ev_method = Method req, ev_path = Path req,
      ev_remote_ip = RemoteIP req, ev_rule_id = ruleID, ev_reason = reason, ev_payload = DNull\<rparr>"

text \<open>An operation of an optional component: a nil component is left out.\<close>

definition with_opt :: "('a \<Rightarrow> 'a option) \<Rightarrow> 'a option \<Rightarrow> 'a option option" where
  "with_opt f x = (case x of None \<Rightarrow> Some None | Some a \<Rightarrow> map_option Some (f a))"

definition publish_block :: "sidecar_env \<Rightarrow> waf_event \<Rightarrow> 'w sidecar \<Rightarrow> 'w sidecar option" where
  "publish_block env event s =
     (case with_opt (Publish (se_event_time env) event) (sd_broker s) of
        None \<Rightarrow> None
      | Some b \<Rightarrow>
          Some (s\<lparr>sd_broker := b,
            sd_sent := sd_sent s @ snd (publish_event (se_new_request env) (se_client_do env) (sd_publisher s) event)\<rparr>))"

definition recordLearning ::
    "sidecar_env \<Rightarrow> request \<Rightarrow> lverdict \<Rightarrow> string \<Rightarrow> string \<Rightarrow> 'w sidecar \<Rightarrow> 'w sidecar option" where
  "recordLearning env req verdict ruleID reason s =
     (case sd_learning s of
        None \<Rightarrow> Some s
      | Some l \<Rightarrow>
          let ruleID' = (if ruleID = [] then ''unknown'' else ruleID) in
          case learn (se_learn_time env, learning_record env req verdict ruleID reason) l of
            None \<Rightarrow> None
          | Some l' \<Rightarrow>
              let s = s\<lparr>sd_learning := Some l'\<rparr> in
              if verdict \<noteq> VerdictBlock then Some s
              else case with_opt (record_event (se_audit_time env, block_audit_event req ruleID' reason)) (sd_audit s) of
                None \<Rightarrow> None
              | Some a \<Rightarrow> publish_block env (block_event req ruleID' reason) (s\<lparr>sd_audit := a\<rparr>))"

section \<open>Evaluation\<close>

definition blocks :: "result \<Rightarrow> bool" where
  "blocks r = (res_action r \<noteq> ActionAllow \<and> res_action r \<noteq> ActionLog)"

definition deny_and_record ::
    "sidecar_env \<Rightarrow> request \<Rightarrow> string \<Rightarrow> string \<Rightarrow> response \<Rightarrow> 'w sidecar \<Rightarrow> (response \<times> 'w sidecar) option" where
  "deny_and_record env req ruleID reason w s =
     map_option (\<lambda>s'. (respondDeny ruleID reason w, s')) (recordLearning env req VerdictBlock ruleID reason s)"

definition allow_and_record :: "sidecar_env \<Rightarrow> request \<Rightarrow> response \<Rightarrow> 'w sidecar \<Rightarrow> (response \<times> 'w sidecar) option" where
  "allow_and_record env req w s =
     map_option (\<lambda>s'. (respondAllow w, s')) (recordLearning env req VerdictAllow [] [] s)"

definition scorer_stage ::
    "sidecar_env \<Rightarrow> request \<Rightarrow> http_request \<Rightarrow> response \<Rightarrow> 'w sidecar \<Rightarrow> (response \<times> 'w sidecar) option" where
  "scorer_stage env req r w s =
     (case sd_scorer s of
        None \<Rightarrow> allow_and_record env req w s
      | Some sc \<Rightarrow>
         (case scorer_evaluate env (request_features r) sc of
            (Inl err, sc') \<Rightarrow> allow_and_record env req w (s\<lparr>sd_scorer := Some sc'\<rparr>)
          | (Inr res, sc') \<Rightarrow>
              let s = s\<lparr>sd_scorer := Some sc'\<rparr> in
              if sr_verdict res = ''block''
              then deny_and_record env req (''appsec-'' @ sr_model res)
                     (''ML anomaly: '' @ str_join ''; '' (sr_reasons res)) w s
              else allow_and_record env req w s))"

definition policy_stage ::
    "sidecar_env \<Rightarrow> request \<Rightarrow> plugin_ctx \<Rightarrow> http_request \<Rightarrow> 'w sidecar \<Rightarrow> (response \<times> 'w sidecar) option" where
  "policy_stage env req ctx r s =
     (let res = Evaluate (sd_engine s) ctx PhaseRequest req
      in if blocks res then deny_and_record env req (res_rule_id res) (res_reason res) (cx_writer ctx) s
         else scorer_stage env req r (cx_writer ctx) s)"

definition rules_result :: "'w sidecar \<Rightarrow> request \<Rightarrow> result" where
  "rules_result s req =
     (case sd_rules s of None \<Rightarrow> mk_result ActionAllow [] [] | Some e \<Rightarrow> evaluate_rules_engine e req)"

definition handleEvaluate ::
    "sidecar_env \<Rightarrow> response \<Rightarrow> http_request \<Rightarrow> 'w sidecar \<Rightarrow> (response \<times> 'w sidecar) option" where
  "handleEvaluate env w r s =
     (let req = original_request env r in
      case chain_execute (sd_chain s) (evaluate_ctx w r) PhasePreRequest (sd_world s) of
        (ctx, world, Some err) \<Rightarrow>
          let s = s\<lparr>sd_world := world\<rparr>;
              w' = (if cx_status_code ctx = 0 then respondDeny ''plugin-chain'' err (cx_writer ctx) else cx_writer ctx)
          in map_option (\<lambda>s'. (w', s')) (recordLearning env req VerdictBlock ''plugin-chain'' err s)
      | (ctx, world, None) \<Rightarrow>
          let s = s\<lparr>sd_world := world\<rparr>; res = rules_result s req
          in if blocks res then deny_and_record env req (res_rule_id res) (res_reason res) (cx_writer ctx) s
             else policy_stage env req ctx r s)"

section \<open>The decision of the pipeline\<close>

text \<open>
  The specification: the stages in order, each with the answer it gives when it blocks. The
  rules, the policy and the scorer answer through \<^const>\<open>respondDeny\<close>.
\<close>

definition scorer_denies :: "sidecar_env \<Rightarrow> http_request \<Rightarrow> scorer \<Rightarrow> (string \<times> string) option" where
  "scorer_denies env r sc =
     (case fst (scorer_evaluate env (request_features r) sc) of
        Inr res \<Rightarrow> if sr_verdict res = ''block''
                   then Some (''appsec-'' @ sr_model res, ''ML anomaly: '' @ str_join ''; '' (sr_reasons res)) else None
      | Inl _ \<Rightarrow> None)"

definition denial :: "sidecar_env \<Rightarrow> plugin_ctx \<Rightarrow> http_request \<Rightarrow> 'w sidecar \<Rightarrow> (string \<times> string) option" where
  "denial env ctx r s =
     (let req = original_request env r; a = rules_result s req; b = Evaluate (sd_engine s) ctx PhaseRequest req
      in if blocks a then Some (res_rule_id a, res_reason a)
         else if blocks b then Some (res_rule_id b, res_reason b)
         else Option.bind (sd_scorer s) (scorer_denies env r))"

lemma scorer_stage_response:
  "map_option fst (scorer_stage env req r w s) =
     map_option (\<lambda>_. case Option.bind (sd_scorer s) (scorer_denies env r) of
         Some (i, reason) \<Rightarrow> respondDeny i reason w | None \<Rightarrow> respondAllow w) (scorer_stage env req r w s)"
  by (auto simp: scorer_stage_def scorer_denies_def deny_and_record_def allow_and_record_def Let_def option.map_comp comp_def
      split: option.splits sum.splits prod.splits)

lemma rules_result_world [simp]: "rules_result (s\<lparr>sd_world := world\<rparr>) req = rules_result s req"
  by (simp add: rules_result_def)

lemma handleEvaluate_response:
  assumes "handleEvaluate env w r s = Some (w', s')"
    and "chain_execute (sd_chain s) (evaluate_ctx w r) PhasePreRequest (sd_world s) = (ctx, world, None)"
  shows "w' = (case denial env ctx r s of
     Some (i, reason) \<Rightarrow> respondDeny i reason (cx_writer ctx) | None \<Rightarrow> respondAllow (cx_writer ctx))"
proof -
  define s1 where "s1 = s\<lparr>sd_world := world\<rparr>"
  define req where "req = original_request env r"
  have same: "rules_result s1 req = rules_result s req" "sd_engine s1 = sd_engine s" "sd_scorer s1 = sd_scorer s"
    by (simp_all add: s1_def rules_result_def)
  have run: "(if blocks (rules_result s req)
       then deny_and_record env req (res_rule_id (rules_result s req)) (res_reason (rules_result s req)) (cx_writer ctx) s1
       else policy_stage env req ctx r s1) = Some (w', s')"
    using assms by (simp add: handleEvaluate_def Let_def s1_def req_def cong: if_cong)
  show ?thesis
  proof (cases "blocks (rules_result s req)")
    case True
    then show ?thesis using run by (auto simp: denial_def Let_def deny_and_record_def simp flip: req_def)
  next
    case nr: False
    show ?thesis
    proof (cases "blocks (Evaluate (sd_engine s) ctx PhaseRequest req)")
      case True
      then show ?thesis using run nr same
        by (auto simp: denial_def Let_def policy_stage_def deny_and_record_def simp flip: req_def)
    next
      case False
      then have "scorer_stage env req r (cx_writer ctx) s1 = Some (w', s')"
        using run nr same by (simp add: policy_stage_def Let_def)
      then show ?thesis using scorer_stage_response[of env req r "cx_writer ctx" s1] nr False same
        by (auto simp: denial_def Let_def simp flip: req_def)
    qed
  qed
qed

lemma respond_headers:
  "rs_status w = None \<Longrightarrow> sent_status (respondAllow w) = 204"
  "rs_status w = None \<Longrightarrow> sent_header (respondAllow w) ''X-WN-Verdict'' = ''allow''"
  "rs_status w = None \<Longrightarrow> sent_status (respondDeny i reason w) = 403"
  "rs_status w = None \<Longrightarrow> sent_header (respondDeny i reason w) ''X-WN-Verdict'' = ''deny''"
  "rs_status w = None \<Longrightarrow> sent_header (respondDeny i reason w) ''X-WN-Rule'' = i"
proof -
  have k: "canonical_key ''X-WN-Verdict'' = ''X-Wn-Verdict''" "canonical_key ''X-WN-Rule'' = ''X-Wn-Rule''"
    "canonical_key ''Content-Type'' = ''Content-Type''"
    by code_simp+
  note d = respondAllow_def respondDeny_def http_ops k
  show "rs_status w = None \<Longrightarrow> sent_status (respondAllow w) = 204"
    "rs_status w = None \<Longrightarrow> sent_header (respondAllow w) ''X-WN-Verdict'' = ''allow''"
    "rs_status w = None \<Longrightarrow> sent_status (respondDeny i reason w) = 403"
    "rs_status w = None \<Longrightarrow> sent_header (respondDeny i reason w) ''X-WN-Verdict'' = ''deny''"
    "rs_status w = None \<Longrightarrow> sent_header (respondDeny i reason w) ''X-WN-Rule'' = i"
    by (simp_all add: d)
qed

lemma evaluate_ctx_fresh: "fresh_ctx (evaluate_ctx new_response r)"
  by (simp add: fresh_ctx_def evaluate_ctx_def NewContext_def new_response_def)


section \<open>No panics, and what is recorded\<close>

definition opt_all :: "('a \<Rightarrow> bool) \<Rightarrow> 'a option \<Rightarrow> bool" where
  "opt_all P x = (case x of None \<Rightarrow> True | Some a \<Rightarrow> P a)"

text \<open>The invariants of the components that the sidecar holds.\<close>

definition sidecar_inv :: "'w sidecar \<Rightarrow> bool" where
  "sidecar_inv s = (opt_all learn_wf (sd_learning s) \<and> opt_all audit_wf (sd_audit s) \<and> opt_all broker_inv (sd_broker s))"

lemma with_opt_total:
  assumes "\<And>a. P a \<Longrightarrow> \<exists>a'. f a = Some a' \<and> P a'" "opt_all P x"
  shows "\<exists>x'. with_opt f x = Some x' \<and> opt_all P x' \<and> (x' = None \<longleftrightarrow> x = None)"
  using assms by (fastforce simp: with_opt_def opt_all_def split: option.splits)

lemma publish_block_total:
  assumes "opt_all broker_inv (sd_broker s)"
  shows "\<exists>s'. publish_block env e s = Some s' \<and> opt_all broker_inv (sd_broker s') \<and>
     sd_learning s' = sd_learning s \<and> sd_audit s' = sd_audit s"
proof -
  have "\<exists>b'. Publish (se_event_time env) e b = Some b' \<and> broker_inv b'" if "broker_inv b" for b
    using Publish_total[OF that] broker_inv_Publish[OF that] by blast
  from with_opt_total[where P = broker_inv and f = "Publish (se_event_time env) e", OF this assms]
  show ?thesis by (auto simp: publish_block_def)
qed

lemma recordLearning_total:
  assumes "sidecar_inv s"
  shows "\<exists>s'. recordLearning env req v i reason s = Some s' \<and> sidecar_inv s'"
proof (cases "sd_learning s")
  case (Some l)
  then have "learn_wf l" using assms by (simp add: sidecar_inv_def opt_all_def)
  then obtain l' where l': "learn (se_learn_time env, learning_record env req v i reason) l = Some l'" "learn_wf l'"
    using learn_total by blast
  define s1 where "s1 = s\<lparr>sd_learning := Some l'\<rparr>"
  have s1: "sidecar_inv s1" using assms l' by (simp add: s1_def sidecar_inv_def opt_all_def)
  define i' where "i' = (if i = [] then ''unknown'' else i)"
  obtain a where a: "with_opt (record_event (se_audit_time env, block_audit_event req i' reason)) (sd_audit s1) = Some a"
    "opt_all audit_wf a"
    using with_opt_total[where P = audit_wf and f = "record_event (se_audit_time env, block_audit_event req i' reason)"
        and x = "sd_audit s1", OF record_event_total] s1 unfolding sidecar_inv_def by blast
  obtain s2 where s2: "publish_block env (block_event req i' reason) (s1\<lparr>sd_audit := a\<rparr>) = Some s2"
    "opt_all broker_inv (sd_broker s2)" "sd_learning s2 = sd_learning s1" "sd_audit s2 = a"
    using publish_block_total[of "s1\<lparr>sd_audit := a\<rparr>" env "block_event req i' reason"] s1
    by (auto simp: sidecar_inv_def)
  have "sidecar_inv s2" using s2 a(2) s1 by (simp add: sidecar_inv_def)
  then show ?thesis
    using Some l' s1 a(1) s2(1) by (auto simp: recordLearning_def Let_def simp flip: s1_def i'_def)
qed (use assms in \<open>simp add: recordLearning_def\<close>)

lemma sidecar_inv_updates [simp]:
  "sidecar_inv (s\<lparr>sd_world := x\<rparr>) = sidecar_inv s" "sidecar_inv (s\<lparr>sd_scorer := y\<rparr>) = sidecar_inv s"
  by (simp_all add: sidecar_inv_def)

lemma record_steps_total:
  assumes "sidecar_inv s"
  shows "\<exists>w' s'. deny_and_record env req i reason w s = Some (w', s') \<and> sidecar_inv s'"
    and "\<exists>w' s'. allow_and_record env req w s = Some (w', s') \<and> sidecar_inv s'"
  using recordLearning_total[OF assms, of env req VerdictBlock i reason]
    recordLearning_total[OF assms, of env req VerdictAllow "[]" "[]"]
  by (auto simp: deny_and_record_def allow_and_record_def)

lemma evaluate_progress:
  assumes "sidecar_inv s"
  shows "\<exists>w' s'. handleEvaluate env w r s = Some (w', s') \<and> sidecar_inv s'"
proof -
  obtain ctx world res where x: "chain_execute (sd_chain s) (evaluate_ctx w r) PhasePreRequest (sd_world s) = (ctx, world, res)"
    by (rule prod_cases3)
  define req where "req = original_request env r"
  define s1 where "s1 = s\<lparr>sd_world := world\<rparr>"
  have s1: "sidecar_inv s1" using assms by (simp add: s1_def)
  note d = record_steps_total(1)[OF s1] and a = record_steps_total(2)[OF s1]
  have sc: "\<exists>w' s'. scorer_stage env req r w s1 = Some (w', s') \<and> sidecar_inv s'" for w
  proof (cases "sd_scorer s1")
    case (Some sc)
    obtain o1 sc' where o1: "scorer_evaluate env (request_features r) sc = (o1, sc')" by fastforce
    have s2: "sidecar_inv (s1\<lparr>sd_scorer := Some sc'\<rparr>)" using s1 by simp
    show ?thesis
      using Some o1 record_steps_total[OF s2] by (auto simp: scorer_stage_def Let_def split: sum.splits)
  qed (use a in \<open>simp add: scorer_stage_def\<close>)
  have pol: "\<exists>w' s'. policy_stage env req ctx r s1 = Some (w', s') \<and> sidecar_inv s'"
    using d sc by (simp add: policy_stage_def Let_def)
  show ?thesis
  proof (cases res)
    case (Some err)
    obtain s' where "recordLearning env req VerdictBlock ''plugin-chain'' err s1 = Some s'" "sidecar_inv s'"
      using recordLearning_total[OF s1] by blast
    then show ?thesis using x Some by (auto simp: handleEvaluate_def Let_def s1_def req_def)
  next
    case None
    show ?thesis
    proof (cases "blocks (rules_result s req)")
      case True
      then show ?thesis using x None d by (simp add: handleEvaluate_def Let_def s1_def req_def)
    next
      case False
      then show ?thesis using x None pol by (simp add: handleEvaluate_def Let_def s1_def req_def)
    qed
  qed
qed

text \<open>
  on a sidecar whose components are in their invariants, evaluating a request never panics,
  whatever the plugins, the rules, the bridge and the network answer, and the invariants hold
  afterwards.
\<close>

lemma handleEvaluate_total:
  assumes "sidecar_inv s"
  shows "\<exists>w' s'. handleEvaluate env w r s = Some (w', s') \<and> sidecar_inv s'"
  using assms by (rule evaluate_progress)

section \<open>Witnesses\<close>

definition sample_env :: sidecar_env where
  "sample_env =
     \<lparr>se_lower = ascii_only_lower, se_log2 = (\<lambda>x. x), se_bridge = (\<lambda>_. Inl ''down''), se_new_request = (\<lambda>_. None),
      se_client_do = (\<lambda>_ _. Inl ''down''), se_rfc3339 = (\<lambda>_. []), se_body_error = False, se_start = 1,
      se_score_time = 2, se_finish = 3, se_learn_time = 4, se_audit_time = 5, se_event_time = 6\<rparr>"

definition sample_sidecar :: "unit limiter_world sidecar" where
  "sample_sidecar =
     NewSidecar NewRuleEngine (build_chain [bot_plugin ascii_only_lower (init_bot [(''mode'', DStr ''block'')])]) None
       (Some (NewLearningEngine 10)) (NewStore 10 ''audit.log'' True) (Some NewEngine) (Some NewBroker) sample_world"

lemma sample_sidecar_inv: "sidecar_inv sample_sidecar"
  using audit_wf_new[of 10] learn_wf_new broker_inv_new
  by (auto simp: sidecar_inv_def sample_sidecar_def NewSidecar_def opt_all_def split: option.split)

lemma handleEvaluate_total_witness:
  "\<exists>w' s'. handleEvaluate sample_env new_response sample_request sample_sidecar = Some (w', s') \<and> sidecar_inv s'"
  by (rule handleEvaluate_total[OF sample_sidecar_inv])


end
