(* ===== verification/GoJsonText.thy ===== *)
theory GoJsonText
  imports GoJson
begin

text \<open>
  The encoder of Go's \<^verbatim>\<open>encoding/json\<close>: string literals with the HTML escapes, objects whose
  members are in the order given, and what the decoder of \<^theory_text>\<open>GoJson\<close> makes of them.
\<close>

section \<open>String literals\<close>

definition hex_digit :: "nat \<Rightarrow> char" where
  "hex_digit n = ''0123456789abcdef'' ! n"

definition unicode_escape :: "nat \<Rightarrow> string" where
  "unicode_escape n = [CHR 0x5C, CHR ''u'', CHR ''0'', CHR ''0'', hex_digit (n div 16), hex_digit (n mod 16)]"

definition enc_char :: "char \<Rightarrow> string" where
  "enc_char c =
     (if c = CHR 0x22 \<or> c = CHR 0x5C then [CHR 0x5C, c]
      else if c = CHR 0x08 then [CHR 0x5C, CHR ''b'']
      else if c = CHR 0x0C then [CHR 0x5C, CHR ''f'']
      else if c = CHR 0x0A then [CHR 0x5C, CHR ''n'']
      else if c = CHR 0x0D then [CHR 0x5C, CHR ''r'']
      else if c = CHR 0x09 then [CHR 0x5C, CHR ''t'']
      else if byte c < 32 \<or> c = CHR ''<'' \<or> c = CHR ''>'' \<or> c = CHR ''&'' then unicode_escape (byte c)
      else [c])"

definition enc_chunk :: "nat \<times> string \<Rightarrow> string" where
  "enc_chunk x =
     (case x of (r, bs) \<Rightarrow>
        if r < 128 then concat (map enc_char bs)
        else if r = rune_error \<and> length bs = 1 then [CHR 0x5C, CHR ''u'', CHR ''f'', CHR ''f'', CHR ''f'', CHR ''d'']
        else if r = 0x2028 then [CHR 0x5C, CHR ''u'', CHR ''2'', CHR ''0'', CHR ''2'', CHR ''8'']
        else if r = 0x2029 then [CHR 0x5C, CHR ''u'', CHR ''2'', CHR ''0'', CHR ''2'', CHR ''9'']
        else bs)"

definition json_string :: "string \<Rightarrow> string" where
  "json_string s = CHR 0x22 # concat (map enc_chunk (chunks s)) @ [CHR 0x22]"

lemma enc_ascii: "ascii s \<Longrightarrow> concat (map enc_chunk (chunks s)) = concat (map enc_char s)"
  by (simp add: chunks_ascii ascii_def enc_chunk_def list_all_iff cong: map_cong)

lemma hex_digit_inverse: "n < 16 \<Longrightarrow> is_hex_digit (hex_digit n) \<and> unhex (hex_digit n) = n"
proof -
  have "list_all (\<lambda>n. is_hex_digit (hex_digit n) \<and> unhex (hex_digit n) = n) [0..<16]" by code_simp
  then show "n < 16 \<Longrightarrow> ?thesis" by (simp add: list_all_iff)
qed

lemma hex4_escape: "n < 256 \<Longrightarrow> hex4 (CHR ''0'') (CHR ''0'') (hex_digit (n div 16)) (hex_digit (n mod 16)) = Some n"
proof -
  assume "n < 256"
  then have "n div 16 < 16" "n mod 16 < 16" by auto
  moreover have "is_hex_digit (CHR ''0'')" "unhex (CHR ''0'') = 0" by code_simp+
  ultimately show ?thesis using hex_digit_inverse by (simp add: hex4_def)
qed

lemma lex_unicode:
  assumes "n < 128"
  shows "lex_string (unicode_escape n @ s) = map_option (\<lambda>(w, t). (char_of n # w, t)) (lex_string s)"
proof -
  have "encode_rune n = [char_of n]" using assms by (simp add: encode_rune_def)
  then show ?thesis
    using assms hex4_escape[of n] by (simp add: unicode_escape_def lex_string.simps(2)[of "CHR 0x5C"])
qed

lemma char_of_byte: "char_of (byte c :: nat) = c"
  by simp

lemma lex_enc_char:
  assumes "byte c < 128"
  shows "lex_string (enc_char c @ s) = map_option (\<lambda>(w, t). (c # w, t)) (lex_string s)"
proof -
  let ?ctl = "{CHR 0x22, CHR 0x5C, CHR 0x08, CHR 0x0C, CHR 0x0A, CHR 0x0D, CHR 0x09}"
  show ?thesis
  proof (cases "c \<in> ?ctl")
    case True
    then consider "c = CHR 0x22" | "c = CHR 0x5C" | "c = CHR 0x08" | "c = CHR 0x0C" | "c = CHR 0x0A"
      | "c = CHR 0x0D" | "c = CHR 0x09" by blast
    then show ?thesis
      by cases (simp_all add: enc_char_def lex_string.simps(2)[of "CHR 0x5C"] simple_escape_def)
  next
    case False
    then have e: "enc_char c = (if byte c < 32 \<or> c = CHR ''<'' \<or> c = CHR ''>'' \<or> c = CHR ''&''
        then unicode_escape (byte c) else [c])"
      by (simp add: enc_char_def)
    show ?thesis
    proof (cases "byte c < 32 \<or> c = CHR ''<'' \<or> c = CHR ''>'' \<or> c = CHR ''&''")
      case True
      then show ?thesis using e lex_unicode[OF assms] by (simp only: if_True char_of_byte)
    next
      case plain: False
      then have "enc_char c = [c]" using e by (simp only: if_False)
      then show ?thesis using False plain by (simp add: lex_string.simps(2)[of c])
    qed
  qed
qed

lemma lex_enc_string:
  "ascii s \<Longrightarrow> lex_string (concat (map enc_char s) @ CHR 0x22 # t) = Some (s, t)"
  by (induction s) (auto simp: lex_string.simps(2)[of "CHR 0x22"] lex_enc_char)

lemma json_tokens_string:
  "ascii s \<Longrightarrow> json_tokens (json_string s @ t) = TStr s # json_tokens t"
  by (simp add: json_string_def enc_ascii json_tokens.simps(2)[of "CHR 0x22"] lex_enc_string valid_utf8_def)

section \<open>Objects\<close>

definition json_member :: "string \<times> string \<Rightarrow> string" where
  "json_member kv = json_string (fst kv) @ CHR '':'' # snd kv"

definition json_object :: "(string \<times> string) list \<Rightarrow> string" where
  "json_object kvs = CHR ''{'' # str_join '','' (map json_member kvs) @ ''}''"

text \<open>An object whose members are strings, as text, as tokens and as a value.\<close>

definition string_members :: "(string \<times> string) list \<Rightarrow> (string \<times> string) list" where
  "string_members kvs = map (\<lambda>(k, v). (k, json_string v)) kvs"

definition member_tokens :: "string \<times> string \<Rightarrow> jtok list" where
  "member_tokens kv = [TStr (fst kv), TColon, TStr (snd kv)]"

lemma punctuation_tokens:
  "json_tokens (CHR ''{'' # s) = TOpenO # json_tokens s" "json_tokens (CHR ''}'' # s) = TCloseO # json_tokens s"
  "json_tokens (CHR '':'' # s) = TColon # json_tokens s" "json_tokens (CHR '','' # s) = TComma # json_tokens s"
  by (simp_all add: json_tokens.simps(2))

lemma member_text_tokens:
  "ascii k \<Longrightarrow> ascii v \<Longrightarrow>
   json_tokens (json_member (k, json_string v) @ t) = member_tokens (k, v) @ json_tokens t"
  by (simp add: json_member_def json_tokens_string punctuation_tokens member_tokens_def)

fun join_tokens :: "(string \<times> string) list \<Rightarrow> jtok list" where
  "join_tokens [] = []"
| "join_tokens [kv] = member_tokens kv"
| "join_tokens (kv # kvs) = member_tokens kv @ TComma # join_tokens kvs"

lemma members_text_tokens:
  "list_all (\<lambda>(k, v). ascii k \<and> ascii v) kvs \<Longrightarrow>
   json_tokens (str_join '','' (map json_member (string_members kvs)) @ t) = join_tokens kvs @ json_tokens t"
  by (induction kvs rule: join_tokens.induct)
    (auto simp: string_members_def member_text_tokens punctuation_tokens)

lemma object_text_tokens:
  "list_all (\<lambda>(k, v). ascii k \<and> ascii v) kvs \<Longrightarrow>
   json_tokens (json_object (string_members kvs) @ t) = TOpenO # join_tokens kvs @ TCloseO # json_tokens t"
  by (simp add: json_object_def punctuation_tokens members_text_tokens)

lemma run_members:
  "json_run MKey (FObj ps # st) (join_tokens (kv # kvs) @ ts) =
   json_run MAfter (FObj (ps @ map (\<lambda>(k, v). (k, DStr v)) (kv # kvs)) # st) ts"
  by (induction kvs arbitrary: kv ps) (auto simp: member_tokens_def with_value_def)

lemma run_object:
  "json_run MValue [] (TOpenO # join_tokens kvs @ TCloseO # ts) = Some (DMap (map (\<lambda>(k, v). (k, DStr v)) kvs), ts)"
proof (cases kvs)
  case (Cons kv r)
  have "json_run MFirstKey [FObj []] (join_tokens (kv # r) @ TCloseO # ts) =
      json_run MKey [FObj []] (join_tokens (kv # r) @ TCloseO # ts)"
    by (cases r) (simp_all add: member_tokens_def)
  then show ?thesis using Cons run_members[of "[]" "[]" kv r "TCloseO # ts"] by simp
qed simp

theorem json_parse_object:
  assumes "list_all (\<lambda>(k, v). ascii k \<and> ascii v) kvs"
  shows "json_parse (json_object (string_members kvs)) = Some (DMap (map (\<lambda>(k, v). (k, DStr v)) kvs))"
  using object_text_tokens[OF assms, of "[]"] by (simp add: json_parse_def run_object del: json_run.simps)

section \<open>The shape of the text\<close>

text \<open>The text of a string, a member or an object is printable ASCII.\<close>

definition printable :: "string \<Rightarrow> bool" where
  "printable s = list_all (\<lambda>c. 32 \<le> byte c \<and> byte c < 128) s"

lemma printable_append [simp]: "printable (s @ t) = (printable s \<and> printable t)"
  by (simp add: printable_def)

lemma printable_Cons [simp]: "printable (c # s) = (32 \<le> byte c \<and> byte c < 128 \<and> printable s)"
  by (simp add: printable_def)

lemma printable_Nil [simp]: "printable []"
  by (simp add: printable_def)

lemma printable_ascii: "printable s \<Longrightarrow> ascii s"
  by (simp add: printable_def ascii_def list_all_iff)

lemma printable_no_newline: "printable s \<Longrightarrow> CHR 0x0A \<notin> set s"
  by (auto simp: printable_def list_all_iff)

lemma printable_hex_digit: "n < 16 \<Longrightarrow> printable [hex_digit n]"
proof -
  have "list_all (\<lambda>n. printable [hex_digit n]) [0..<16]" by code_simp
  then show "n < 16 \<Longrightarrow> ?thesis" by (simp add: list_all_iff)
qed

lemma printable_enc_char:
  assumes "byte c < 128"
  shows "printable (enc_char c)"
proof -
  have "byte c div 16 < 16" "byte c mod 16 < 16" using assms by auto
  then have "printable (unicode_escape (byte c))"
    using printable_hex_digit[of "byte c div 16"] printable_hex_digit[of "byte c mod 16"]
    unfolding unicode_escape_def by simp
  then show ?thesis using assms unfolding enc_char_def by (simp split: if_split)
qed

lemma printable_json_string: "ascii s \<Longrightarrow> printable (json_string s)"
proof -
  have "ascii s \<Longrightarrow> printable (concat (map enc_char s))"
    by (induction s) (auto simp: printable_enc_char)
  then show "ascii s \<Longrightarrow> ?thesis" by (simp add: json_string_def enc_ascii)
qed

lemma printable_json_object:
  "list_all (\<lambda>(k, v). ascii k \<and> printable v) kvs \<Longrightarrow> printable (json_object kvs)"
proof -
  assume "list_all (\<lambda>(k, v). ascii k \<and> printable v) kvs"
  then have "printable (str_join '','' (map json_member kvs))"
    by (induction kvs rule: induct_list012) (auto simp: json_member_def printable_json_string)
  then show ?thesis by (simp add: json_object_def)
qed

end
