(* ===== verification/EventWire.thy ===== *)
theory EventWire
  imports Events GoJsonText GoHttp "HOL-Library.AList" "HOL-Library.List_Lexorder"
begin

text \<open>
  The wire format of \<^verbatim>\<open>events.WafEvent\<close>: what \<^verbatim>\<open>json.Marshal\<close> writes for the field tags of
  \<^verbatim>\<open>internal/events/broker.go\<close>, the server-sent event around it, and the decoder that the
  management API and the agent run. The text of times and of floating-point numbers is a
  parameter.
\<close>

section \<open>Encoding\<close>

text \<open>The value of an \<^verbatim>\<open>any\<close>; the keys of a map are written in their order.\<close>

fun json_text :: "(float64 \<Rightarrow> string) \<Rightarrow> dyn \<Rightarrow> string" where
  "json_text fn DNull = ''null''"
| "json_text fn (DBool b) = (if b then ''true'' else ''false'')"
| "json_text fn (DInt n) = itoa n"
| "json_text fn (DNum q) = fn q"
| "json_text fn (DStr s) = json_string s"
| "json_text fn (DList vs) = CHR ''['' # str_join '','' (map (json_text fn) vs) @ '']''"
| "json_text fn (DMap m) =
     json_object (sort_key fst (AList.clearjunk (map (\<lambda>(k, v). (k, json_text fn v)) m)))"

definition omit_empty :: "string \<Rightarrow> string \<Rightarrow> (string \<times> string) list" where
  "omit_empty k v = (if v = [] then [] else [(k, v)])"

definition event_fields :: "(int \<Rightarrow> string) \<Rightarrow> waf_event \<Rightarrow> (string \<times> string) list" where
  "event_fields ft e =
     [(''type'', event_type_string (ev_type e)), (''timestamp'', ft (ev_timestamp e))] @
     omit_empty ''method'' (ev_method e) @ omit_empty ''path'' (ev_path e) @
     omit_empty ''remote_ip'' (ev_remote_ip e) @ omit_empty ''rule_id'' (ev_rule_id e) @
     omit_empty ''reason'' (ev_reason e) @ []"

definition event_text :: "(int \<Rightarrow> string) \<Rightarrow> (float64 \<Rightarrow> string) \<Rightarrow> waf_event \<Rightarrow> string" where
  "event_text ft fn e =
     json_object (string_members (event_fields ft e) @
       (if ev_payload e = DNull then [] else [(''payload'', json_text fn (ev_payload e))]))"

definition newline2 :: string where "newline2 = [CHR 0x0A, CHR 0x0A]"

definition connected :: string where "connected = '': connected'' @ newline2"

text \<open>The three writes of one server-sent event.\<close>

definition sse_frame :: "string \<Rightarrow> string" where
  "sse_frame data = ''data: '' @ data @ newline2"

text \<open>What other goroutines do to the broker while a stream waits, and the writes of a stream.\<close>

datatype broker_op = OpPublish int waf_event | OpSubscribe

fun broker_apply :: "broker_op \<Rightarrow> broker \<Rightarrow> broker option" where
  "broker_apply (OpPublish now e) b = Publish now e b"
| "broker_apply OpSubscribe b = Some (snd (Subscribe b))"

definition write_frame :: "string \<Rightarrow> response \<Rightarrow> response" where
  "write_frame data w = write_piece (Raw newline2) (write_piece (Raw data) (write_piece (Raw ''data: '') w))"

definition sse_open :: "response \<Rightarrow> response" where
  "sse_open w =
     write_piece (Raw connected)
       (set_header ''Connection'' ''keep-alive'' (set_header ''Cache-Control'' ''no-cache''
         (set_header ''Content-Type'' ''text/event-stream'' w)))"

section \<open>Decoding\<close>

fun conv_time :: "(string \<Rightarrow> int option) \<Rightarrow> dyn \<Rightarrow> int \<Rightarrow> int option" where
  "conv_time pt (DStr s) _ = pt s" | "conv_time pt DNull t = Some t" | "conv_time pt _ _ = None"

definition conv_any :: "dyn \<Rightarrow> dyn \<Rightarrow> dyn option" where
  "conv_any v _ = Some (generic v)"

definition zero_event :: waf_event where
  "zero_event =
     \<lparr>ev_type = TypeOther [], ev_timestamp = - 62135596800 * 10 ^ 9, ev_method = [], ev_path = [], ev_remote_ip = [],
      ev_rule_id = [], ev_reason = [], ev_payload = DNull\<rparr>"

fun decode_event :: "(string \<Rightarrow> int option) \<Rightarrow> dyn \<Rightarrow> waf_event option" where
  "decode_event pt (DMap ps) =
     (let (t, g1) = field conv_string ''type'' [] ps;
          (ts, g2) = field (conv_time pt) ''timestamp'' (ev_timestamp zero_event) ps;
          (m, g3) = field conv_string ''method'' [] ps;
          (p, g4) = field conv_string ''path'' [] ps;
          (ip, g5) = field conv_string ''remote_ip'' [] ps;
          (i, g6) = field conv_string ''rule_id'' [] ps;
          (r, g7) = field conv_string ''reason'' [] ps;
          (pl, g8) = field conv_any ''payload'' DNull ps
      in if g1 \<and> g2 \<and> g3 \<and> g4 \<and> g5 \<and> g6 \<and> g7 \<and> g8
         then Some \<lparr>ev_type = event_type_of t, ev_timestamp = ts, ev_method = m, ev_path = p, ev_remote_ip = ip,
                    ev_rule_id = i, ev_reason = r, ev_payload = pl\<rparr>
         else None)"
| "decode_event pt DNull = Some zero_event"
| "decode_event pt _ = None"

definition parse_event :: "(string \<Rightarrow> int option) \<Rightarrow> string \<Rightarrow> waf_event option" where
  "parse_event pt s = Option.bind (json_parse s) (decode_event pt)"

section \<open>Round trip\<close>

text \<open>Events whose text the format carries without loss.\<close>

definition plain_event :: "(int \<Rightarrow> string) \<Rightarrow> waf_event \<Rightarrow> bool" where
  "plain_event ft e =
     (event_type_of (event_type_string (ev_type e)) = ev_type e \<and> ascii (event_type_string (ev_type e)) \<and>
      ascii (ft (ev_timestamp e)) \<and> ascii (ev_method e) \<and> ascii (ev_path e) \<and> ascii (ev_remote_ip e) \<and>
      ascii (ev_rule_id e) \<and> ascii (ev_reason e) \<and> ev_payload e = DNull)"

lemma field_Nil: "field conv name d [] = (d, True)"
  by (simp add: field_def)

lemma field_Cons_other:
  "fold_name k \<noteq> fold_name name \<Longrightarrow> field conv name d ((k, v) # ps) = field conv name d ps"
  by (simp add: field_def)

lemma field_Cons_same:
  "fold_name k = fold_name name \<Longrightarrow> conv v d = Some y \<Longrightarrow> field conv name d ((k, v) # ps) = field conv name y ps"
  by (simp add: field_def)

text \<open>A member that is left out when empty reads back as itself.\<close>

lemma field_omit_other:
  "fold_name k \<noteq> fold_name name \<Longrightarrow>
   field conv name d (map (\<lambda>(k, v). (k, DStr v)) (omit_empty k v @ kvs)) = field conv name d (map (\<lambda>(k, v). (k, DStr v)) kvs)"
  by (simp add: omit_empty_def field_Cons_other)

lemma field_omit_same:
  "field conv_string k [] (map (\<lambda>(k, v). (k, DStr v)) (omit_empty k v @ kvs)) =
   field conv_string k v (map (\<lambda>(k, v). (k, DStr v)) kvs)"
  by (simp add: omit_empty_def field_Cons_same)

lemma field_head:
  "fold_name k \<noteq> fold_name name \<Longrightarrow>
     field conv name d (map (\<lambda>(k, v). (k, DStr v)) ((k, w) # kvs)) = field conv name d (map (\<lambda>(k, v). (k, DStr v)) kvs)"
  "conv (DStr w) d = Some y \<Longrightarrow>
     field conv k d (map (\<lambda>(k, v). (k, DStr v)) ((k, w) # kvs)) = field conv k y (map (\<lambda>(k, v). (k, DStr v)) kvs)"
  by (simp_all add: field_Cons_other field_Cons_same)

lemma event_keys_folded:
  "fold_name ''type'' = ''type''" "fold_name ''timestamp'' = ''timestamp''" "fold_name ''method'' = ''method''"
  "fold_name ''path'' = ''path''" "fold_name ''remote_ip'' = ''remote_ip''" "fold_name ''rule_id'' = ''rule_id''"
  "fold_name ''reason'' = ''reason''" "fold_name ''payload'' = ''payload''"
  by code_simp+

lemma event_keys_ascii: "list_all ascii [''type'', ''timestamp'', ''method'', ''path'', ''remote_ip'', ''rule_id'', ''reason'']"
  by code_simp

lemma decode_event_fields:
  assumes "pt (ft (ev_timestamp e)) = Some (ev_timestamp e)" "event_type_of (event_type_string (ev_type e)) = ev_type e"
    "ev_payload e = DNull"
  shows "decode_event pt (DMap (map (\<lambda>(k, v). (k, DStr v)) (event_fields ft e))) = Some e"
proof -
  let ?d = "map (\<lambda>(k, v). (k, DStr v)) (event_fields ft e)"
  note f = event_fields_def append_Cons append_Nil field_omit_other field_omit_same field_head event_keys_folded
    field_Nil list.map(1)
  have "field conv_string ''type'' [] ?d = (event_type_string (ev_type e), True)"
    "field (conv_time pt) ''timestamp'' (ev_timestamp zero_event) ?d = (ev_timestamp e, True)"
    "field conv_string ''method'' [] ?d = (ev_method e, True)"
    "field conv_string ''path'' [] ?d = (ev_path e, True)"
    "field conv_string ''remote_ip'' [] ?d = (ev_remote_ip e, True)"
    "field conv_string ''rule_id'' [] ?d = (ev_rule_id e, True)"
    "field conv_string ''reason'' [] ?d = (ev_reason e, True)"
    "field conv_any ''payload'' DNull ?d = (DNull, True)"
    using assms(1) by (simp_all add: f del: map_append list.map(2) append_Nil2 fold_name.simps)
  then show ?thesis using assms(2,3) by simp
qed

lemma parse_event_text:
  assumes "plain_event ft e" "pt (ft (ev_timestamp e)) = Some (ev_timestamp e)"
  shows "parse_event pt (event_text ft fn e) = Some e"
proof -
  have a: "list_all (\<lambda>(k, v). ascii k \<and> ascii v) (event_fields ft e)"
    using assms(1) event_keys_ascii by (simp add: event_fields_def omit_empty_def plain_event_def)
  have "event_text ft fn e = json_object (string_members (event_fields ft e))"
    using assms(1) by (simp add: event_text_def plain_event_def)
  then show ?thesis
    using json_parse_object[OF a] decode_event_fields[of pt ft e] assms
    by (simp add: parse_event_def plain_event_def del: decode_event.simps)
qed

end
