(* ===== verification/SidecarHandlers.thy ===== *)
theory SidecarHandlers
  imports Sidecar EventWire
begin

text \<open>
  The other handlers of \<^verbatim>\<open>internal/engine/sidecar.go\<close>: the learning reports, the custom
  rules and the event stream. A struct given to the JSON encoder is the list of its members in
  the order of its fields; a nil slice is \<^verbatim>\<open>null\<close>.
\<close>

section \<open>Encoding\<close>

definition suggestion_json :: "suggestion \<Rightarrow> dyn" where
  "suggestion_json g =
     DMap [(''type'', DStr (sg_type g)), (''pattern'', DStr (sg_pattern g)), (''description'', DStr (sg_description g)),
           (''confidence'', DNum (sg_confidence g)), (''matches'', DInt (int (sg_matches g))), (''sample'', DStr (sg_sample g))]"

definition learn_stats_json :: "learn_stats \<Rightarrow> dyn" where
  "learn_stats_json st =
     DMap [(''allowed'', DInt (int (ls_allowed st))), (''blocked'', DInt (int (ls_blocked st))),
           (''max'', DInt (int (ls_max st))), (''total'', DInt (int (ls_total st)))]"

definition dataset_json :: "dataset_record \<Rightarrow> dyn" where
  "dataset_json d =
     DMap ([(''uri'', DStr (ds_uri d)), (''method'', DStr (ds_method d)), (''host'', DStr (ds_host d)),
            (''remote_ip'', DStr (ds_remote_ip d)), (''content_type'', DStr (ds_content_type d)),
            (''uri_length'', DInt (int (ds_uri_length d))), (''body_length'', DInt (int (ds_body_length d))),
            (''has_query'', DBool (ds_has_query d)), (''query_params'', DInt (int (ds_query_params d))),
            (''label'', DStr (ds_label d))] @
           omit_string ''rule_id'' (ds_rule_id d) @ omit_string ''reason'' (ds_reason d) @
           [(''timestamp'', DStr (ds_timestamp d))])"

fun action_string :: "action \<Rightarrow> string" where
  "action_string ActionAllow = ''allow''"
| "action_string ActionDeny = ''deny''"
| "action_string ActionBlock = ''block''"
| "action_string ActionLog = ''log''"
| "action_string (ActionOther s) = s"

definition action_of :: "string \<Rightarrow> action" where
  "action_of s =
     (if s = ''allow'' then ActionAllow else if s = ''deny'' then ActionDeny else if s = ''block'' then ActionBlock
      else if s = ''log'' then ActionLog else ActionOther s)"

lemma action_of_string: "action_string (action_of s) = s"
  by (auto simp: action_of_def)

definition rule_json :: "custom_rule \<Rightarrow> dyn" where
  "rule_json r =
     DMap ([(''id'', DStr (cr_id r)), (''name'', DStr (cr_name r)), (''description'', DStr (cr_description r)),
            (''enabled'', DBool (cr_enabled r)), (''priority'', DInt (cr_priority r)),
            (''action'', DStr (action_string (cr_action r)))] @
           omit_strings ''methods'' (cr_methods r) @ omit_string ''path_pattern'' (cr_path_pattern r) @
           omit_string ''path_exact'' (cr_path_exact r) @ omit_strings ''hosts'' (cr_hosts r) @
           omit_strings ''ips'' (cr_ips r) @ omit_strings ''ip_cidrs'' (cr_ip_cidrs r) @
           omit_string ''header_name'' (cr_header_name r) @ omit_string ''header_value'' (cr_header_value r) @
           omit_string ''body_contains'' (cr_body_contains r) @ omit_string ''query_param'' (cr_query_param r) @
           omit_string ''query_value'' (cr_query_value r))"

text \<open>Decoding a rule: every member must have its type.\<close>

fun decode_rule :: "dyn \<Rightarrow> custom_rule option" where
  "decode_rule (DMap ps) =
     (let (i, g1) = field conv_string ''id'' [] ps;
          (n, g2) = field conv_string ''name'' [] ps;
          (d, g3) = field conv_string ''description'' [] ps;
          (en, g4) = field conv_bool ''enabled'' False ps;
          (pr, g5) = field conv_int ''priority'' 0 ps;
          (a, g6) = field conv_string ''action'' [] ps;
          (ms, g7) = field conv_strings ''methods'' [] ps;
          (pp, g8) = field conv_string ''path_pattern'' [] ps;
          (pe, g9) = field conv_string ''path_exact'' [] ps;
          (hs, g10) = field conv_strings ''hosts'' [] ps;
          (ips, g11) = field conv_strings ''ips'' [] ps;
          (cs, g12) = field conv_strings ''ip_cidrs'' [] ps;
          (hn, g13) = field conv_string ''header_name'' [] ps;
          (hv, g14) = field conv_string ''header_value'' [] ps;
          (bc, g15) = field conv_string ''body_contains'' [] ps;
          (qp, g16) = field conv_string ''query_param'' [] ps;
          (qv, g17) = field conv_string ''query_value'' [] ps
      in if list_all id [g1, g2, g3, g4, g5, g6, g7, g8, g9, g10, g11, g12, g13, g14, g15, g16, g17]
         then Some \<lparr>cr_id = i, cr_name = n, cr_description = d, cr_enabled = en, cr_priority = pr,
                    cr_action = action_of a, cr_methods = ms, cr_path_pattern = pp, cr_path_exact = pe,
                    cr_hosts = hs, cr_ips = ips, cr_ip_cidrs = cs, cr_header_name = hn, cr_header_value = hv,
                    cr_body_contains = bc, cr_query_param = qp, cr_query_value = qv\<rparr>
         else None)"
| "decode_rule DNull = Some empty_rule"
| "decode_rule _ = None"

section \<open>Reports\<close>

definition handleLearningSuggestions :: "response \<Rightarrow> 'w sidecar \<Rightarrow> response" where
  "handleLearningSuggestions w s =
     (case sd_learning s of
        None \<Rightarrow> write_piece (Raw ''[]'') (write_header 200 w)
      | Some l \<Rightarrow> send_json 200 (json_array suggestion_json (Suggestions l)) w)"

definition handleLearningStats :: "response \<Rightarrow> 'w sidecar \<Rightarrow> response" where
  "handleLearningStats w s =
     (case sd_learning s of
        None \<Rightarrow> write_piece (Raw ''{}'') (write_header 200 w)
      | Some l \<Rightarrow> send_json 200 (learn_stats_json (learn_stats l)) w)"

definition handleLearningDataset :: "sidecar_env \<Rightarrow> response \<Rightarrow> 'w sidecar \<Rightarrow> response" where
  "handleLearningDataset env w s =
     (case sd_learning s of
        None \<Rightarrow> write_piece (Raw ''[]'') (write_header 200 w)
      | Some l \<Rightarrow> send_json 200 (json_array dataset_json (ExportDataset (se_rfc3339 env) l)) w)"

section \<open>Custom rules\<close>

definition handleRulesList :: "response \<Rightarrow> 'w sidecar \<Rightarrow> response" where
  "handleRulesList w s =
     (case sd_rules s of
        None \<Rightarrow> write_piece (Raw ''[]'') (write_header 200 w)
      | Some e \<Rightarrow> send_json 200 (json_array rule_json (list_rules e)) w)"

definition custom_id :: "int \<Rightarrow> string" where
  "custom_id now = ''custom-'' @ itoa now"

lemma custom_id_nonempty [simp]: "custom_id now \<noteq> []"
  by (simp add: custom_id_def)

definition handleRulesAdd :: "int \<Rightarrow> response \<Rightarrow> http_request \<Rightarrow> 'w sidecar \<Rightarrow> response \<times> 'w sidecar" where
  "handleRulesAdd now w r s =
     (case sd_rules s of
        None \<Rightarrow> (writeSidecarError ''rules engine not available'' 503 w, s)
      | Some e \<Rightarrow>
         (case decode_first decode_rule (rq_body r) of
            None \<Rightarrow> (writeSidecarError ''invalid rule JSON'' 400 w, s)
          | Some rule \<Rightarrow>
              let rule = rule\<lparr>cr_id := custom_id now\<rparr>
              in (send_json 201 (rule_json rule) w, s\<lparr>sd_rules := Some (add_rule e rule)\<rparr>)))"

definition handleRulesDelete :: "response \<Rightarrow> http_request \<Rightarrow> 'w sidecar \<Rightarrow> response \<times> 'w sidecar" where
  "handleRulesDelete w r s =
     (case sd_rules s of
        None \<Rightarrow> (writeSidecarError ''rules engine not available'' 503 w, s)
      | Some e \<Rightarrow>
          let i = query_get r ''id'' in
          if i = [] then (writeSidecarError ''missing id parameter'' 400 w, s)
          else (write_header 204 w, s\<lparr>sd_rules := Some (remove_rule e i)\<rparr>))"

section \<open>Event stream\<close>

text \<open>
  The loop of \<^verbatim>\<open>handleSSE\<close> under a schedule: the branch its \<^verbatim>\<open>select\<close> takes, or what another
  goroutine does to the broker in between. An empty schedule leaves the handler waiting.
\<close>

datatype sse_choice = SseDone | SseData | SseOther broker_op

fun sse_loop :: "(waf_event \<Rightarrow> string) \<Rightarrow> nat \<Rightarrow> sse_choice list \<Rightarrow> response \<Rightarrow> broker \<Rightarrow> (response \<times> broker) option" where
  "sse_loop enc ch [] w b = Some (w, b)"
| "sse_loop enc ch (SseDone # cs) w b = map_option (\<lambda>b. (w, b)) (Unsubscribe ch b)"
| "sse_loop enc ch (SseOther x # cs) w b =
     (case broker_apply x b of None \<Rightarrow> None | Some b \<Rightarrow> sse_loop enc ch cs w b)"
| "sse_loop enc ch (SseData # cs) w b =
     (case receive ch b of
        Some (m, b) \<Rightarrow> sse_loop enc ch cs (write_frame (enc m) w) b
      | None \<Rightarrow>
          if ch < length (br_channels b) \<and> cn_closed (br_channels b ! ch)
          then map_option (\<lambda>b. (w, b)) (Unsubscribe ch b)
          else sse_loop enc ch cs w b)"

definition handleSSE ::
    "(waf_event \<Rightarrow> string) \<Rightarrow> bool \<Rightarrow> sse_choice list \<Rightarrow> response \<Rightarrow> 'w sidecar \<Rightarrow> (response \<times> 'w sidecar) option" where
  "handleSSE enc flusher cs w s =
     (case sd_broker s of
        None \<Rightarrow> Some (write_header 503 w, s)
      | Some b \<Rightarrow>
          if \<not> flusher then Some (write_header 500 w, s)
          else case Subscribe b of (ch, b) \<Rightarrow>
            map_option (\<lambda>(w, b). (w, s\<lparr>sd_broker := Some b\<rparr>)) (sse_loop enc ch cs (sse_open w) b))"

section \<open>What the stream delivers\<close>

text \<open>What the schedule publishes before the handler returns.\<close>

fun schedule_published :: "sse_choice list \<Rightarrow> waf_event list" where
  "schedule_published [] = []"
| "schedule_published (SseDone # cs) = []"
| "schedule_published (SseOther (OpPublish now e) # cs) = e\<lparr>ev_timestamp := now\<rparr> # schedule_published cs"
| "schedule_published (c # cs) = schedule_published cs"

definition frame_pieces :: "(waf_event \<Rightarrow> string) \<Rightarrow> waf_event \<Rightarrow> piece list" where
  "frame_pieces enc m = [Raw ''data: '', Raw (enc m), Raw newline2]"

lemma write_frame_body: "rs_body (write_frame (enc m) w) = rs_body w @ frame_pieces enc m"
  by (simp add: write_frame_def frame_pieces_def write_piece_def write_header_def Let_def)

lemma receive_inv:
  assumes "broker_inv b" "receive ch b = Some (m, b')"
  shows "broker_inv b' \<and> br_subscribers b' = br_subscribers b \<and> buffered ch b = m # buffered ch b'"
proof -
  have "broker_step b (EReceive ch m) b'" using assms(2) by (rule step_receive)
  then show ?thesis using assms broker_inv_step
    by (auto simp: receive_def buffered_def split: if_splits list.splits)
qed

lemma receive_empty:
  "receive ch b = None \<Longrightarrow> ch < length (br_channels b) \<Longrightarrow> buffered ch b = []"
  by (auto simp: receive_def buffered_def split: list.splits)

text \<open>What the handler relies on about its channel while it waits.\<close>

definition sse_state :: "nat \<Rightarrow> broker \<Rightarrow> bool" where
  "sse_state ch b = (broker_inv b \<and> ch \<in> set (br_subscribers b))"

lemma sse_state_facts:
  assumes "sse_state ch b"
  shows "ch < length (br_channels b)" "\<not> cn_closed (br_channels b ! ch)" "broker_inv b"
  using assms by (auto simp: sse_state_def broker_inv_def)

lemma sse_state_apply:
  assumes "sse_state ch b"
  shows "\<exists>b'. broker_apply x b = Some b' \<and> sse_state ch b' \<and>
     (case x of OpSubscribe \<Rightarrow> buffered ch b' = buffered ch b
      | OpPublish now e \<Rightarrow> buffered ch b' =
          (if length (buffered ch b) < channel_slots then buffered ch b @ [e\<lparr>ev_timestamp := now\<rparr>] else buffered ch b))"
proof (cases x)
  case (OpPublish now e)
  have inv: "broker_inv b" and ch: "ch \<in> set (br_subscribers b)" using assms by (auto simp: sse_state_def)
  obtain b' where b': "Publish now e b = Some b'" using Publish_total[OF inv] by blast
  moreover have "broker_inv b'" using inv b' by (rule broker_inv_Publish)
  moreover have "br_subscribers b' = br_subscribers b" using b' by (auto simp: Publish_total[OF inv])
  ultimately show ?thesis
    using OpPublish ch buffered_publish[OF inv b', of ch] by (simp add: sse_state_def)
next
  case OpSubscribe
  then show ?thesis
    using assms broker_inv_Subscribe[of b] sse_state_facts(1)[OF assms]
    by (auto simp: sse_state_def Subscribe_def Let_def buffered_def nth_append)
qed

lemma subseq_insert: "subseq zs (xs @ ys) \<Longrightarrow> subseq zs (xs @ y # ys)"
  by (erule subseq_order.order_trans) (auto intro: list_emb_append_mono)

lemma sse_loop_stream:
  assumes "sse_state ch b"
  shows "\<exists>w' b' ms. sse_loop enc ch cs w b = Some (w', b') \<and> broker_inv b' \<and>
     rs_body w' = rs_body w @ concat (map (frame_pieces enc) ms) \<and>
     (SseDone \<in> set cs \<longrightarrow> ch \<notin> set (br_subscribers b')) \<and>
     subseq (ms @ buffered ch b') (buffered ch b @ schedule_published cs) \<and>
     (length (buffered ch b) + length (schedule_published cs) \<le> channel_slots \<longrightarrow>
        ms @ buffered ch b' = buffered ch b @ schedule_published cs)"
  using assms
proof (induction enc ch cs w b rule: sse_loop.induct)
  case (1 enc ch w b)
  then show ?case by (auto simp: sse_state_def intro!: exI[of _ "[]"])
next
  case (2 enc ch cs w b)
  note f = sse_state_facts[OF 2]
  obtain b' where b': "Unsubscribe ch b = Some b'" using f by (simp add: Unsubscribe_def Let_def)
  then have "buffered ch b' = buffered ch b" "ch \<notin> set (br_subscribers b')"
    using f by (auto simp: Unsubscribe_def Let_def buffered_def)
  moreover have "broker_inv b'" using f(3) b' by (rule broker_inv_Unsubscribe)
  ultimately show ?case using b' by (auto intro!: exI[of _ "[]"])
next
  case (3 enc ch x cs w b)
  obtain b' where b': "broker_apply x b = Some b'" "sse_state ch b'"
    "case x of OpSubscribe \<Rightarrow> buffered ch b' = buffered ch b
      | OpPublish now e \<Rightarrow> buffered ch b' =
          (if length (buffered ch b) < channel_slots then buffered ch b @ [e\<lparr>ev_timestamp := now\<rparr>] else buffered ch b)"
    using sse_state_apply[OF 3(2)] by blast
  from 3(1)[OF b'(1,2)] show ?case
    apply (elim exE conjE)
    subgoal for w' b'' ms
      apply (rule exI[of _ w'], rule exI[of _ b''], rule exI[of _ ms])
      using b' by (auto split: broker_op.splits if_splits intro: subseq_insert)
    done
next
  case (4 enc ch cs w b)
  show ?case
  proof (cases "receive ch b")
    case None
    then show ?thesis using 4 sse_state_facts[OF 4(3)] by simp
  next
    case (Some x)
    obtain m b1 where r: "receive ch b = Some (m, b1)" using Some by (cases x) auto
    note i = receive_inv[OF sse_state_facts(3)[OF 4(3)] r]
    have "sse_state ch b1" using i 4(3) by (simp add: sse_state_def)
    from 4(2)[OF r refl this] show ?thesis
      apply (elim exE conjE)
      subgoal for w' b'' ms
        apply (rule exI[of _ w'], rule exI[of _ b''], rule exI[of _ "m # ms"])
        using r i by (auto simp: write_frame_body)
      done
  qed
qed




section \<open>Adding and deleting a rule\<close>

lemma delete_first_snoc: "list_all (\<lambda>x. \<not> p x) xs \<Longrightarrow> p y \<Longrightarrow> delete_first p (xs @ [y]) = xs"
  by (induction xs) auto

text \<open>
  deleting the rule that the last addition created gives back the state before it: the
  addition answers 201 with the stored rule under its generated id, the deletion 204.
\<close>

lemma rules_add_delete:
  assumes "sd_rules s = Some e" "decode_first decode_rule (rq_body r) = Some rule"
    and "list_all (\<lambda>q. cr_id q \<noteq> custom_id now) (eng_rules e)" "query_get d ''id'' = custom_id now"
  shows "\<exists>s1. handleRulesAdd now w r s = (send_json 201 (rule_json (rule\<lparr>cr_id := custom_id now\<rparr>)) w, s1) \<and>
     sd_rules s1 = Some (e\<lparr>eng_rules := eng_rules e @ [rule\<lparr>cr_id := custom_id now\<rparr>]\<rparr>) \<and>
     handleRulesDelete w' d s1 = (write_header 204 w', s)"
proof -
  define rule' where "rule' = rule\<lparr>cr_id := custom_id now\<rparr>"
  have i: "cr_id rule' = custom_id now" by (simp add: rule'_def)
  have "remove_rule (add_rule e rule') (custom_id now) = e"
    using delete_first_snoc[of "\<lambda>q. cr_id q = custom_id now" "eng_rules e" rule'] assms(3) i
    by (simp add: remove_rule_def add_rule_def)
  then show ?thesis
    using assms by (simp add: handleRulesAdd_def handleRulesDelete_def Let_def add_rule_def flip: rule'_def)
qed

lemma rules_add_delete_witness:
  "\<exists>s1. handleRulesAdd 5 new_response (sample_request\<lparr>rq_body := ''{}''\<rparr>) sample_sidecar =
       (send_json 201 (rule_json (empty_rule\<lparr>cr_id := custom_id 5\<rparr>)) new_response, s1) \<and>
     handleRulesDelete new_response (sample_request\<lparr>rq_query := [(''id'', custom_id 5)]\<rparr>) s1 =
       (write_header 204 new_response, sample_sidecar)"
proof -
  have "decode_first decode_rule (rq_body (sample_request\<lparr>rq_body := ''{}''\<rparr>)) = Some empty_rule"
    by (simp add: decode_first_def decode_value_def punctuation_tokens field_Nil action_of_def empty_rule_def)
  moreover have "sd_rules sample_sidecar = Some NewEngine" by (simp add: sample_sidecar_def NewSidecar_def)
  ultimately show ?thesis
    using rules_add_delete[of sample_sidecar NewEngine "sample_request\<lparr>rq_body := ''{}''\<rparr>" empty_rule 5
        "sample_request\<lparr>rq_query := [(''id'', custom_id 5)]\<rparr>" new_response new_response]
    by (auto simp: NewEngine_def query_get_def)
qed

end
