(* ===== verification/Config.thy ===== *)
theory Config
  imports GoDyn
begin

text \<open>
  \<^verbatim>\<open>internal/config\<close>: the configuration records, their defaults,
      parsing and validation.
  Reading a file and the YAML decoder, which overwrites the fields that the text sets in a
  given record, are arguments. Field names carry the prefix of their record.
\<close>

section \<open>Records\<close>

record SidecarConfig =
  sc_socket_path :: string
  sc_fail_open :: bool
  sc_timeout_ms :: int
  sc_event_api_url :: string
  sc_event_auth_token :: string
  sc_event_timeout_ms :: int

record LoggingConfig =
  lg_level :: string
  lg_format :: string
  lg_output :: string

record NginxConfig =
  nx_binary_path :: string
  nx_config_path :: string
  nx_worker_processes :: int
  nx_worker_connections :: int
  nx_enable_http2 :: bool
  nx_enable_http3 :: bool

record AppSecConfig =
  as_enabled :: bool
  as_engine :: string
  as_rules_path :: string
  as_ml_model_path :: string
  as_learning_mode :: bool
  as_bridge_socket :: string
  as_timeout_ms :: int

record GatewayConfig =
  gw_max_connections :: int
  gw_read_timeout :: int
  gw_write_timeout :: int
  gw_idle_timeout :: int
  gw_enable_rate_limiting :: bool

record TLSConfig =
  tl_cert_file :: string
  tl_key_file :: string

record RouteConfig =
  rt_name :: string
  rt_host :: string
  rt_path :: string
  rt_methods :: "string list"
  rt_upstream :: string
  rt_tls :: "TLSConfig option"
  rt_plugins :: "string list"
  rt_headers :: "(string \<times> string) list"

record ACMEConfig =
  ac_enabled :: bool
  ac_domains :: "string list"
  ac_email :: string
  ac_cache_dir :: string
  ac_staging :: bool

record TLSGlobalConfig =
  tg_static_cert :: string
  tg_static_key :: string
  tg_acme :: ACMEConfig

record PluginConfig =
  pc_name :: string
  pc_enabled :: bool
  pc_config :: "(string \<times> dyn) list"

record FirewallConfig =
  fw_enabled :: bool
  fw_backend :: string
  fw_default_in :: string
  fw_default_out :: string
  fw_managed_ports :: "int list"
  fw_block_list :: "string list"

record UserConfig =
  us_username :: string
  us_password_hash :: string

record OIDCProvider =
  oi_name :: string
  oi_issuer_url :: string
  oi_client_id :: string
  oi_client_secret :: string

record AuthConfig =
  au_jwt_secret :: string
  au_token_ttl :: int
  au_oidc :: "OIDCProvider list"
  au_users :: "UserConfig list"

record APIConfig =
  ap_enabled :: bool
  ap_listen :: string
  ap_allowed_origins :: "string list"
  ap_auth :: AuthConfig

record Config =
  cf_name :: string
  cf_version :: string
  cf_listen :: string
  cf_logging :: LoggingConfig
  cf_sidecar :: SidecarConfig
  cf_nginx :: NginxConfig
  cf_appsec :: AppSecConfig
  cf_gateway :: GatewayConfig
  cf_tls :: TLSGlobalConfig
  cf_routes :: "RouteConfig list"
  cf_plugins :: "PluginConfig list"
  cf_firewall :: FirewallConfig
  cf_api :: APIConfig

section \<open>Defaults, parsing and validation\<close>

definition defaultConfig :: Config where
  "defaultConfig =
    \<lparr>cf_name = ''waffynx'', cf_version = ''1'', cf_listen = '':8443'', cf_logging = 
      \<lparr>lg_level = ''info'', lg_format = ''json'', lg_output = ''stdout''\<rparr>, cf_sidecar = 
      \<lparr>sc_socket_path = ''/var/run/waffynx.sock'', sc_fail_open = False, sc_timeout_ms = 100,
      sc_event_api_url = [], sc_event_auth_token = [], sc_event_timeout_ms = 200\<rparr>, cf_nginx = 
      \<lparr>nx_binary_path = ''/opt/waffynx/nginx/sbin/nginx'',
      nx_config_path = ''/opt/waffynx/nginx/conf'', nx_worker_processes = 0,
      nx_worker_connections = 65535, nx_enable_http2 = True, nx_enable_http3 = False\<rparr>, cf_appsec = 
      \<lparr>as_enabled = False, as_engine = ''basic-go'', as_rules_path = [], as_ml_model_path = [],
      as_learning_mode = False, as_bridge_socket = ''/var/run/open-appsec.sock'',
      as_timeout_ms = 200\<rparr>, cf_gateway = 
      \<lparr>gw_max_connections = 65535, gw_read_timeout = 60, gw_write_timeout = 60,
      gw_idle_timeout = 120, gw_enable_rate_limiting = False\<rparr>, cf_tls = 
      \<lparr>tg_static_cert = [], tg_static_key = [], tg_acme = 
        \<lparr>ac_enabled = False, ac_domains = [], ac_email = [], ac_cache_dir = [],
      ac_staging = False\<rparr>\<rparr>, cf_routes = [], cf_plugins = [], cf_firewall = 
      \<lparr>fw_enabled = False, fw_backend = ''nftables'', fw_default_in = ''deny'',
      fw_default_out = ''allow'', fw_managed_ports = [], fw_block_list = []\<rparr>, cf_api = 
      \<lparr>ap_enabled = False, ap_listen = '':9090'', ap_allowed_origins = [], ap_auth = 
        \<lparr>au_jwt_secret = [], au_token_ttl = 3600, au_oidc = [], au_users = []\<rparr>\<rparr>\<rparr>"

datatype config_error = ListenRequired | UnsupportedBackend string

definition validate :: "Config \<Rightarrow> config_error + unit" where
  "validate c =
     (if cf_listen c = [] then Inl ListenRequired
      else if fw_backend (cf_firewall c) \<noteq> ''ufw'' \<and> fw_backend (cf_firewall c) \<noteq> ''nftables''
      then Inl (UnsupportedBackend (fw_backend (cf_firewall c)))
      else Inr ())"

datatype parse_error = ReadingFile string | ParsingFile string | ValidatingConfig config_error

definition Parse :: "(string \<Rightarrow> Config \<Rightarrow> string + Config) \<Rightarrow> string \<Rightarrow> parse_error + Config" where
  "Parse yaml data =
     (case yaml data defaultConfig of
        Inl e \<Rightarrow> Inl (ParsingFile e)
      | Inr cfg \<Rightarrow> (case validate cfg of Inl e \<Rightarrow> Inl (ValidatingConfig e) | Inr _ \<Rightarrow> Inr cfg))"

definition Load ::
    "(string \<Rightarrow> string + string) \<Rightarrow> (string \<Rightarrow> Config \<Rightarrow> string + Config) \<Rightarrow> string \<Rightarrow> parse_error + Config" where
  "Load read_file yaml path =
     (case read_file path of Inl e \<Rightarrow> Inl (ReadingFile e) | Inr data \<Rightarrow> Parse yaml data)"

text \<open>
  A configuration is accepted only if the YAML decoder produced it from the defaults, it
  has a listen address and its firewall backend is one that the firewall manager supports;
  the defaults themselves are accepted.
\<close>

lemma Parse_valid:
  "(Parse yaml data = Inr cfg) =
     (yaml data defaultConfig = Inr cfg \<and> cf_listen cfg \<noteq> [] \<and>
      fw_backend (cf_firewall cfg) \<in> {''ufw'', ''nftables''}) \<and>
   validate defaultConfig = Inr ()"
  by (auto simp: Parse_def validate_def defaultConfig_def split: sum.splits)

section \<open>Agent\<close>

record EventBrokerConfig =
  eb_enabled :: bool
  eb_address :: string
  eb_auth_token :: string
  eb_block_threshold :: int
  eb_window_seconds :: int

record AgentConfig =
  ag_name :: string
  ag_listen :: string
  ag_api_key :: string
  ag_event_broker :: EventBrokerConfig
  ag_firewall :: FirewallConfig

definition defaultAgentConfig :: AgentConfig where
  "defaultAgentConfig =
     \<lparr>ag_name = ''waf-agent'', ag_listen = '':9099'', ag_api_key = [],
      ag_event_broker = \<lparr>eb_enabled = False, eb_address = ''http://localhost:9090'', eb_auth_token = [],
        eb_block_threshold = 10, eb_window_seconds = 60\<rparr>,
      ag_firewall = \<lparr>fw_enabled = True, fw_backend = ''nftables'', fw_default_in = ''deny'',
        fw_default_out = ''allow'', fw_managed_ports = [], fw_block_list = []\<rparr>\<rparr>"

definition LoadAgent ::
    "(string \<Rightarrow> string + string) \<Rightarrow> (string \<Rightarrow> AgentConfig \<Rightarrow> string + AgentConfig) \<Rightarrow> string \<Rightarrow> string + AgentConfig" where
  "LoadAgent read_file yaml path =
     (case read_file path of Inl e \<Rightarrow> Inl e | Inr data \<Rightarrow> yaml data defaultAgentConfig)"

end
