(* ===== verification/Auth.thy ===== *)
theory Auth
  imports Config GoStrings
begin

text \<open>
  \<^verbatim>\<open>internal/auth\<close>: local tokens and OpenID Connect. The JWT and OIDC libraries, the random
  identifier and the keyed hash are arguments; what the code adds to them is here: the claims it
  signs, the check of the signing method, the user name and role it reads from an ID token.
\<close>

section \<open>Local tokens\<close>

record claims =
  cl_id :: string
  cl_subject :: string
  cl_issued_at :: int
  cl_expires_at :: int
  cl_username :: string
  cl_role :: string
  cl_scopes :: "string list"

record auth_manager =
  am_secret :: string
  am_ttl :: int

definition NewManager :: "string \<Rightarrow> int \<Rightarrow> auth_manager" where
  "NewManager secret ttlSeconds = \<lparr>am_secret = secret, am_ttl = ttlSeconds * 10 ^ 9\<rparr>"

text \<open>
  The JWT library: \<^verbatim>\<open>NewNumericDate\<close>, signing with HS256, and \<^verbatim>\<open>ParseWithClaims\<close>, which asks the
  given function for the key of the method in the token's header and answers the claims and
  whether the token is valid at the time.
\<close>

datatype signing_method = SigningMethodHMAC string | SigningMethodOther string

fun method_alg :: "signing_method \<Rightarrow> string" where
  "method_alg (SigningMethodHMAC a) = a" | "method_alg (SigningMethodOther a) = a"

record jwt_lib =
  jl_numeric_date :: "int \<Rightarrow> int"
  jl_sign :: "string \<Rightarrow> claims \<Rightarrow> string + string"
  jl_parse :: "int \<Rightarrow> string \<Rightarrow> (signing_method \<Rightarrow> string + string) \<Rightarrow> string + (claims \<times> bool)"

definition token_claims :: "jwt_lib \<Rightarrow> string \<Rightarrow> int \<Rightarrow> string \<Rightarrow> string \<Rightarrow> string list \<Rightarrow> auth_manager \<Rightarrow> claims" where
  "token_claims lib uid now username role scopes m =
     \<lparr>cl_id = uid, cl_subject = username, cl_issued_at = jl_numeric_date lib now,
      cl_expires_at = jl_numeric_date lib (now + am_ttl m), cl_username = username, cl_role = role,
      cl_scopes = scopes\<rparr>"

definition GenerateToken ::
    "jwt_lib \<Rightarrow> string \<Rightarrow> int \<Rightarrow> string \<Rightarrow> string \<Rightarrow> string list \<Rightarrow> auth_manager \<Rightarrow> string + string" where
  "GenerateToken lib uid now username role scopes m =
     jl_sign lib (am_secret m) (token_claims lib uid now username role scopes m)"

definition signing_key :: "auth_manager \<Rightarrow> signing_method \<Rightarrow> string + string" where
  "signing_key m meth =
     (case meth of
        SigningMethodHMAC _ \<Rightarrow> Inr (am_secret m)
      | SigningMethodOther alg \<Rightarrow> Inl (''unexpected signing method: '' @ alg))"

definition ValidateToken :: "jwt_lib \<Rightarrow> int \<Rightarrow> string \<Rightarrow> auth_manager \<Rightarrow> string + claims" where
  "ValidateToken lib now tokenString m =
     (case jl_parse lib now tokenString (signing_key m) of
        Inl err \<Rightarrow> Inl (''parsing token: '' @ err)
      | Inr (c, valid) \<Rightarrow> if \<not> valid then Inl ''invalid token'' else Inr c)"

section \<open>Payload signatures\<close>

definition hex_digit :: "nat \<Rightarrow> char" where
  "hex_digit n = (if n < 10 then char_of (48 + n) else char_of (87 + n))"

definition hex_encode :: "string \<Rightarrow> string" where
  "hex_encode s = concat (map (\<lambda>c. [hex_digit (byte c div 16), hex_digit (byte c mod 16)]) s)"

definition SignPayload :: "(string \<Rightarrow> string \<Rightarrow> string) \<Rightarrow> string \<Rightarrow> auth_manager \<Rightarrow> string" where
  "SignPayload hmac payload m = hex_encode (hmac (am_secret m) payload)"

definition VerifySignature :: "(string \<Rightarrow> string \<Rightarrow> string) \<Rightarrow> string \<Rightarrow> string \<Rightarrow> auth_manager \<Rightarrow> bool" where
  "VerifySignature hmac payload signature m = (SignPayload hmac payload m = signature)"

lemma hex_digit_inj: "m < 16 \<Longrightarrow> n < 16 \<Longrightarrow> hex_digit m = hex_digit n \<longleftrightarrow> m = n"
proof -
  assume mn: "m < 16" "n < 16"
  have v: "byte (hex_digit k) = (if k < 10 then 48 + k else 87 + k)" if "k < 16" for k
    using that by (simp add: hex_digit_def)
  have "m = n" if "hex_digit m = hex_digit n"
    using arg_cong[OF that, of byte] mn by (auto simp: v split: if_splits)
  then show "hex_digit m = hex_digit n \<longleftrightarrow> m = n" by blast
qed

lemma hex_encode_inj: "hex_encode s = hex_encode t \<Longrightarrow> s = t"
proof (induction s arbitrary: t)
  case Nil
  then show ?case by (cases t) (simp_all add: hex_encode_def)
next
  case (Cons c s)
  obtain d u where t: "t = d # u" using Cons.prems by (cases t) (simp_all add: hex_encode_def)
  have b: "byte c < (256 :: nat)" "byte d < (256 :: nat)" by simp_all
  have "hex_digit (byte c div 16) = hex_digit (byte d div 16)" "hex_digit (byte c mod 16) = hex_digit (byte d mod 16)"
    "hex_encode s = hex_encode u"
    using Cons.prems by (simp_all add: t hex_encode_def)
  then have "byte c div 16 = (byte d :: nat) div 16" "byte c mod 16 = (byte d :: nat) mod 16"
    using b by (simp_all add: hex_digit_inj)
  then have "byte c = (byte d :: nat)" by (metis div_mod_decomp)
  then show ?case using Cons.IH[OF \<open>hex_encode s = hex_encode u\<close>] by (simp add: t)
qed

text \<open>A signature verifies exactly when the keyed hash of the two payloads is the same.\<close>

lemma VerifySignature_iff:
  "VerifySignature hmac p (SignPayload hmac q m) m \<longleftrightarrow> hmac (am_secret m) p = hmac (am_secret m) q"
  using hex_encode_inj by (auto simp: VerifySignature_def SignPayload_def)

section \<open>OpenID Connect\<close>

record oidc_claims =
  oc_email :: string
  oc_name :: string
  oc_username :: string
  oc_groups :: "string list"

text \<open>
  The OIDC library: discovery of an issuer, the verification of a token for an issuer and a
  client (the subject of the token), and its decoding into the claims the code asks for.
\<close>

record oidc_lib =
  ol_discover :: "string \<Rightarrow> string option"
  ol_verify :: "string \<Rightarrow> string \<Rightarrow> string \<Rightarrow> string + string"
  ol_claims :: "string \<Rightarrow> string + oidc_claims"

record oidc_manager =
  om_providers :: "(string \<times> string) list"
  om_verifiers :: "(string \<times> string \<times> string) list"

definition NewOIDCManager :: oidc_manager where
  "NewOIDCManager = \<lparr>om_providers = [], om_verifiers = []\<rparr>"

definition configure_one :: "oidc_lib \<Rightarrow> OIDCProvider \<Rightarrow> oidc_manager \<Rightarrow> oidc_manager" where
  "configure_one lib cfg m =
     (if oi_issuer_url cfg = [] \<or> oi_client_id cfg = [] then m
      else case ol_discover lib (oi_issuer_url cfg) of
        Some err \<Rightarrow> m
      | None \<Rightarrow>
          let name = (if oi_name cfg = [] then oi_issuer_url cfg else oi_name cfg)
          in \<lparr>om_providers = AList.update name (oi_issuer_url cfg) (om_providers m),
              om_verifiers = AList.update name (oi_issuer_url cfg, oi_client_id cfg) (om_verifiers m)\<rparr>)"

definition Configure :: "oidc_lib \<Rightarrow> OIDCProvider list \<Rightarrow> oidc_manager \<Rightarrow> oidc_manager" where
  "Configure lib providers m = fold (configure_one lib) providers m"

definition first_nonempty :: "string list \<Rightarrow> string \<Rightarrow> string" where
  "first_nonempty xs d = (case find (\<lambda>x. x \<noteq> []) xs of Some x \<Rightarrow> x | None \<Rightarrow> d)"

definition oidc_role :: "string list \<Rightarrow> string" where
  "oidc_role groups = (if list_ex (\<lambda>g. g = ''admin'' \<or> g = ''waffynx-admin'') groups then ''admin'' else ''viewer'')"

definition verify_one :: "oidc_lib \<Rightarrow> string \<Rightarrow> string \<times> string \<times> string \<Rightarrow> string + (string \<times> string \<times> string)" where
  "verify_one lib rawToken v =
     (case v of (name, issuer, client) \<Rightarrow>
        (case ol_verify lib issuer client rawToken of
           Inl err \<Rightarrow> Inl err
         | Inr subject \<Rightarrow>
            (case ol_claims lib rawToken of
               Inl err \<Rightarrow> Inl (''parsing claims from '' @ name @ '': '' @ err)
             | Inr c \<Rightarrow> Inr (first_nonempty [oc_username c, oc_email c, oc_name c] subject, oidc_role (oc_groups c), name))))"

fun try_verifiers ::
    "oidc_lib \<Rightarrow> string \<Rightarrow> (string \<times> string \<times> string) list \<Rightarrow> string \<Rightarrow> string + (string \<times> string \<times> string)" where
  "try_verifiers lib rawToken [] lastErr = Inl (''OIDC validation failed: '' @ lastErr)"
| "try_verifiers lib rawToken (v # vs) lastErr =
     (case verify_one lib rawToken v of Inl err \<Rightarrow> try_verifiers lib rawToken vs err | Inr x \<Rightarrow> Inr x)"

definition oidc_validate :: "oidc_lib \<Rightarrow> string \<Rightarrow> oidc_manager \<Rightarrow> string + (string \<times> string \<times> string)" where
  "oidc_validate lib rawToken m =
     (if om_verifiers m = [] then Inl ''no OIDC providers configured''
      else try_verifiers lib rawToken (om_verifiers m) [])"

definition oidc_enabled :: "oidc_manager \<Rightarrow> bool" where
  "oidc_enabled m = (om_providers m \<noteq> [])"

text \<open>Every verifier belongs to a configured provider and asks for a client of its issuer.\<close>

definition oidc_inv :: "oidc_lib \<Rightarrow> oidc_manager \<Rightarrow> bool" where
  "oidc_inv lib m =
     (map fst (om_providers m) = map fst (om_verifiers m) \<and> distinct (map fst (om_providers m)) \<and>
      list_all (\<lambda>(n, issuer, client). issuer \<noteq> [] \<and> client \<noteq> [] \<and> ol_discover lib issuer = None) (om_verifiers m))"

lemma oidc_inv_new: "oidc_inv lib NewOIDCManager"
  by (simp add: oidc_inv_def NewOIDCManager_def)

lemma keys_update_same:
  "map fst xs = map fst ys \<Longrightarrow> map fst (AList.update k v xs) = map fst (AList.update k w ys)"
  by (simp add: update_keys)

lemma oidc_inv_configure_one: "oidc_inv lib m \<Longrightarrow> oidc_inv lib (configure_one lib cfg m)"
  by (auto simp: oidc_inv_def configure_one_def Let_def distinct_update keys_update_same
      intro!: list_all_update split: option.splits)

lemma oidc_inv_configure: "oidc_inv lib m \<Longrightarrow> oidc_inv lib (Configure lib ps m)"
  unfolding Configure_def by (induction ps arbitrary: m) (simp_all add: oidc_inv_configure_one)

lemma try_verifiers_Inr:
  "try_verifiers lib tok vs e = Inr x \<Longrightarrow> \<exists>v \<in> set vs. verify_one lib tok v = Inr x"
  by (induction lib tok vs e rule: try_verifiers.induct) (auto split: sum.splits)

text \<open>A token is only accepted when some configured provider verified it.\<close>

lemma oidc_validate_verified:
  assumes "oidc_validate lib tok m = Inr (user, role, name)"
  shows "\<exists>issuer client subject. (name, issuer, client) \<in> set (om_verifiers m) \<and>
     ol_verify lib issuer client tok = Inr subject \<and> (role = ''admin'' \<or> role = ''viewer'')"
proof -
  obtain v where v: "v \<in> set (om_verifiers m)" "verify_one lib tok v = Inr (user, role, name)"
    using assms try_verifiers_Inr by (fastforce simp: oidc_validate_def split: if_splits)
  obtain n issuer client where n: "v = (n, issuer, client)" by (cases v)
  show ?thesis using v unfolding n by (fastforce simp: verify_one_def oidc_role_def split: sum.splits)
qed

end
