(* ===== verification/Firewall.thy ===== *)
theory Firewall
  imports Config
begin

text \<open>
  \<^verbatim>\<open>internal/firewall\<close>: the manager, its two command-line backends and the parsers of the
  listings. Running a command is an argument: the operating system's answer as a function of
  the commands run so far, the current one last, so every operation returns the extended
  command log. The Go interface \<^verbatim>\<open>Backend\<close> is a record of operations; its contract is the
  locale \<open>command_backend\<close>, interpreted on both backends.
\<close>

section \<open>Rules and commands\<close>

record fw_rule =
  fr_table :: string
  fr_chain :: string
  fr_protocol :: string
  fr_port :: int
  fr_source :: string
  fr_action :: string
  fr_comment :: string

definition no_rule :: fw_rule where
  "no_rule = \<lparr>fr_table = [], fr_chain = [], fr_protocol = [], fr_port = 0, fr_source = [], fr_action = [], fr_comment = []\<rparr>"

type_synonym cmd_log = "(string \<times> string list) list"
type_synonym cmd_env = "cmd_log \<Rightarrow> string \<times> string option"

definition runCmd :: "cmd_env \<Rightarrow> string \<Rightarrow> string list \<Rightarrow> cmd_log \<Rightarrow> (string \<times> string option) \<times> cmd_log" where
  "runCmd exec name args cl =
     (let log' = cl @ [(name, args)] in case exec log' of (out, err) \<Rightarrow> ((trim_space out, err), log'))"

text \<open>Running a command for its error alone.\<close>

definition run_err :: "cmd_env \<Rightarrow> string \<Rightarrow> string list \<Rightarrow> cmd_log \<Rightarrow> string option \<times> cmd_log" where
  "run_err exec name args cl = (case runCmd exec name args cl of ((out, err), log') \<Rightarrow> (err, log'))"

lemma run_err_eq: "run_err exec name args cl = (snd (exec (cl @ [(name, args)])), cl @ [(name, args)])"
  by (simp add: run_err_def runCmd_def split_beta Let_def)

record backend =
  be_initialize :: "cmd_env \<Rightarrow> cmd_log \<Rightarrow> string option \<times> cmd_log"
  be_add_rule :: "fw_rule \<Rightarrow> cmd_env \<Rightarrow> cmd_log \<Rightarrow> string option \<times> cmd_log"
  be_remove_rule :: "fw_rule \<Rightarrow> cmd_env \<Rightarrow> cmd_log \<Rightarrow> string option \<times> cmd_log"
  be_list_rules :: "cmd_env \<Rightarrow> cmd_log \<Rightarrow> (string + fw_rule list) \<times> cmd_log"
  be_set_default :: "string \<Rightarrow> string \<Rightarrow> cmd_env \<Rightarrow> cmd_log \<Rightarrow> string option \<times> cmd_log"
  be_flush :: "cmd_env \<Rightarrow> cmd_log \<Rightarrow> string option \<times> cmd_log"

section \<open>Parsing the listings\<close>

text \<open>The first of the actions that occurs after a blank.\<close>

definition extractAction :: "string \<Rightarrow> string" where
  "extractAction line =
     (case find (\<lambda>a. str_contains line ('' '' @ a) \<or> has_suffix line ('' '' @ a))
        [''accept'', ''drop'', ''deny'', ''reject'', ''log''] of
        Some a \<Rightarrow> a | None \<Rightarrow> [])"

fun field_after :: "string list \<Rightarrow> string \<Rightarrow> string \<Rightarrow> string" where
  "field_after (w # v # ws) key d =
     (if w = key \<and> v \<notin> {''accept'', ''drop'', ''deny'', ''reject''} then v else field_after (v # ws) key d)"
| "field_after _ key d = d"

definition extractField :: "string \<Rightarrow> string \<Rightarrow> string \<Rightarrow> string" where
  "extractField line key defaultValue = field_after (str_fields line) key defaultValue"

fun port_after :: "string list \<Rightarrow> int" where
  "port_after (w # v # ws) =
     (if w = ''dport'' then (case atoi v of Some p \<Rightarrow> p | None \<Rightarrow> port_after (v # ws)) else port_after (v # ws))"
| "port_after _ = 0"

definition extractPort :: "string \<Rightarrow> int" where
  "extractPort line = port_after (str_fields line)"

fun source_after :: "string list \<Rightarrow> string" where
  "source_after (w # v # ws) = (if w = ''saddr'' then v else source_after (v # ws))"
| "source_after _ = []"

definition extractSource :: "string \<Rightarrow> string" where
  "extractSource line = source_after (str_fields line)"

definition extractQuoted :: "string \<Rightarrow> string" where
  "extractQuoted line =
     (case index_byte line (CHR 0x22) of
        None \<Rightarrow> []
      | Some start \<Rightarrow>
          let rest = drop (start + 1) line
          in case index_byte rest (CHR 0x22) of None \<Rightarrow> [] | Some e \<Rightarrow> take e rest)"

definition nft_rule_of :: "string \<Rightarrow> string \<Rightarrow> string \<Rightarrow> string \<Rightarrow> fw_rule" where
  "nft_rule_of table chain line action =
     (let p = extractField line ''ip'' [];
          p = (if p = [] then (let t = extractField line ''tcp'' ''tcp''
                               in if t = [] then extractField line ''udp'' ''udp'' else t) else p)
      in \<lparr>fr_table = table, fr_chain = map ascii_upper chain, fr_protocol = p, fr_port = extractPort line,
          fr_source = extractSource line, fr_action = action, fr_comment = extractQuoted line\<rparr>)"

fun nft_lines :: "string list \<Rightarrow> string \<Rightarrow> string \<Rightarrow> fw_rule list" where
  "nft_lines [] table chain = []"
| "nft_lines (line # ls) table chain =
     (let trimmed = trim_space line; parts = str_fields trimmed in
      if has_prefix trimmed ''table''
      then nft_lines ls (if 3 \<le> length parts then parts ! 1 @ '' '' @ parts ! 2 else table) chain
      else if has_prefix trimmed ''chain''
      then nft_lines ls table (if 2 \<le> length parts then parts ! 1 else chain)
      else if trimmed = ''{'' \<or> trimmed = ''}'' \<or> trimmed = [] then nft_lines ls table chain
      else
        let action = extractAction trimmed
        in if action = [] then nft_lines ls table chain
           else nft_rule_of table chain trimmed action # nft_lines ls table chain)"

definition newline :: char where "newline = CHR 0x0A"

text \<open>The chain name goes through \<^verbatim>\<open>strings.ToUpper\<close>; nft identifiers are ASCII.\<close>

definition parseNFTRules :: "string \<Rightarrow> fw_rule list" where
  "parseNFTRules out = nft_lines (str_split newline out) [] []"

definition ufw_anywhere :: "string \<Rightarrow> bool" where
  "ufw_anywhere s = (s = ''Anywhere'' \<or> s = ''Anywhere(v6)'')"

definition ufw_port_proto :: "string \<Rightarrow> int \<times> string" where
  "ufw_port_proto s =
     (if ufw_anywhere s then (0, [])
      else case index_byte s (CHR ''/'') of
             Some (Suc i) \<Rightarrow> ((case atoi (take (Suc i) s) of Some p \<Rightarrow> p | None \<Rightarrow> 0), drop (Suc i + 1) s)
           | _ \<Rightarrow> (0, []))"

text \<open>
  The lowered word is only compared with words over letters whose lower case no other code
  point has, so lowering the ASCII letters decides the comparison.
\<close>

definition ufw_action :: "string \<Rightarrow> string" where
  "ufw_action s =
     (let action = map ascii_lower s
      in if action = ''allow'' then ''accept'' else if action = ''deny'' \<or> action = ''reject'' then action else [])"

definition ufw_rule_of :: "string list \<Rightarrow> fw_rule" where
  "ufw_rule_of fs =
     (case ufw_port_proto (fs ! 0) of (port, proto) \<Rightarrow>
        \<lparr>fr_table = ''filter'', fr_chain = ''INPUT'', fr_protocol = proto, fr_port = port,
         fr_source = (if 3 < length fs \<and> fs ! 2 = ''IN'' \<and> \<not> ufw_anywhere (fs ! 3) then fs ! 3 else []),
         fr_action = ufw_action (fs ! 1), fr_comment = []\<rparr>)"

definition ufw_strip_number :: "string \<Rightarrow> string" where
  "ufw_strip_number line =
     (let trimmed = trim_prefix line ''[''
      in case index_byte trimmed (CHR '']'') of
           Some (Suc i) \<Rightarrow> trim_space (drop (Suc i + 1) trimmed) | _ \<Rightarrow> trimmed)"

fun ufw_lines :: "bool \<Rightarrow> string list \<Rightarrow> fw_rule list" where
  "ufw_lines inRules [] = []"
| "ufw_lines inRules (line # ls) =
     (let trimmed = trim_space line in
      if \<not> inRules then ufw_lines (has_prefix trimmed ''--'') ls
      else
        let fs = str_fields (ufw_strip_number trimmed)
        in if length fs < 2 then ufw_lines True ls else ufw_rule_of fs # ufw_lines True ls)"

definition parseUFWRules :: "string \<Rightarrow> fw_rule list" where
  "parseUFWRules out = ufw_lines False (str_split newline out)"

section \<open>nftables\<close>

fun run_each :: "(string list \<Rightarrow> string \<Rightarrow> string) \<Rightarrow> cmd_env \<Rightarrow> string \<Rightarrow> string list list \<Rightarrow> cmd_log \<Rightarrow> string option \<times> cmd_log" where
  "run_each wrap exec name [] cl = (None, cl)"
| "run_each wrap exec name (args # cmds) cl =
     (case run_err exec name args cl of
        (Some err, log') \<Rightarrow> (Some (wrap args err), log')
      | (None, log') \<Rightarrow> run_each wrap exec name cmds log')"

definition nft_init_cmds :: "string list list" where
  "nft_init_cmds =
     [[''add'', ''table'', ''ip'', ''waffynx''],
      [''add'', ''chain'', ''ip'', ''waffynx'', ''input'', ''{ type filter hook input priority 0 ; }'']]"

text \<open>The wrapped error \<^verbatim>\<open>nft [args]: err\<close>.\<close>

definition nft_wrap :: "string list \<Rightarrow> string \<Rightarrow> string" where
  "nft_wrap args err = ''nft ['' @ str_join '' '' args @ '']: '' @ err"

definition nft_initialize :: "cmd_env \<Rightarrow> cmd_log \<Rightarrow> string option \<times> cmd_log" where
  "nft_initialize exec cl = run_each nft_wrap exec ''nft'' nft_init_cmds cl"

definition nft_add_args :: "fw_rule \<Rightarrow> string list" where
  "nft_add_args r =
     [''add'', ''rule'', ''ip'', ''waffynx'', ''input''] @
     (if fr_protocol r \<noteq> [] then [fr_protocol r, ''dport'', itoa (fr_port r)] else []) @
     (if fr_source r \<noteq> [] then [''ip'', ''saddr'', fr_source r] else []) @
     [fr_action r] @
     (if fr_comment r \<noteq> [] then [''comment'', CHR 0x22 # fr_comment r @ [CHR 0x22]] else [])"

definition nft_remove_args :: "fw_rule \<Rightarrow> string list" where
  "nft_remove_args r =
     [''delete'', ''rule'', ''ip'', ''waffynx'', ''input''] @
     (if fr_source r \<noteq> [] then [''ip'', ''saddr'', fr_source r, fr_action r] else [])"

definition list_with ::
    "(string \<Rightarrow> fw_rule list) \<Rightarrow> string \<Rightarrow> string list \<Rightarrow> cmd_env \<Rightarrow> cmd_log \<Rightarrow> (string + fw_rule list) \<times> cmd_log" where
  "list_with parse name args exec cl =
     (case runCmd exec name args cl of
        ((out, Some err), log') \<Rightarrow> (Inl err, log')
      | ((out, None), log') \<Rightarrow> (Inr (parse out), log'))"

definition nft_default_args :: "string \<Rightarrow> string \<Rightarrow> string list" where
  "nft_default_args chain policy = [''add'', ''rule'', ''ip'', ''waffynx'', chain, ''counter'', policy]"

definition NFTablesBackend :: backend where
  "NFTablesBackend =
     \<lparr>be_initialize = nft_initialize,
      be_add_rule = (\<lambda>r exec. run_err exec ''nft'' (nft_add_args r)),
      be_remove_rule = (\<lambda>r exec. run_err exec ''nft'' (nft_remove_args r)),
      be_list_rules = list_with parseNFTRules ''nft'' [''-a'', ''list'', ''ruleset''],
      be_set_default = (\<lambda>chain policy exec. run_err exec ''nft'' (nft_default_args chain policy)),
      be_flush = (\<lambda>exec. run_err exec ''nft'' [''flush'', ''ruleset''])\<rparr>"

section \<open>UFW\<close>

definition ufw_initialize :: "cmd_env \<Rightarrow> cmd_log \<Rightarrow> string option \<times> cmd_log" where
  "ufw_initialize exec cl =
     run_each (\<lambda>args err. ''enabling ufw: '' @ err) exec ''ufw'' [[''--force'', ''enable'']] cl"

definition ufw_verdict :: "string \<Rightarrow> string list" where
  "ufw_verdict action =
     (if action = ''accept'' then [''allow''] else if action = ''drop'' \<or> action = ''deny'' then [''deny''] else [])"

definition ufw_port_args :: "fw_rule \<Rightarrow> string list" where
  "ufw_port_args r =
     (if 0 < fr_port r
      then itoa (fr_port r) # (if fr_protocol r \<noteq> [] then [''/'' @ fr_protocol r] else [])
      else [])"

definition ufw_source_args :: "fw_rule \<Rightarrow> string list" where
  "ufw_source_args r = (if fr_source r \<noteq> [] then [''from'', fr_source r] else [])"

definition ufw_comment_args :: "fw_rule \<Rightarrow> string list" where
  "ufw_comment_args r = (if fr_comment r \<noteq> [] then [''comment'', fr_comment r] else [])"

definition ufw_add_args :: "fw_rule \<Rightarrow> string list" where
  "ufw_add_args r = ufw_verdict (fr_action r) @ ufw_port_args r @ ufw_source_args r @ ufw_comment_args r"

definition ufw_remove_args :: "fw_rule \<Rightarrow> string list" where
  "ufw_remove_args r = [''delete''] @ ufw_verdict (fr_action r) @ ufw_source_args r @ ufw_port_args r @ ufw_comment_args r"

definition UFWBackend :: backend where
  "UFWBackend =
     \<lparr>be_initialize = ufw_initialize,
      be_add_rule = (\<lambda>r exec. run_err exec ''ufw'' (ufw_add_args r)),
      be_remove_rule = (\<lambda>r exec. run_err exec ''ufw'' (ufw_remove_args r)),
      be_list_rules = list_with parseUFWRules ''ufw'' [''status'', ''numbered''],
      be_set_default = (\<lambda>chain policy exec. run_err exec ''ufw'' [''default'', policy, chain]),
      be_flush = (\<lambda>exec. run_err exec ''ufw'' [''--force'', ''reset''])\<rparr>"

section \<open>Manager\<close>

record manager =
  mg_backend :: backend
  mg_cfg :: FirewallConfig

definition NewManager :: "FirewallConfig \<Rightarrow> string + manager" where
  "NewManager cfg =
     (if fw_backend cfg = ''nftables'' then Inr \<lparr>mg_backend = NFTablesBackend, mg_cfg = cfg\<rparr>
      else if fw_backend cfg = ''ufw'' then Inr \<lparr>mg_backend = UFWBackend, mg_cfg = cfg\<rparr>
      else Inl (''unsupported firewall backend: '' @ fw_backend cfg))"

definition block_rule :: "string \<Rightarrow> fw_rule" where
  "block_rule ip =
     \<lparr>fr_table = ''filter'', fr_chain = ''INPUT'', fr_protocol = [], fr_port = 0, fr_source = ip,
      fr_action = ''drop'', fr_comment = ''Waffynx block''\<rparr>"

definition port_rule :: "int \<Rightarrow> fw_rule" where
  "port_rule port =
     \<lparr>fr_table = ''filter'', fr_chain = ''INPUT'', fr_protocol = ''tcp'', fr_port = port, fr_source = [],
      fr_action = ''accept'', fr_comment = ''Waffynx managed''\<rparr>"

definition BlockIP :: "manager \<Rightarrow> string \<Rightarrow> cmd_env \<Rightarrow> cmd_log \<Rightarrow> string option \<times> cmd_log" where
  "BlockIP m ip = be_add_rule (mg_backend m) (block_rule ip)"

definition UnblockIP :: "manager \<Rightarrow> string \<Rightarrow> cmd_env \<Rightarrow> cmd_log \<Rightarrow> string option \<times> cmd_log" where
  "UnblockIP m ip = be_remove_rule (mg_backend m) (block_rule ip)"

definition manager_rules :: "manager \<Rightarrow> cmd_env \<Rightarrow> cmd_log \<Rightarrow> (string + fw_rule list) \<times> cmd_log" where
  "manager_rules m = be_list_rules (mg_backend m)"

text \<open>Failures to add a rule are logged and skipped.\<close>

fun add_ports :: "manager \<Rightarrow> cmd_env \<Rightarrow> int list \<Rightarrow> cmd_log \<Rightarrow> cmd_log" where
  "add_ports m exec [] cl = cl"
| "add_ports m exec (p # ps) cl =
     add_ports m exec ps (snd (be_add_rule (mg_backend m) (port_rule p) exec cl))"

fun block_all :: "manager \<Rightarrow> cmd_env \<Rightarrow> string list \<Rightarrow> cmd_log \<Rightarrow> cmd_log" where
  "block_all m exec [] cl = cl"
| "block_all m exec (ip # ips) cl = block_all m exec ips (snd (BlockIP m ip exec cl))"

definition manager_start :: "manager \<Rightarrow> cmd_env \<Rightarrow> cmd_log \<Rightarrow> string option \<times> cmd_log" where
  "manager_start m exec cl =
     (let cfg = mg_cfg m; b = mg_backend m in
      if \<not> fw_enabled cfg then (None, cl)
      else case be_initialize b exec cl of
        (Some e, cl) \<Rightarrow> (Some (''initializing firewall: '' @ e), cl)
      | (None, cl) \<Rightarrow>
         (case be_set_default b ''input'' (fw_default_in cfg) exec cl of
            (Some e, cl) \<Rightarrow> (Some (''setting default input policy: '' @ e), cl)
          | (None, cl) \<Rightarrow>
             (case be_set_default b ''output'' (fw_default_out cfg) exec cl of
                (Some e, cl) \<Rightarrow> (Some (''setting default output policy: '' @ e), cl)
              | (None, cl) \<Rightarrow>
                  (None, block_all m exec (fw_block_list cfg) (add_ports m exec (fw_managed_ports cfg) cl)))))"

section \<open>Contract of the backends\<close>

lemma run_each_log:
  "case run_each wrap exec name cmds cl of
     (None, cl') \<Rightarrow> cl' = cl @ map (Pair name) cmds
   | (Some e, cl') \<Rightarrow> (\<exists>k \<le> length cmds. cl' = cl @ take k (map (Pair name) cmds))"
proof (induction cmds arbitrary: cl)
  case (Cons args cmds)
  show ?case
  proof (cases "snd (exec (cl @ [(name, args)]))")
    case None
    then have r: "run_each wrap exec name (args # cmds) cl = run_each wrap exec name cmds (cl @ [(name, args)])"
      by (simp add: run_err_eq)
    have "\<exists>k' \<le> Suc (length cmds). cl @ (name, args) # take k (map (Pair name) cmds) =
        cl @ take k' ((name, args) # map (Pair name) cmds)" if "k \<le> length cmds" for k
      using that by (intro exI[of _ "Suc k"]) simp
    then show ?thesis using Cons[of "cl @ [(name, args)]"] unfolding r
      by (auto split: prod.splits option.splits)
  next
    case (Some e)
    then show ?thesis by (auto simp: run_err_eq intro!: exI[of _ 1])
  qed
qed simp

text \<open>
  A backend that drives one command-line tool: every operation is one run of the tool, the
  initialization a sequence of runs up to the first failure.
\<close>

locale command_backend =
  fixes b :: backend
    and tool :: string
    and wrap :: "string list \<Rightarrow> string \<Rightarrow> string"
    and init_cmds :: "string list list"
    and add_args :: "fw_rule \<Rightarrow> string list"
    and remove_args :: "fw_rule \<Rightarrow> string list"
    and default_args :: "string \<Rightarrow> string \<Rightarrow> string list"
  assumes init: "be_initialize b exec cl = run_each wrap exec tool init_cmds cl"
    and add: "be_add_rule b r exec cl = run_err exec tool (add_args r) cl"
    and remove: "be_remove_rule b r exec cl = run_err exec tool (remove_args r) cl"
    and default: "be_set_default b chain policy exec cl = run_err exec tool (default_args chain policy) cl"
begin

definition start_cmds :: "FirewallConfig \<Rightarrow> string list list" where
  "start_cmds cfg =
     init_cmds @ [default_args ''input'' (fw_default_in cfg), default_args ''output'' (fw_default_out cfg)] @
     map (\<lambda>p. add_args (port_rule p)) (fw_managed_ports cfg) @
     map (\<lambda>ip. add_args (block_rule ip)) (fw_block_list cfg)"

lemma add_ports_log:
  "mg_backend m = b \<Longrightarrow> add_ports m exec ps cl = cl @ map (\<lambda>p. (tool, add_args (port_rule p))) ps"
  by (induction ps arbitrary: cl) (simp_all add: add run_err_eq)

lemma block_all_log:
  "mg_backend m = b \<Longrightarrow> block_all m exec ips cl = cl @ map (\<lambda>ip. (tool, add_args (block_rule ip))) ips"
  by (induction ips arbitrary: cl) (simp_all add: BlockIP_def add run_err_eq)

lemma start_log:
  assumes m: "mg_backend m = b" "mg_cfg m = cfg" and on: "fw_enabled cfg"
  shows "case manager_start m exec cl of
     (None, cl') \<Rightarrow> cl' = cl @ map (Pair tool) (start_cmds cfg)
   | (Some e, cl') \<Rightarrow> (\<exists>k \<le> length init_cmds + 2. cl' = cl @ take k (map (Pair tool) (start_cmds cfg)))"
proof (cases "run_each wrap exec tool init_cmds cl")
  case (Pair e cl1)
  note log1 = run_each_log[where wrap = wrap and exec = exec and name = tool and cmds = init_cmds and cl = cl, unfolded Pair]
  show ?thesis
  proof (cases e)
    case (Some err)
    with log1 obtain k where "k \<le> length init_cmds" "cl1 = cl @ take k (map (Pair tool) init_cmds)" by auto
    then show ?thesis using Pair Some m on
      by (auto simp: manager_start_def Let_def init start_cmds_def intro!: exI[of _ k])
  next
    case None
    with log1 have cl1: "cl1 = cl @ map (Pair tool) init_cmds" by simp
    define c1 c2 where "c1 = (tool, default_args ''input'' (fw_default_in cfg))"
      and "c2 = (tool, default_args ''output'' (fw_default_out cfg))"
    note d = default run_err_eq add_ports_log block_all_log
    have cmds: "map (Pair tool) (start_cmds cfg) = map (Pair tool) init_cmds @ [c1, c2] @
        map (\<lambda>p. (tool, add_args (port_rule p))) (fw_managed_ports cfg) @
        map (\<lambda>ip. (tool, add_args (block_rule ip))) (fw_block_list cfg)"
      by (simp add: start_cmds_def c1_def c2_def comp_def)
    have run: "manager_start m exec cl =
       (case snd (exec (cl1 @ [c1])) of
          Some e \<Rightarrow> (Some (''setting default input policy: '' @ e), cl1 @ [c1])
        | None \<Rightarrow> (case snd (exec (cl1 @ [c1, c2])) of
            Some e \<Rightarrow> (Some (''setting default output policy: '' @ e), cl1 @ [c1, c2])
          | None \<Rightarrow> (None, cl1 @ [c1, c2] @ map (\<lambda>p. (tool, add_args (port_rule p))) (fw_managed_ports cfg) @
              map (\<lambda>ip. (tool, add_args (block_rule ip))) (fw_block_list cfg))))"
      using Pair None m on by (simp add: manager_start_def Let_def init d c1_def c2_def split: option.splits)
    have k: "\<exists>k \<le> length init_cmds + 2. cl1 @ [c1] = cl @ take k (map (Pair tool) (start_cmds cfg))"
      "\<exists>k \<le> length init_cmds + 2. cl1 @ [c1, c2] = cl @ take k (map (Pair tool) (start_cmds cfg))"
      unfolding cmds cl1 by (rule exI[of _ "length init_cmds + 1"], simp, rule exI[of _ "length init_cmds + 2"], simp)
    show ?thesis unfolding run using k by (simp add: cmds cl1 split: option.splits)
  qed
qed

lemma block_log:
  "mg_backend m = b \<Longrightarrow> BlockIP m ip exec cl =
     (snd (exec (cl @ [(tool, add_args (block_rule ip))])), cl @ [(tool, add_args (block_rule ip))])"
  by (simp add: BlockIP_def add run_err_eq)

lemma unblock_log:
  "mg_backend m = b \<Longrightarrow> UnblockIP m ip exec cl =
     (snd (exec (cl @ [(tool, remove_args (block_rule ip))])), cl @ [(tool, remove_args (block_rule ip))])"
  by (simp add: UnblockIP_def remove run_err_eq)

end

interpretation nft: command_backend NFTablesBackend "''nft''" nft_wrap nft_init_cmds nft_add_args nft_remove_args nft_default_args
  by unfold_locales (simp_all add: NFTablesBackend_def nft_initialize_def)

interpretation ufw: command_backend UFWBackend "''ufw''" "\<lambda>args err. ''enabling ufw: '' @ err" "[[''--force'', ''enable'']]"
  ufw_add_args ufw_remove_args "\<lambda>chain policy. [''default'', policy, chain]"
  by unfold_locales (simp_all add: UFWBackend_def ufw_initialize_def)

text \<open>The commands of a complete start, per backend.\<close>

definition start_commands :: "FirewallConfig \<Rightarrow> cmd_log" where
  "start_commands cfg =
     (if fw_backend cfg = ''nftables''
      then map (Pair ''nft'')
        (nft_init_cmds @
         [nft_default_args ''input'' (fw_default_in cfg), nft_default_args ''output'' (fw_default_out cfg)] @
         map (\<lambda>p. nft_add_args (port_rule p)) (fw_managed_ports cfg) @
         map (\<lambda>ip. nft_add_args (block_rule ip)) (fw_block_list cfg))
      else map (Pair ''ufw'')
        ([[''--force'', ''enable'']] @
         [[''default'', fw_default_in cfg, ''input''], [''default'', fw_default_out cfg, ''output'']] @
         map (\<lambda>p. ufw_add_args (port_rule p)) (fw_managed_ports cfg) @
         map (\<lambda>ip. ufw_add_args (block_rule ip)) (fw_block_list cfg)))"

text \<open>
  starting the manager of a configuration runs exactly the backend's initialization, the
  two default policies, one rule per managed port and one per blocked address, in this order,
  however many of the rule commands fail; a failure before the rules stops the start with an
  error after a prefix of these commands; a disabled firewall runs nothing.
\<close>

lemma manager_start_commands:
  assumes "NewManager cfg = Inr m"
  shows "case manager_start m exec cl of
     (None, cl') \<Rightarrow> cl' = (if fw_enabled cfg then cl @ start_commands cfg else cl)
   | (Some e, cl') \<Rightarrow> fw_enabled cfg \<and> (\<exists>k \<le> 4. cl' = cl @ take k (start_commands cfg))"
proof (cases "fw_enabled cfg")
  case False
  then show ?thesis using assms by (auto simp: NewManager_def manager_start_def Let_def split: if_splits)
next
  case True
  show ?thesis
  proof (cases "fw_backend cfg = ''nftables''")
    case nft: True
    then have m: "mg_backend m = NFTablesBackend" "mg_cfg m = cfg" using assms by (auto simp: NewManager_def)
    have "start_commands cfg = map (Pair ''nft'') (nft.start_cmds cfg)"
      using nft by (simp add: start_commands_def nft.start_cmds_def)
    moreover have "length nft_init_cmds + 2 = 4" by (simp add: nft_init_cmds_def)
    ultimately show ?thesis using nft.start_log[OF m True, where exec = exec and cl = cl] True
      by (auto split: prod.splits option.splits)
  next
    case ufw: False
    then have m: "mg_backend m = UFWBackend" "mg_cfg m = cfg"
      using assms by (auto simp: NewManager_def split: if_splits)
    have "start_commands cfg = map (Pair ''ufw'') (ufw.start_cmds cfg)"
      using ufw by (simp add: start_commands_def ufw.start_cmds_def)
    moreover have "\<exists>k \<le> 4. cl' = cl @ take k xs" if "\<exists>k \<le> length [[''--force'', ''enable'']] + 2. cl' = cl @ take k xs" for cl' xs
    proof -
      from that obtain k where "k \<le> Suc (Suc (Suc 0))" "cl' = cl @ take k xs" by auto
      then show ?thesis by (intro exI[of _ k]) simp
    qed
    ultimately show ?thesis using ufw.start_log[OF m True, where exec = exec and cl = cl] True
      by (cases "manager_start m exec cl") (simp split: option.splits)
  qed
qed

definition sample_fw :: FirewallConfig where
  "sample_fw =
     \<lparr>fw_enabled = True, fw_backend = ''nftables'', fw_default_in = ''drop'', fw_default_out = ''accept'',
      fw_managed_ports = [443], fw_block_list = [''10.0.0.9'']\<rparr>"

lemma manager_start_commands_witness:
  "case manager_start \<lparr>mg_backend = NFTablesBackend, mg_cfg = sample_fw\<rparr> (\<lambda>_. ([], None)) [] of
     (None, cl') \<Rightarrow> cl' = start_commands sample_fw
   | (Some e, cl') \<Rightarrow> (\<exists>k \<le> 4. cl' = take k (start_commands sample_fw))"
  using manager_start_commands[where cfg = sample_fw and m = "\<lparr>mg_backend = NFTablesBackend, mg_cfg = sample_fw\<rparr>"
      and exec = "\<lambda>_. ([], None)" and cl = "[]"]
  by (simp add: sample_fw_def NewManager_def split: prod.splits option.splits)

section \<open>Managers of accepted configurations\<close>



section \<open>Listings\<close>

text \<open>A dotted address, and the line and the listing that nft prints for blocked addresses.\<close>

definition dotted :: "string \<Rightarrow> bool" where
  "dotted ip = (ip \<noteq> [] \<and> list_all (\<lambda>c. is_digit c \<or> c = CHR ''.'') ip)"

definition block_words :: "string \<Rightarrow> string list" where
  "block_words ip =
     [''ip'', ''saddr'', ip, ''drop'', ''comment'', CHR 0x22 # ''Waffynx'', ''block'' @ [CHR 0x22], ''#'', ''handle'', ''4'']"

definition block_line :: "string \<Rightarrow> string" where
  "block_line ip = [CHR 0x09, CHR 0x09] @ str_join '' '' (block_words ip)"

definition nft_listing :: "string list \<Rightarrow> string" where
  "nft_listing ips =
     str_join [newline]
       ([''table ip waffynx { # handle 1'',
         CHR 0x09 # ''chain input { # handle 1'',
         [CHR 0x09, CHR 0x09] @ ''type filter hook input priority filter; policy accept;''] @
        map block_line ips @ [CHR 0x09 # ''}'', ''}''])"

definition listed_block :: "string \<Rightarrow> fw_rule" where
  "listed_block ip =
     \<lparr>fr_table = ''ip waffynx'', fr_chain = ''INPUT'', fr_protocol = ''saddr'', fr_port = 0, fr_source = ip,
      fr_action = ''drop'', fr_comment = ''Waffynx block''\<rparr>"

lemma dotted_plain: "dotted ip \<Longrightarrow> plain_word ip"
  by (auto simp: dotted_def plain_word_def ascii_def list_all_iff is_space_def is_digit_def)

lemma dotted_prefix: "dotted ip \<Longrightarrow> p \<in> {''accept'', ''drop'', ''deny'', ''reject'', ''log''} \<Longrightarrow> \<not> has_prefix ip p"
  by (cases ip) (auto simp: dotted_def is_digit_def has_prefix_iff)

lemma plain_block_words: "dotted ip \<Longrightarrow> list_all plain_word (block_words ip)"
  by (simp add: block_words_def dotted_plain) (simp add: plain_word_def is_space_def)

lemma trim_block_line:
  assumes "dotted ip" shows "trim_space (block_line ip) = str_join '' '' (block_words ip)"
  unfolding block_line_def
proof (rule trim_space_pad)
  show "ascii (str_join '' '' (block_words ip))" by (rule ascii_join[OF plain_block_words[OF assms]])
qed (simp_all add: block_words_def is_space_def)

lemma block_line_action:
  assumes "dotted ip" shows "extractAction (str_join '' '' (block_words ip)) = ''drop''"
proof -
  define line where "line = str_join '' '' (block_words ip)"
  have nb: "\<And>v. v \<in> set (block_words ip) \<Longrightarrow> CHR 0x20 \<notin> set v"
    using plain_block_words[OF assms] plain_word_no_blank by (auto simp: list_all_iff)
  have "\<not> (\<exists>v \<in> set (tl (block_words ip)). has_prefix v ''accept'')"
    using dotted_prefix[OF assms, of "''accept''"] by (auto simp: block_words_def has_prefix_def)
  then have acc: "\<not> str_contains line (CHR 0x20 # ''accept'')"
    using contains_after_blank[of "CHR 0x20" "block_words ip" "''accept''"] nb by (auto simp: line_def)
  have "line = (''ip saddr '' @ ip) @ (CHR 0x20 # ''drop'') @ '' comment \"Waffynx block\" # handle 4''"
    by (simp add: line_def block_words_def)
  then have "str_contains line (CHR 0x20 # ''drop'')" using str_containsI by metis
  with acc show ?thesis
    using has_suffix_contains[of line "CHR 0x20 # ''accept''"] by (auto simp: extractAction_def simp flip: line_def)
qed

lemma extractQuoted_between:
  "CHR 0x22 \<notin> set a \<Longrightarrow> CHR 0x22 \<notin> set q \<Longrightarrow> extractQuoted (a @ CHR 0x22 # q @ CHR 0x22 # t) = q"
  by (simp add: extractQuoted_def index_byte_append Let_def)

lemma block_line_rule:
  assumes "dotted ip"
  shows "nft_rule_of ''ip waffynx'' ''input'' (str_join '' '' (block_words ip)) ''drop'' = listed_block ip"
proof -
  have f: "str_fields (str_join '' '' (block_words ip)) = block_words ip"
    by (rule str_fields_join[OF plain_block_words[OF assms]])
  have nk: "ip \<notin> {''accept'', ''drop'', ''deny'', ''reject'', ''dport'', ''saddr'', ''ip''}"
    using assms by (auto simp: dotted_def is_digit_def)
  have a: "CHR 0x22 \<notin> set (''ip saddr '' @ ip @ '' drop comment '')"
    using assms by (auto simp: dotted_def list_all_iff is_digit_def)
  have q: "CHR 0x22 \<notin> set ''Waffynx block''" by simp
  have "str_join '' '' (block_words ip) =
      (''ip saddr '' @ ip @ '' drop comment '') @ CHR 0x22 # ''Waffynx block'' @ CHR 0x22 # '' # handle 4''"
    by (simp add: block_words_def)
  then have "extractQuoted (str_join '' '' (block_words ip)) = ''Waffynx block''"
    by (simp only: extractQuoted_between[OF a q])
  moreover have "map ascii_upper ''input'' = ''INPUT''" by code_simp
  moreover have "field_after (block_words ip) ''ip'' [] = ''saddr''" "port_after (block_words ip) = 0"
    "source_after (block_words ip) = ip"
    using nk by (simp_all add: block_words_def)
  ultimately show ?thesis
    by (simp add: nft_rule_of_def extractField_def extractPort_def extractSource_def f listed_block_def Let_def
        del: list.map)
qed

definition policy_line_rule :: fw_rule where
  "policy_line_rule =
     \<lparr>fr_table = ''ip waffynx'', fr_chain = ''INPUT'', fr_protocol = ''tcp'', fr_port = 0, fr_source = [],
      fr_action = ''accept'', fr_comment = []\<rparr>"

lemma nft_lines_blocks:
  "list_all dotted ips \<Longrightarrow>
   nft_lines (map block_line ips @ [CHR 0x09 # ''}'', ''}'']) ''ip waffynx'' ''input'' = map listed_block ips"
proof (induction ips)
  case Nil
  have "trim_space (CHR 0x09 # ''}'') = ''}''" "trim_space ''}'' = ''}''"
    by (simp_all add: trim_space_ascii is_space_def)
  moreover have "\<not> has_prefix ''}'' ''table''" "\<not> has_prefix ''}'' ''chain''" "''}'' = ''{'' \<or> ''}'' = ''}'' \<or> ''}'' = []"
    by (simp_all add: has_prefix_def)
  ultimately show ?case
    by (simp only: nft_lines.simps Let_def if_True if_False list.map append_Nil)
next
  case (Cons ip ips)
  then have d: "dotted ip" by simp
  define line where "line = str_join '' '' (block_words ip)"
  have h: "\<not> has_prefix line ''table''" "\<not> has_prefix line ''chain''" "line \<notin> {''{'', ''}'', []}"
    by (auto simp: line_def block_words_def has_prefix_def)
  have "nft_lines (block_line ip # ls) ''ip waffynx'' ''input'' =
      listed_block ip # nft_lines ls ''ip waffynx'' ''input''" for ls
    using h trim_block_line[OF d, folded line_def] block_line_action[OF d, folded line_def]
      block_line_rule[OF d, folded line_def]
    by (simp only: nft_lines.simps Let_def if_False) simp
  then show ?case using Cons by simp
qed

lemma nft_header_lines:
  "nft_lines ([''table ip waffynx { # handle 1'', CHR 0x09 # ''chain input { # handle 1'',
      [CHR 0x09, CHR 0x09] @ ''type filter hook input priority filter; policy accept;''] @ ls) [] [] =
     policy_line_rule # nft_lines ls ''ip waffynx'' ''input''"
proof -
  have t: "trim_space ''table ip waffynx { # handle 1'' = ''table ip waffynx { # handle 1''"
    "trim_space (CHR 0x09 # ''chain input { # handle 1'') = ''chain input { # handle 1''"
    "trim_space ([CHR 0x09, CHR 0x09] @ ''type filter hook input priority filter; policy accept;'') =
      ''type filter hook input priority filter; policy accept;''"
    by (simp_all add: trim_space_ascii is_space_def)
  have "''type filter hook input priority filter; policy accept;'' =
      ''type filter hook input priority filter; policy'' @ (CHR 0x20 # ''accept'') @ '';''" by simp
  then have "str_contains ''type filter hook input priority filter; policy accept;'' (CHR 0x20 # ''accept'')"
    using str_containsI by metis
  then have x: "extractAction ''type filter hook input priority filter; policy accept;'' = ''accept''"
    by (simp add: extractAction_def del: str_contains.simps)
  have pw: "list_all plain_word [''table'', ''ip'', ''waffynx'', ''{'', ''#'', ''handle'', ''1'']"
    "list_all plain_word [''chain'', ''input'', ''{'', ''#'', ''handle'', ''1'']"
    "list_all plain_word [''type'', ''filter'', ''hook'', ''input'', ''priority'', ''filter;'', ''policy'', ''accept;'']"
    by (simp_all add: plain_word_def is_space_def)
  have f: "str_fields ''table ip waffynx { # handle 1'' = [''table'', ''ip'', ''waffynx'', ''{'', ''#'', ''handle'', ''1'']"
    "str_fields ''chain input { # handle 1'' = [''chain'', ''input'', ''{'', ''#'', ''handle'', ''1'']"
    "str_fields ''type filter hook input priority filter; policy accept;'' =
      [''type'', ''filter'', ''hook'', ''input'', ''priority'', ''filter;'', ''policy'', ''accept;'']"
    using str_fields_join[OF pw(1)] str_fields_join[OF pw(2)] str_fields_join[OF pw(3)] by simp_all
  have up: "map ascii_upper ''input'' = ''INPUT''" by code_simp
  have r: "nft_rule_of ''ip waffynx'' ''input'' ''type filter hook input priority filter; policy accept;'' ''accept'' = policy_line_rule"
    unfolding nft_rule_of_def extractField_def extractPort_def extractSource_def f up
    by (simp add: policy_line_rule_def extractQuoted_def)
  define l3 where "l3 = ''type filter hook input priority filter; policy accept;''"
  have h: "has_prefix ''table ip waffynx { # handle 1'' ''table''"
    "\<not> has_prefix ''chain input { # handle 1'' ''table''" "has_prefix ''chain input { # handle 1'' ''chain''"
    "\<not> has_prefix l3 ''table''" "\<not> has_prefix l3 ''chain''" "l3 \<notin> {''{'', ''}'', []}"
    by (simp_all add: l3_def has_prefix_def)
  have s1: "nft_lines (''table ip waffynx { # handle 1'' # ls') [] [] = nft_lines ls' ''ip waffynx'' []" for ls'
    by (simp only: nft_lines.simps Let_def t(1) f(1) h(1) if_True) simp
  have s2: "nft_lines ((CHR 0x09 # ''chain input { # handle 1'') # ls') ''ip waffynx'' [] = nft_lines ls' ''ip waffynx'' ''input''" for ls'
    by (simp only: nft_lines.simps Let_def t(2) f(2) h(2,3) if_True if_False) simp
  have s3: "nft_lines (([CHR 0x09, CHR 0x09] @ l3) # ls') ''ip waffynx'' ''input'' =
      policy_line_rule # nft_lines ls' ''ip waffynx'' ''input''" for ls'
    using h(4-6) by (simp only: nft_lines.simps Let_def t[folded l3_def] x[folded l3_def] r[folded l3_def] if_False) simp
  show ?thesis using s1 s2 s3 by (simp only: append_Cons append_Nil l3_def[symmetric])
qed

lemma nft_listing_split:
  assumes "list_all dotted ips"
  shows "str_split newline (nft_listing ips) =
     [''table ip waffynx { # handle 1'', CHR 0x09 # ''chain input { # handle 1'',
      [CHR 0x09, CHR 0x09] @ ''type filter hook input priority filter; policy accept;''] @
      map block_line ips @ [CHR 0x09 # ''}'', ''}'']"
proof -
  have "is_space (byte newline)" by code_simp
  then have "newline \<notin> set w" if "w \<in> set (block_words ip)" "dotted ip" for w ip
    using plain_block_words[OF that(2)] that(1) by (auto simp: list_all_iff plain_word_def)
  then have bl: "newline \<notin> set (block_line ip)" if "dotted ip" for ip
    using that by (auto simp: block_line_def block_words_def newline_def)
  have ne: "[''table ip waffynx { # handle 1'', CHR 0x09 # ''chain input { # handle 1'',
      [CHR 0x09, CHR 0x09] @ ''type filter hook input priority filter; policy accept;''] @
     map block_line ips @ [CHR 0x09 # ''}'', ''}''] \<noteq> []" by simp
  show ?thesis
    unfolding nft_listing_def
    by (rule split_join[OF ne]) (use assms bl in \<open>auto simp: list_all_iff newline_def\<close>)
qed



end
