(* ===== verification/GoMux.thy ===== *)
theory GoMux
  imports GoHttp
begin

text \<open>
  \<^verbatim>\<open>http.ServeMux\<close> as of Go 1.22 for the patterns of this program: a method, literal and
  one-segment wildcard parts, and a trailing slash that matches any rest. At each position a
  literal is preferred to a wildcard and a wildcard to a trailing slash. Paths are taken as clean;
  the redirections of the multiplexer are not modelled.
\<close>

datatype pseg = Lit string | Wild string | Rest

record 'h route =
  ro_method :: string
  ro_path :: "pseg list"
  ro_target :: 'h

text \<open>The segments of a path; a final slash is a segment of its own.\<close>

definition path_segments :: "string \<Rightarrow> string list" where
  "path_segments path =
     (case rev (str_split (CHR ''/'') path) of
        [] \<Rightarrow> []
      | l # r \<Rightarrow> filter (\<lambda>s. s \<noteq> []) (rev r) @ [if l = [] then ''/'' else l])"

type_synonym 'h open_route = "pseg list \<times> (string \<times> string) list \<times> 'h"

fun lit_step :: "string \<Rightarrow> 'h open_route \<Rightarrow> 'h open_route list" where
  "lit_step s (Lit l # ps, bs, h) = (if l = s then [(ps, bs, h)] else [])"
| "lit_step s (_, bs, h) = []"

fun wild_step :: "string \<Rightarrow> 'h open_route \<Rightarrow> 'h open_route list" where
  "wild_step s (Wild n # ps, bs, h) = [(ps, bs @ [(n, s)], h)]"
| "wild_step s (_, bs, h) = []"

definition first_done :: "pseg list \<Rightarrow> 'h open_route list \<Rightarrow> ('h \<times> (string \<times> string) list) option" where
  "first_done p rs = map_option (\<lambda>(_, bs, h). (h, bs)) (find (\<lambda>(q, _, _). q = p) rs)"

fun mux_match :: "'h open_route list \<Rightarrow> string list \<Rightarrow> ('h \<times> (string \<times> string) list) option" where
  "mux_match rs [] = first_done [] rs"
| "mux_match rs (s # ss) =
     (case mux_match (concat (map (lit_step s) rs)) ss of
        Some x \<Rightarrow> Some x
      | None \<Rightarrow>
         (case (if s = ''/'' then None else mux_match (concat (map (wild_step s) rs)) ss) of
            Some x \<Rightarrow> Some x
          | None \<Rightarrow> first_done [Rest] rs))"

definition method_routes :: "string \<Rightarrow> 'h route list \<Rightarrow> 'h open_route list" where
  "method_routes m rs = map (\<lambda>r. (ro_path r, [], ro_target r)) (filter (\<lambda>r. ro_method r = m) rs)"

text \<open>A HEAD request falls back to the GET patterns.\<close>

definition mux_find :: "'h route list \<Rightarrow> string \<Rightarrow> string \<Rightarrow> ('h \<times> (string \<times> string) list) option" where
  "mux_find rs m path =
     (case mux_match (method_routes m rs) (path_segments path) of
        Some x \<Rightarrow> Some x
      | None \<Rightarrow> if m = ''HEAD'' then mux_match (method_routes ''GET'' rs) (path_segments path) else None)"

text \<open>405 when another method has the path, else 404.\<close>

definition mux_missing :: "'h route list \<Rightarrow> string \<Rightarrow> nat" where
  "mux_missing rs path =
     (if list_ex (\<lambda>r. mux_match [(ro_path r, [], ())] (path_segments path) \<noteq> None) rs then 405 else 404)"

definition targets :: "'h open_route list \<Rightarrow> 'h set" where
  "targets rs = (\<lambda>r. snd (snd r)) ` set rs"

lemma first_done_in: "first_done p rs = Some (h, bs) \<Longrightarrow> h \<in> targets rs"
proof -
  assume "first_done p rs = Some (h, bs)"
  then obtain q cs where "find (\<lambda>(q, _, _). q = p) rs = Some (q, cs, h)" by (auto simp: first_done_def)
  then have "(q, cs, h) \<in> set rs" by (auto simp: find_Some_iff in_set_conv_nth)
  then show "h \<in> targets rs" by (force simp: targets_def)
qed

lemma lit_step_target: "x \<in> set (lit_step s r) \<Longrightarrow> snd (snd x) = snd (snd r)"
  by (cases "(s, r)" rule: lit_step.cases) (auto split: if_splits)

lemma wild_step_target: "x \<in> set (wild_step s r) \<Longrightarrow> snd (snd x) = snd (snd r)"
  by (cases "(s, r)" rule: wild_step.cases) auto

lemma step_targets:
  "targets (concat (map (lit_step s) rs)) \<subseteq> targets rs" "targets (concat (map (wild_step s) rs)) \<subseteq> targets rs"
  by (auto simp: targets_def dest: lit_step_target wild_step_target)

lemma mux_match_in: "mux_match rs ss = Some (h, bs) \<Longrightarrow> h \<in> targets rs"
proof (induction rs ss arbitrary: h bs rule: mux_match.induct)
  case (1 rs)
  then show ?case using first_done_in by simp
next
  case (2 rs s ss)
  note ih = "2.IH"
  show ?case
  proof (cases "mux_match (concat (map (lit_step s) rs)) ss")
    case None
    show ?thesis
    proof (cases "s \<noteq> ''/'' \<and> mux_match (concat (map (wild_step s) rs)) ss = Some (h, bs)")
      case True
      then have "h \<in> targets (concat (map (wild_step s) rs))" using ih(2)[OF None] by simp
      then show ?thesis by (rule subsetD[OF step_targets(2)])
    next
      case False
      then have "first_done [Rest] rs = Some (h, bs)" using "2.prems" None by (auto split: option.splits if_splits)
      then show ?thesis by (rule first_done_in)
    qed
  next
    case (Some x)
    then have "h \<in> targets (concat (map (lit_step s) rs))" using ih(1) "2.prems" by simp
    then show ?thesis by (rule subsetD[OF step_targets(1)])
  qed
qed

text \<open>What the multiplexer finds is one of the registered routes, with its method.\<close>

lemma mux_find_in:
  assumes "mux_find rs m path = Some (h, bs)"
  shows "\<exists>r \<in> set rs. ro_target r = h \<and> (ro_method r = m \<or> m = ''HEAD'' \<and> ro_method r = ''GET'')"
proof -
  have r: "\<exists>r \<in> set rs. ro_target r = h \<and> ro_method r = k"
    if "mux_match (method_routes k rs) ss = Some (h, bs)" for k ss
    using mux_match_in[OF that] by (auto simp: method_routes_def targets_def)
  show ?thesis
  proof (cases "mux_match (method_routes m rs) (path_segments path)")
    case None
    then have "m = ''HEAD''" "mux_match (method_routes ''GET'' rs) (path_segments path) = Some (h, bs)"
      using assms by (auto simp: mux_find_def split: if_splits)
    then show ?thesis using r by blast
  next
    case (Some x)
    then show ?thesis using assms r by (auto simp: mux_find_def)
  qed
qed

text \<open>\<^verbatim>\<open>r.PathValue(k)\<close>\<close>

definition path_value :: "(string \<times> string) list \<Rightarrow> string \<Rightarrow> string" where
  "path_value bs k = (case map_of bs k of None \<Rightarrow> [] | Some v \<Rightarrow> v)"

end
