(* ===== verification/Marketplace.thy ===== *)
theory Marketplace
  imports PluginChain
begin

text \<open>
  \<^verbatim>\<open>internal/marketplace\<close>: the in-memory store of plugin packages, a map from names to maps
  from versions to packages. The maps are association lists in the order in which a range
  over them happens to run; the packages are stored by pointer and only changed in place by
  the store.
\<close>

section \<open>Packages\<close>

datatype package_status = StatusPublished | StatusInstalled | StatusPending | StatusDeprecated | StatusOther string

definition package_status_of :: "string \<Rightarrow> package_status" where
  "package_status_of s =
     (if s = ''published'' then StatusPublished else if s = ''installed'' then StatusInstalled
      else if s = ''pending'' then StatusPending else if s = ''deprecated'' then StatusDeprecated else StatusOther s)"

record package =
  pk_id :: string
  pk_name :: string
  pk_version :: string
  pk_description :: string
  pk_author :: string
  pk_license :: string
  pk_category :: string
  pk_tags :: "string list"
  pk_downloads :: int
  pk_rating :: float64
  pk_status :: package_status
  pk_published_at :: int
  pk_updated_at :: int
  pk_checksum :: string
  pk_plugin :: "metadata option"

record package_filter =
  pf_category :: string
  pf_tag :: string
  pf_query :: string
  pf_status :: package_status
  pf_limit :: int
  pf_offset :: int

record package_store =
  ms_packages :: "(string \<times> (string \<times> package) list) list"

definition NewInMemoryStore :: package_store where
  "NewInMemoryStore = \<lparr>ms_packages = []\<rparr>"

section \<open>Operations\<close>

definition all_packages :: "package_store \<Rightarrow> package list" where
  "all_packages s = concat (map (\<lambda>(n, vs). map snd vs) (ms_packages s))"

definition filter_keeps :: "package_filter \<Rightarrow> package \<Rightarrow> bool" where
  "filter_keeps f p =
     (if pf_status f \<noteq> StatusOther [] \<and> pk_status p \<noteq> pf_status f then False
      else if pf_category f \<noteq> [] \<and> pk_category p \<noteq> pf_category f then False
      else True)"

definition list_packages :: "package_filter \<Rightarrow> package_store \<Rightarrow> package list" where
  "list_packages f s =
     (let result = filter (filter_keeps f) (all_packages s)
      in if 0 < pf_limit f \<and> pf_limit f < int (length result) then take (nat (pf_limit f)) result else result)"

definition package_missing :: "string \<Rightarrow> string" where
  "package_missing name = ''package '' @ name @ '' not found''"

definition version_missing :: "string \<Rightarrow> string \<Rightarrow> string" where
  "version_missing name version = ''version '' @ version @ '' of package '' @ name @ '' not found''"

definition get_package :: "string \<Rightarrow> string \<Rightarrow> package_store \<Rightarrow> string + package" where
  "get_package name version s =
     (case map_of (ms_packages s) name of
        None \<Rightarrow> Inl (package_missing name)
      | Some vs \<Rightarrow>
         (case map_of vs version of None \<Rightarrow> Inl (version_missing name version) | Some p \<Rightarrow> Inr p))"

definition install_package :: "string \<Rightarrow> string \<Rightarrow> package_store \<Rightarrow> string + package_store" where
  "install_package name version s =
     (case map_of (ms_packages s) name of
        None \<Rightarrow> Inl (package_missing name)
      | Some vs \<Rightarrow>
         (case map_of vs version of
            None \<Rightarrow> Inl (version_missing name version)
          | Some p \<Rightarrow>
              Inr (s\<lparr>ms_packages :=
                AList.update name (AList.update version (p\<lparr>pk_status := StatusInstalled\<rparr>) vs) (ms_packages s)\<rparr>)))"

fun uninstall_first :: "(string \<times> package) list \<Rightarrow> (string \<times> package) list option" where
  "uninstall_first [] = None"
| "uninstall_first ((v, p) # vs) =
     (if pk_status p = StatusInstalled then Some ((v, p\<lparr>pk_status := StatusPublished\<rparr>) # vs)
      else map_option ((#) (v, p)) (uninstall_first vs))"

definition uninstall_package :: "string \<Rightarrow> package_store \<Rightarrow> string + package_store" where
  "uninstall_package name s =
     (case map_of (ms_packages s) name of
        None \<Rightarrow> Inl (package_missing name)
      | Some vs \<Rightarrow>
         (case uninstall_first vs of
            None \<Rightarrow> Inl (''package '' @ name @ '' is not installed'')
          | Some vs' \<Rightarrow> Inr (s\<lparr>ms_packages := AList.update name vs' (ms_packages s)\<rparr>)))"

text \<open>The substring search of \<^verbatim>\<open>Search\<close>: a loop over the start positions.\<close>

function searchString :: "nat \<Rightarrow> string \<Rightarrow> string \<Rightarrow> bool" where
  "searchString i s sub =
     (if int i \<le> int (length s) - int (length sub)
      then if take (length sub) (drop i s) = sub then True else searchString (i + 1) s sub
      else False)"
  by pat_completeness auto
termination
  by (relation "measure (\<lambda>(i, s, sub). length s + 1 - i)") auto

declare searchString.simps [simp del]

definition contains_text :: "string \<Rightarrow> string \<Rightarrow> bool" where
  "contains_text s sub = (length sub \<le> length s \<and> searchString 0 s sub)"

definition search_packages :: "string \<Rightarrow> package_store \<Rightarrow> package list" where
  "search_packages q s = filter (\<lambda>p. contains_text (pk_name p) q \<or> contains_text (pk_description p) q) (all_packages s)"

definition package_categories :: "package_store \<Rightarrow> string list" where
  "package_categories s = remdups (map pk_category (all_packages s))"

definition add_package :: "package \<Rightarrow> package_store \<Rightarrow> package_store" where
  "add_package p s =
     (let vs = (case map_of (ms_packages s) (pk_name p) of None \<Rightarrow> [] | Some vs \<Rightarrow> vs)
      in s\<lparr>ms_packages := AList.update (pk_name p) (AList.update (pk_version p) p vs) (ms_packages s)\<rparr>)"

section \<open>Invariant\<close>

definition ms_inv :: "package_store \<Rightarrow> bool" where
  "ms_inv s =
     (distinct (map fst (ms_packages s)) \<and>
      list_all (\<lambda>(n, vs). distinct (map fst vs) \<and> list_all (\<lambda>(v, p). pk_name p = n \<and> pk_version p = v) vs) (ms_packages s))"

lemma ms_inv_new: "ms_inv NewInMemoryStore"
  by (simp add: ms_inv_def NewInMemoryStore_def)

lemma ms_inv_versions:
  "ms_inv s \<Longrightarrow> map_of (ms_packages s) n = Some vs \<Longrightarrow>
   distinct (map fst vs) \<and> list_all (\<lambda>(v, p). pk_name p = n \<and> pk_version p = v) vs"
  using map_of_SomeD by (fastforce simp: ms_inv_def list_all_iff)

lemma ms_inv_update:
  assumes "ms_inv s" "distinct (map fst vs)" "list_all (\<lambda>(v, p). pk_name p = n \<and> pk_version p = v) vs"
  shows "ms_inv (s\<lparr>ms_packages := AList.update n vs (ms_packages s)\<rparr>)"
  using assms by (auto simp: ms_inv_def distinct_update intro!: list_all_update)

lemma uninstall_first_shape:
  "uninstall_first vs = Some vs' \<Longrightarrow>
   \<exists>us v p ws. vs = us @ (v, p) # ws \<and> pk_status p = StatusInstalled \<and>
     list_all (\<lambda>(v, p). pk_status p \<noteq> StatusInstalled) us \<and> vs' = us @ (v, p\<lparr>pk_status := StatusPublished\<rparr>) # ws"
proof (induction vs arbitrary: vs')
  case (Cons x vs)
  obtain v p where x: "x = (v, p)" by (cases x)
  show ?case
  proof (cases "pk_status p = StatusInstalled")
    case True
    then have "vs' = (v, p\<lparr>pk_status := StatusPublished\<rparr>) # vs" using Cons.prems x by simp
    then have "x # vs = [] @ (v, p) # vs \<and> pk_status p = StatusInstalled \<and>
        list_all (\<lambda>(v, p). pk_status p \<noteq> StatusInstalled) [] \<and>
        vs' = [] @ (v, p\<lparr>pk_status := StatusPublished\<rparr>) # vs"
      using True x by simp
    then show ?thesis by blast
  next
    case False
    then obtain vs1 where "uninstall_first vs = Some vs1" "vs' = (v, p) # vs1" using Cons.prems x by auto
    with Cons.IH obtain us w q ws where "vs = us @ (w, q) # ws" "pk_status q = StatusInstalled"
      "list_all (\<lambda>(v, p). pk_status p \<noteq> StatusInstalled) us" "vs1 = us @ (w, q\<lparr>pk_status := StatusPublished\<rparr>) # ws"
      by blast
    then have "x # vs = ((v, p) # us) @ (w, q) # ws \<and> pk_status q = StatusInstalled \<and>
        list_all (\<lambda>(v, p). pk_status p \<noteq> StatusInstalled) ((v, p) # us) \<and>
        vs' = ((v, p) # us) @ (w, q\<lparr>pk_status := StatusPublished\<rparr>) # ws"
      using x False \<open>vs' = _\<close> by simp
    then show ?thesis by blast
  qed
qed simp

lemma uninstall_first_None: "uninstall_first vs = None \<longleftrightarrow> list_all (\<lambda>(v, p). pk_status p \<noteq> StatusInstalled) vs"
  by (induction vs rule: uninstall_first.induct) auto

section \<open>The store as a map of packages\<close>

definition lookup :: "package_store \<Rightarrow> string \<times> string \<Rightarrow> package option" where
  "lookup s nv = Option.bind (map_of (ms_packages s) (fst nv)) (\<lambda>vs. map_of vs (snd nv))"

lemma get_lookup: "get_package n v s = Inr p \<longleftrightarrow> lookup s (n, v) = Some p"
  by (auto simp: get_package_def lookup_def split: option.splits)

lemma lookup_update:
  "lookup (s\<lparr>ms_packages := AList.update n vs (ms_packages s)\<rparr>) =
   (\<lambda>nv. if fst nv = n then map_of vs (snd nv) else lookup s nv)"
  by (auto simp: lookup_def fun_eq_iff update_conv)

lemma lookup_add: "lookup (add_package p s) = (lookup s)((pk_name p, pk_version p) \<mapsto> p)"
  by (auto simp: add_package_def Let_def lookup_update lookup_def fun_eq_iff update_conv split: option.split)

lemma lookup_install:
  assumes "lookup s (n, v) = Some p"
  shows "\<exists>s'. install_package n v s = Inr s' \<and> lookup s' = (lookup s)((n, v) \<mapsto> p\<lparr>pk_status := StatusInstalled\<rparr>)"
proof -
  obtain vs where "map_of (ms_packages s) n = Some vs" "map_of vs v = Some p"
    using assms by (auto simp: lookup_def split: bind_splits)
  then show ?thesis
    by (auto simp: install_package_def lookup_update lookup_def fun_eq_iff update_conv)
qed

lemma install_error: "(\<exists>e. install_package n v s = Inl e) \<longleftrightarrow> lookup s (n, v) = None"
  by (auto simp: install_package_def lookup_def split: option.splits)

lemma lookup_uninstall:
  assumes "ms_inv s" "uninstall_package n s = Inr s'"
  shows "\<exists>v p. lookup s (n, v) = Some p \<and> pk_status p = StatusInstalled \<and>
     lookup s' = (lookup s)((n, v) \<mapsto> p\<lparr>pk_status := StatusPublished\<rparr>)"
proof -
  obtain vs vs' where m: "map_of (ms_packages s) n = Some vs" and u: "uninstall_first vs = Some vs'"
    and s': "s' = s\<lparr>ms_packages := AList.update n vs' (ms_packages s)\<rparr>"
    using assms(2) by (auto simp: uninstall_package_def split: option.splits)
  obtain us v p ws where sh: "vs = us @ (v, p) # ws" "pk_status p = StatusInstalled"
    "vs' = us @ (v, p\<lparr>pk_status := StatusPublished\<rparr>) # ws"
    using uninstall_first_shape[OF u] by blast
  have "v \<notin> fst ` set us" using ms_inv_versions[OF assms(1) m] sh(1) by auto
  then have "map_of us v = None" by (simp add: map_of_eq_None_iff)
  then have "map_of vs v = Some p" "map_of vs' = (map_of vs)(v \<mapsto> p\<lparr>pk_status := StatusPublished\<rparr>)"
    using sh by (auto simp: fun_eq_iff map_add_def split: option.split)
  then show ?thesis
    using m sh(2) unfolding s' lookup_update by (intro exI[of _ v] exI[of _ p]) (auto simp: lookup_def fun_eq_iff)
qed

lemma uninstall_error:
  assumes "uninstall_package n s = Inl e" "lookup s (n, v) = Some p"
  shows "pk_status p \<noteq> StatusInstalled"
proof -
  obtain vs where m: "map_of (ms_packages s) n = Some vs" "map_of vs v = Some p"
    using assms(2) by (auto simp: lookup_def split: bind_splits)
  then have "uninstall_first vs = None"
    using assms(1) by (simp add: uninstall_package_def split: option.splits)
  then show ?thesis using map_of_SomeD[OF m(2)] by (auto simp: uninstall_first_None list_all_iff)
qed

lemma ms_inv_add: "ms_inv s \<Longrightarrow> ms_inv (add_package p s)"
  unfolding add_package_def Let_def
  by (rule ms_inv_update)
    (auto dest: ms_inv_versions intro!: list_all_update distinct_update split: option.split)

lemma ms_inv_install:
  assumes "ms_inv s" "install_package n v s = Inr s'"
  shows "ms_inv s'"
proof -
  obtain vs p where m: "map_of (ms_packages s) n = Some vs" "map_of vs v = Some p"
    and s': "s' = s\<lparr>ms_packages :=
      AList.update n (AList.update v (p\<lparr>pk_status := StatusInstalled\<rparr>) vs) (ms_packages s)\<rparr>"
    using assms(2) by (auto simp: install_package_def split: option.splits)
  note vs = ms_inv_versions[OF assms(1) m(1)]
  have "pk_name p = n \<and> pk_version p = v"
    using vs map_of_SomeD[OF m(2)] by (auto simp: list_all_iff)
  then show ?thesis
    unfolding s' using vs by (intro ms_inv_update[OF assms(1)] distinct_update list_all_update) auto
qed

lemma ms_inv_uninstall:
  assumes "ms_inv s" "uninstall_package n s = Inr s'"
  shows "ms_inv s'"
proof -
  obtain vs vs' where m: "map_of (ms_packages s) n = Some vs" and u: "uninstall_first vs = Some vs'"
    and s': "s' = s\<lparr>ms_packages := AList.update n vs' (ms_packages s)\<rparr>"
    using assms(2) by (auto simp: uninstall_package_def split: option.splits)
  note v = ms_inv_versions[OF assms(1) m]
  have "distinct (map fst vs') \<and> list_all (\<lambda>(v, p). pk_name p = n \<and> pk_version p = v) vs'"
    using uninstall_first_shape[OF u] v by auto
  then show ?thesis unfolding s' using ms_inv_update[OF assms(1)] by blast
qed

section \<open>Substring search\<close>

lemma searchString_iff:
  "searchString i s sub \<longleftrightarrow> (\<exists>j \<ge> i. j + length sub \<le> length s \<and> take (length sub) (drop j s) = sub)"
proof (induction i s sub rule: searchString.induct)
  case (1 i s sub)
  show ?case
  proof (cases "i + length sub \<le> length s")
    case True
    then have g: "int i \<le> int (length s) - int (length sub)" by linarith
    show ?thesis
    proof (cases "take (length sub) (drop i s) = sub")
      case hit: True
      then show ?thesis using True g by (subst searchString.simps) auto
    next
      case False
      have "searchString i s sub = searchString (i + 1) s sub"
        using g False by (subst searchString.simps) simp
      also have "\<dots> \<longleftrightarrow> (\<exists>j \<ge> i + 1. j + length sub \<le> length s \<and> take (length sub) (drop j s) = sub)"
        by (rule 1[OF g False])
      also have "\<dots> \<longleftrightarrow> (\<exists>j \<ge> i. j + length sub \<le> length s \<and> take (length sub) (drop j s) = sub)"
      proof (rule ex_cong1)
        fix j
        show "(i + 1 \<le> j \<and> j + length sub \<le> length s \<and> take (length sub) (drop j s) = sub) \<longleftrightarrow>
              (i \<le> j \<and> j + length sub \<le> length s \<and> take (length sub) (drop j s) = sub)"
          using False by (cases "j = i") auto
      qed
      finally show ?thesis .
    qed
  next
    case False
    then have "\<not> int i \<le> int (length s) - int (length sub)" by linarith
    then show ?thesis using False by (subst searchString.simps) auto
  qed
qed

text \<open>
  the hand-written substring search of the marketplace agrees with \<^verbatim>\<open>strings.Contains\<close> on
  every pair of strings, the empty ones included.
\<close>

lemma contains_text_spec: "contains_text s sub = str_contains s sub"
proof
  assume "contains_text s sub"
  then obtain j where "take (length sub) (drop j s) = sub" by (auto simp: contains_text_def searchString_iff)
  then have "s = take j s @ sub @ drop (length sub) (drop j s)" by (metis append_take_drop_id)
  then show "str_contains s sub" unfolding str_contains_iff by blast
next
  assume "str_contains s sub"
  then obtain a b where "s = a @ sub @ b" by (auto simp: str_contains_iff)
  then show "contains_text s sub" by (auto simp: contains_text_def searchString_iff intro!: exI[of _ "length a"])
qed

section \<open>Properties\<close>

text \<open>
  C36: the store refines a finite map from a name and a version to a package: adding a package
  is one update of the map and keeps the store well formed; installing fails exactly when the
  package is absent and otherwise changes its status alone; uninstalling fails only when no
  version of the package is installed, and otherwise puts exactly one installed version back
  to published and leaves every other package as it was.
\<close>

lemma store_refines_map:
  assumes "ms_inv s"
  shows "lookup (add_package p s) = (lookup s)((pk_name p, pk_version p) \<mapsto> p) \<and> ms_inv (add_package p s) \<and>
    (case install_package n v s of
       Inl e \<Rightarrow> lookup s (n, v) = None
     | Inr s1 \<Rightarrow> \<exists>q. lookup s (n, v) = Some q \<and>
         lookup s1 = (lookup s)((n, v) \<mapsto> q\<lparr>pk_status := StatusInstalled\<rparr>) \<and> ms_inv s1) \<and>
    (case uninstall_package n s of
       Inl e \<Rightarrow> (\<forall>w q. lookup s (n, w) = Some q \<longrightarrow> pk_status q \<noteq> StatusInstalled)
     | Inr s2 \<Rightarrow> \<exists>w q. lookup s (n, w) = Some q \<and> pk_status q = StatusInstalled \<and>
         lookup s2 = (lookup s)((n, w) \<mapsto> q\<lparr>pk_status := StatusPublished\<rparr>) \<and> ms_inv s2)"
  using install_error[of n v s] lookup_install[of s n v] lookup_uninstall[OF assms, of n] uninstall_error[of n s]
    ms_inv_add[OF assms] ms_inv_install[OF assms, of n v] ms_inv_uninstall[OF assms, of n]
  by (cases "lookup s (n, v)")
    (auto simp: lookup_add split: sum.split)

definition sample_package :: package where
  "sample_package = \<lparr>pk_id = ''p1'', pk_name = ''geo'', pk_version = ''1.0'', pk_description = ''Geo blocking'',
     pk_author = ''a'', pk_license = ''MIT'', pk_category = ''security'', pk_tags = [], pk_downloads = 0,
     pk_rating = 0, pk_status = StatusPublished, pk_published_at = 0, pk_updated_at = 0, pk_checksum = [],
     pk_plugin = None\<rparr>"

lemma store_refines_map_witness:
  "ms_inv (add_package sample_package NewInMemoryStore) \<and>
   (case uninstall_package ''geo'' (add_package sample_package NewInMemoryStore) of
      Inl e \<Rightarrow> (\<forall>w q. lookup (add_package sample_package NewInMemoryStore) (''geo'', w) = Some q \<longrightarrow>
        pk_status q \<noteq> StatusInstalled)
    | Inr s2 \<Rightarrow> False)"
proof -
  let ?s = "add_package sample_package NewInMemoryStore"
  have "uninstall_package ''geo'' ?s = Inl (''package '' @ ''geo'' @ '' is not installed'')"
    by (simp add: uninstall_package_def add_package_def sample_package_def NewInMemoryStore_def)
  then show ?thesis
    using store_refines_map[OF ms_inv_new, of sample_package]
      store_refines_map[OF ms_inv_add[OF ms_inv_new], of sample_package sample_package "''geo''"] by simp
qed

end
