(* ===== verification/Api.thy ===== *)
theory Api
  imports Auth AuditStore EventWire Firewall GoMux Marketplace GoNet
begin

text \<open>
  \<^verbatim>\<open>internal/api\<close>, the core: the server's state, the libraries and the machine it runs on (the
  environment of one request), JSON answers and the middleware. A handler takes the claims
  that the request's context carries, the request, the response writer and the state; \<^verbatim>\<open>None\<close> is
  a run-time panic. The configuration pointer is never nil once the server exists.
\<close>

section \<open>State and environment\<close>

record banned_ip =
  bi_ip :: string
  bi_reason :: string
  bi_created_at :: int
  bi_expires_at :: int
  bi_ttl :: int

record api =
  sv_cfg :: Config
  sv_config_path :: string
  sv_auth :: auth_manager
  sv_oidc :: oidc_manager
  sv_store :: package_store
  sv_audit :: "audit_store option"
  sv_broker :: "broker option"
  sv_banned :: "(string \<times> banned_ip) list"
  sv_firewall :: "manager option"
  sv_ui_dir :: string
  sv_commands :: cmd_log
  sv_files :: "(string \<times> string) list"

record runtime_stats =
  rt_goroutines :: int
  rt_alloc :: int
  rt_total_alloc :: int
  rt_heap_alloc :: int
  rt_heap_inuse :: int
  rt_stack_inuse :: int
  rt_pause_ns :: "int list"
  rt_num_gc :: int
  rt_go_version :: string

record 'w api_env =
  en_now :: int
  en_record_time :: int
  en_audit_time :: int
  en_publish_time :: int
  en_uuid :: string
  en_jwt :: jwt_lib
  en_oidc :: oidc_lib
  en_bcrypt :: "string \<Rightarrow> string \<Rightarrow> string option"
  en_exec :: cmd_env
  en_parse_time :: "string \<Rightarrow> int option"
  en_rfc3339 :: "int \<Rightarrow> string"
  en_utc_seconds :: "int \<Rightarrow> string"
  en_float_text :: "float64 \<Rightarrow> string"
  en_is_upper :: "nat \<Rightarrow> bool"
  en_lower :: "nat \<Rightarrow> nat"
  en_yaml_config :: "Config \<Rightarrow> string + string"
  en_yaml_map :: "(string \<times> dyn) list \<Rightarrow> string + string"
  en_yaml_to_map :: "string \<Rightarrow> string + (string \<times> dyn) list"
  en_yaml :: "string \<Rightarrow> Config \<Rightarrow> string + Config"
  en_write_file :: "string \<Rightarrow> string \<Rightarrow> string option"
  en_read_file :: "string \<Rightarrow> string option"
  en_embedded :: "string \<Rightarrow> string option"
  en_mime :: "string \<Rightarrow> string"
  en_external :: "string \<Rightarrow> http_request \<Rightarrow> response \<Rightarrow> response"
  en_registry :: "'w registry"
  en_runtime :: runtime_stats
  en_version :: "string \<times> string \<times> string"

type_synonym api_handler = "claims option \<Rightarrow> http_request \<Rightarrow> response \<Rightarrow> api \<Rightarrow> (response \<times> api) option"

section \<open>Answers\<close>

definition status_text :: "nat \<Rightarrow> string" where
  "status_text code =
     (if code = 400 then ''Bad Request'' else if code = 401 then ''Unauthorized''
      else if code = 403 then ''Forbidden'' else if code = 404 then ''Not Found''
      else if code = 500 then ''Internal Server Error'' else if code = 501 then ''Not Implemented''
      else if code = 503 then ''Service Unavailable'' else [])"

definition writeJSON :: "nat \<Rightarrow> dyn \<Rightarrow> response \<Rightarrow> response" where
  "writeJSON status data w =
     write_piece (Json data) (write_header status (set_header ''Content-Type'' ''application/json'' w))"

definition writeError :: "nat \<Rightarrow> string \<Rightarrow> response \<Rightarrow> response" where
  "writeError status message w =
     writeJSON status (DMap [(''error'', DStr (status_text status)), (''message'', DStr message)]) w"

lemma writeJSON_status [simp]: "rs_status w = None \<Longrightarrow> rs_status (writeJSON c d w) = Some c"
  by (simp add: writeJSON_def)

lemma writeError_status [simp]: "rs_status w = None \<Longrightarrow> rs_status (writeError c m w) = Some c"
  by (simp add: writeError_def)

definition UserFromContext :: "claims option \<Rightarrow> string" where
  "UserFromContext ctx = (case ctx of Some c \<Rightarrow> cl_username c | None \<Rightarrow> ''admin'')"

section \<open>Authentication\<close>

definition oidc_session :: "string \<Rightarrow> string \<Rightarrow> claims" where
  "oidc_session username role =
     \<lparr>cl_id = [], cl_subject = [], cl_issued_at = 0, cl_expires_at = 0, cl_username = username, cl_role = role,
      cl_scopes = [''read'', ''write'']\<rparr>"

text \<open>The token as an OIDC token first, when a provider is configured, then as a local one.\<close>

definition authenticate :: "'w api_env \<Rightarrow> string \<Rightarrow> api \<Rightarrow> string + claims" where
  "authenticate env token s =
     (case (if oidc_enabled (sv_oidc s) then oidc_validate (en_oidc env) token (sv_oidc s) else Inl []) of
        Inr (username, role, provider) \<Rightarrow> Inr (oidc_session username role)
      | Inl _ \<Rightarrow> ValidateToken (en_jwt env) (en_now env) token (sv_auth s))"

definition authMiddleware :: "'w api_env \<Rightarrow> api_handler \<Rightarrow> api_handler" where
  "authMiddleware env next ctx r w s =
     (let header = header_get (rq_headers r) ''Authorization''
      in if header = [] then Some (writeError 401 ''missing authorization header'' w, s)
         else let token = trim_prefix header ''Bearer ''
         in if token = header then Some (writeError 401 ''invalid authorization format'' w, s)
            else case authenticate env token s of
              Inl err \<Rightarrow> Some (writeError 401 (''invalid token: '' @ err) w, s)
            | Inr c \<Rightarrow> next (Some c) r w s)"

definition requireRole :: "string \<Rightarrow> api_handler \<Rightarrow> api_handler" where
  "requireRole role next ctx r w s =
     (case ctx of
        None \<Rightarrow> Some (writeError 401 ''unauthorized'' w, s)
      | Some c \<Rightarrow>
          if cl_role c \<noteq> role \<and> cl_role c \<noteq> ''admin''
          then Some (writeError 403 (''insufficient permissions: requires '' @ role @ '' role'') w, s)
          else next ctx r w s)"

definition requireScope :: "string \<Rightarrow> api_handler \<Rightarrow> api_handler" where
  "requireScope scope next ctx r w s =
     (case ctx of
        None \<Rightarrow> Some (writeError 401 ''unauthorized'' w, s)
      | Some c \<Rightarrow>
          if list_ex (\<lambda>granted. granted = scope) (cl_scopes c) then next ctx r w s
          else Some (writeError 403 ''insufficient permissions'' w, s))"

section \<open>Cross-origin requests\<close>

definition allowed_origin :: "Config \<Rightarrow> string \<Rightarrow> string" where
  "allowed_origin cfg origin =
     (if ap_allowed_origins (cf_api cfg) \<noteq> [] \<and> origin \<noteq> []
      then (case find (\<lambda>x. x \<noteq> ''*'' \<and> x = origin) (ap_allowed_origins (cf_api cfg)) of Some x \<Rightarrow> x | None \<Rightarrow> [])
      else [])"

definition cors_headers :: "string \<Rightarrow> response \<Rightarrow> response" where
  "cors_headers x w =
     set_header ''Access-Control-Allow-Headers'' ''Content-Type, Authorization''
       (set_header ''Access-Control-Allow-Methods'' ''GET, POST, PUT, DELETE, OPTIONS''
         (set_header ''Access-Control-Allow-Credentials'' ''true''
           (set_header ''Access-Control-Allow-Origin'' x w)))"

definition corsMiddleware :: "api_handler \<Rightarrow> api_handler" where
  "corsMiddleware next ctx r w s =
     (let origin = header_get (rq_headers r) ''Origin'';
          allowedOrigin = allowed_origin (sv_cfg s) origin;
          w = (if origin \<noteq> [] then add_header ''Vary'' ''Origin'' w else w);
          w = (if allowedOrigin \<noteq> [] then cors_headers allowedOrigin w else w)
      in if rq_method r = ''OPTIONS''
         then Some (write_header (if allowedOrigin \<noteq> [] then 204 else 403) w, s)
         else next ctx r w s)"

section \<open>Audit\<close>

text \<open>
  The status that is recorded is the one that was sent: every handler of the server sends its
  status once. The claims are looked up in the context of the outer request.
\<close>

definition audit_entry :: "claims option \<Rightarrow> http_request \<Rightarrow> nat \<Rightarrow> audit_event" where
  "audit_entry ctx r status =
     empty_event\<lparr>ae_actor := (case ctx of Some c \<Rightarrow> cl_username c | None \<Rightarrow> ''anonymous''),
       ae_actor_ip := rq_remote_addr r, ae_action := rq_method r @ '' '' @ rq_path r,
       ae_result := (if 400 \<le> status then ''blocked'' else ''allowed''),
       ae_details := ''HTTP '' @ itoa (int status)\<rparr>"

definition auditMiddleware :: "'w api_env \<Rightarrow> api_handler \<Rightarrow> api_handler" where
  "auditMiddleware env next ctx r w s =
     (if sv_audit s = None then next ctx r w s
      else case next ctx r w s of
        None \<Rightarrow> None
      | Some (w, s) \<Rightarrow>
          (case sv_audit s of
             None \<Rightarrow> Some (w, s)
           | Some a \<Rightarrow>
               map_option (\<lambda>a. (w, s\<lparr>sv_audit := Some a\<rparr>))
                 (record_event (en_audit_time env, audit_entry ctx r (sent_status w)) a)))"

text \<open>What the middleware lets through.\<close>

definition bearer :: "'w api_env \<Rightarrow> http_request \<Rightarrow> api \<Rightarrow> string + claims" where
  "bearer env r s =
     (let header = header_get (rq_headers r) ''Authorization''; token = trim_prefix header ''Bearer ''
      in if header = [] then Inl ''missing authorization header''
         else if token = header then Inl ''invalid authorization format''
         else case authenticate env token s of Inl err \<Rightarrow> Inl (''invalid token: '' @ err) | Inr c \<Rightarrow> Inr c)"

lemma authMiddleware_bearer:
  "authMiddleware env next ctx r w s =
     (case bearer env r s of Inl msg \<Rightarrow> Some (writeError 401 msg w, s) | Inr c \<Rightarrow> next (Some c) r w s)"
  by (simp add: authMiddleware_def bearer_def Let_def split: sum.split)

text \<open>An origin is only ever allowed when the configuration lists it; a star allows none.\<close>

lemma allowed_origin_listed:
  "allowed_origin cfg x \<noteq> [] \<longleftrightarrow> x \<noteq> [] \<and> x \<noteq> ''*'' \<and> x \<in> set (ap_allowed_origins (cf_api cfg))"
  "allowed_origin cfg x \<noteq> [] \<Longrightarrow> allowed_origin cfg x = x"
  by (auto simp: allowed_origin_def find_None_iff find_Some_iff split: option.splits)

end
