(* ===== verification/ApiConfig.thy ===== *)
theory ApiConfig
  imports Api
begin

text \<open>
  \<^verbatim>\<open>internal/api/handlers_config.go\<close>: the status, the redacted configuration and its update.
  The configuration has no JSON tags, so the nested structs keep their Go field names, while
  the update is merged under the snake-case names of the YAML tags.
\<close>

section \<open>Reading\<close>

definition plugins_count :: "'w api_env \<Rightarrow> dyn" where
  "plugins_count env = DInt (int (length (registry_list (en_registry env))))"

definition megabytes :: "int \<Rightarrow> float64" where
  "megabytes n = fdiv (fdiv (float_of_int n) 1024) 1024"

definition handleStatus :: "'w api_env \<Rightarrow> api_handler" where
  "handleStatus env ctx r w s =
     (let cfg = sv_cfg s; mem = en_runtime env in
      Some (writeJSON 200 (DMap
        [(''build_time'', DStr (fst (snd (en_version env)))),
         (''config'', DMap
           [(''appsec_enabled'', DBool (as_enabled (cf_appsec cfg))), (''engine'', DStr (as_engine (cf_appsec cfg))),
            (''name'', DStr (cf_name cfg)), (''plugins_count'', plugins_count env)]),
         (''git_commit'', DStr (snd (snd (en_version env)))), (''go_version'', DStr (rt_go_version mem)),
         (''goroutines'', DInt (rt_goroutines mem)),
         (''memory'', DMap
           [(''alloc_mb'', DNum (megabytes (rt_alloc mem))), (''total_alloc_mb'', DNum (megabytes (rt_total_alloc mem)))]),
         (''version'', DStr (fst (en_version env)))]) w, s))"

definition handleMetrics :: "'w api_env \<Rightarrow> api_handler" where
  "handleMetrics env ctx r w s =
     (let cfg = sv_cfg s; mem = en_runtime env in
      Some (writeJSON 200 (DMap
        [(''engine'', DMap
           [(''appsec_enabled'', DBool (as_enabled (cf_appsec cfg))), (''engine'', DStr (as_engine (cf_appsec cfg))),
            (''plugins_count'', plugins_count env)]),
         (''go'', DMap
           [(''gc_pause_ns'', DInt (rt_pause_ns mem ! nat ((rt_num_gc mem + 255) mod 256))),
            (''goroutines'', DInt (rt_goroutines mem)), (''heap_alloc'', DInt (rt_heap_alloc mem)),
            (''heap_inuse'', DInt (rt_heap_inuse mem)), (''num_gc'', DInt (rt_num_gc mem)),
            (''stack_inuse'', DInt (rt_stack_inuse mem))])]) w, s))"

definition logging_json :: "LoggingConfig \<Rightarrow> dyn" where
  "logging_json c = DMap [(''Level'', DStr (lg_level c)), (''Format'', DStr (lg_format c)), (''Output'', DStr (lg_output c))]"

definition sidecar_json :: "SidecarConfig \<Rightarrow> dyn" where
  "sidecar_json c =
     DMap [(''SocketPath'', DStr (sc_socket_path c)), (''FailOpen'', DBool (sc_fail_open c)),
           (''TimeoutMs'', DInt (sc_timeout_ms c)), (''EventAPIURL'', DStr (sc_event_api_url c)),
           (''EventAuthToken'', DStr (sc_event_auth_token c)), (''EventTimeoutMs'', DInt (sc_event_timeout_ms c))]"

definition nginx_json :: "NginxConfig \<Rightarrow> dyn" where
  "nginx_json c =
     DMap [(''BinaryPath'', DStr (nx_binary_path c)), (''ConfigPath'', DStr (nx_config_path c)),
           (''WorkerProcesses'', DInt (nx_worker_processes c)), (''WorkerConnections'', DInt (nx_worker_connections c)),
           (''EnableHTTP2'', DBool (nx_enable_http2 c)), (''EnableHTTP3'', DBool (nx_enable_http3 c))]"

definition gateway_json :: "GatewayConfig \<Rightarrow> dyn" where
  "gateway_json c =
     DMap [(''MaxConnections'', DInt (gw_max_connections c)), (''ReadTimeout'', DInt (gw_read_timeout c)),
           (''WriteTimeout'', DInt (gw_write_timeout c)), (''IdleTimeout'', DInt (gw_idle_timeout c)),
           (''EnableRateLimiting'', DBool (gw_enable_rate_limiting c))]"

definition tls_json :: "TLSConfig option \<Rightarrow> dyn" where
  "tls_json t =
     (case t of None \<Rightarrow> DNull | Some c \<Rightarrow> DMap [(''CertFile'', DStr (tl_cert_file c)), (''KeyFile'', DStr (tl_key_file c))])"

definition route_json :: "RouteConfig \<Rightarrow> dyn" where
  "route_json c =
     DMap [(''Name'', DStr (rt_name c)), (''Host'', DStr (rt_host c)), (''Path'', DStr (rt_path c)),
           (''Methods'', json_array DStr (rt_methods c)), (''Upstream'', DStr (rt_upstream c)),
           (''TLS'', tls_json (rt_tls c)), (''Plugins'', json_array DStr (rt_plugins c)),
           (''Headers'', if rt_headers c = [] then DNull
              else DMap (sort_key fst (AList.clearjunk (map (\<lambda>(k, v). (k, DStr v)) (rt_headers c)))))]"

definition plugin_json :: "PluginConfig \<Rightarrow> dyn" where
  "plugin_json c =
     DMap [(''Name'', DStr (pc_name c)), (''Enabled'', DBool (pc_enabled c)),
           (''Config'', if pc_config c = [] then DNull else DMap (sort_key fst (AList.clearjunk (pc_config c))))]"

definition redacted_config :: "Config \<Rightarrow> dyn" where
  "redacted_config cfg =
     DMap
       [(''api'', DMap
          [(''auth'', DMap [(''jwt_secret'', DStr ''***''), (''token_ttl'', DInt (au_token_ttl (ap_auth (cf_api cfg))))]),
           (''enabled'', DBool (ap_enabled (cf_api cfg))), (''listen'', DStr (ap_listen (cf_api cfg)))]),
        (''appsec'', DMap
          [(''enabled'', DBool (as_enabled (cf_appsec cfg))), (''engine'', DStr (as_engine (cf_appsec cfg))),
           (''learning_mode'', DBool (as_learning_mode (cf_appsec cfg))),
           (''ml_model_path'', DStr (as_ml_model_path (cf_appsec cfg))),
           (''rules_path'', DStr (as_rules_path (cf_appsec cfg))), (''timeout_ms'', DInt (as_timeout_ms (cf_appsec cfg)))]),
        (''gateway'', gateway_json (cf_gateway cfg)), (''listen'', DStr (cf_listen cfg)),
        (''logging'', logging_json (cf_logging cfg)), (''name'', DStr (cf_name cfg)),
        (''nginx'', nginx_json (cf_nginx cfg)), (''plugins'', json_array plugin_json (cf_plugins cfg)),
        (''routes'', json_array route_json (cf_routes cfg)), (''sidecar'', sidecar_json (cf_sidecar cfg)),
        (''version'', DStr (cf_version cfg))]"

definition handleGetConfig :: api_handler where
  "handleGetConfig ctx r w s = Some (writeJSON 200 (redacted_config (sv_cfg s)) w, s)"

section \<open>Merging\<close>

definition toSnakeCase :: "(nat \<Rightarrow> bool) \<Rightarrow> (nat \<Rightarrow> nat) \<Rightarrow> string \<Rightarrow> string" where
  "toSnakeCase is_upper lower s =
     concat (map (\<lambda>(i, r). (if 0 < i \<and> is_upper r then ''_'' else []) @ encode_rune (lower r))
       (enumerate 0 (runes s)))"

fun normalizeKeys :: "(string \<Rightarrow> string) \<Rightarrow> (string \<times> dyn) list \<Rightarrow> (string \<times> dyn) list \<Rightarrow> (string \<times> dyn) list"
  and normalize_value :: "(string \<Rightarrow> string) \<Rightarrow> dyn \<Rightarrow> dyn" where
  "normalizeKeys snake [] out = out"
| "normalizeKeys snake ((k, v) # m) out = normalizeKeys snake m (dyn_set (snake k) (normalize_value snake v) out)"
| "normalize_value snake (DMap m) = DMap (normalizeKeys snake m [])"
| "normalize_value snake v = v"

fun deepMerge :: "(string \<times> dyn) list \<Rightarrow> (string \<times> dyn) list \<Rightarrow> (string \<times> dyn) list"
  and merge_value :: "dyn \<Rightarrow> dyn \<Rightarrow> dyn" where
  "deepMerge target [] = target"
| "deepMerge target ((key, srcVal) # source) =
     deepMerge (dyn_set key (merge_value (dyn_get target key) srcVal) target) source"
| "merge_value (DMap target) (DMap source) = DMap (deepMerge target source)"
| "merge_value _ srcVal = srcVal"

section \<open>Updating\<close>

definition parse_error_text :: "parse_error \<Rightarrow> string" where
  "parse_error_text e =
     (case e of
        ReadingFile m \<Rightarrow> ''reading config file: '' @ m
      | ParsingFile m \<Rightarrow> ''parsing config file: '' @ m
      | ValidatingConfig ListenRequired \<Rightarrow> ''validating config: listen address is required''
      | ValidatingConfig (UnsupportedBackend b) \<Rightarrow> ''validating config: firewall backend must be 'ufw' or 'nftables', got: '' @ b)"

text \<open>Taking a configuration into use: the managers of both kinds of tokens are rebuilt.\<close>

definition use_config :: "'w api_env \<Rightarrow> Config \<Rightarrow> api \<Rightarrow> api" where
  "use_config env cfg s =
     s\<lparr>sv_cfg := cfg,
       sv_auth := Auth.NewManager (au_jwt_secret (ap_auth (cf_api cfg))) (au_token_ttl (ap_auth (cf_api cfg))),
       sv_oidc := (if au_oidc (ap_auth (cf_api cfg)) \<noteq> []
                   then Configure (en_oidc env) (au_oidc (ap_auth (cf_api cfg))) NewOIDCManager else NewOIDCManager)\<rparr>"

definition merge_config :: "'w api_env \<Rightarrow> (string \<times> dyn) list \<Rightarrow> Config \<Rightarrow> nat \<times> string + string" where
  "merge_config env updates cfg =
     (case en_yaml_config env cfg of
        Inl e \<Rightarrow> Inl (500, ''failed to marshal current config'')
      | Inr yamlBytes \<Rightarrow>
         (case en_yaml_to_map env yamlBytes of
            Inl e \<Rightarrow> Inl (500, ''failed to unmarshal current config'')
          | Inr current \<Rightarrow>
             (case en_yaml_map env
                (deepMerge current (normalizeKeys (toSnakeCase (en_is_upper env) (en_lower env)) updates [])) of
                Inl e \<Rightarrow> Inl (500, ''failed to marshal merged config'')
              | Inr merged \<Rightarrow> Inr merged)))"

definition handleUpdateConfig :: "'w api_env \<Rightarrow> api_handler" where
  "handleUpdateConfig env ctx r w s =
     (case decode_first (\<lambda>v. conv_map v []) (rq_body r) of
        None \<Rightarrow> Some (writeError 400 ''invalid request body'' w, s)
      | Some updates \<Rightarrow>
          if updates = [] then Some (writeError 400 ''empty update body'' w, s)
          else case merge_config env updates (sv_cfg s) of
            Inl (code, msg) \<Rightarrow> Some (writeError code msg w, s)
          | Inr merged \<Rightarrow>
             (case Parse (en_yaml env) merged of
                Inl err \<Rightarrow> Some (writeError 400 (''invalid config: '' @ parse_error_text err) w, s)
              | Inr newCfg \<Rightarrow>
                 (case en_write_file env (sv_config_path s) merged of
                    Some err \<Rightarrow> Some (writeError 500 (''failed to write config file: '' @ err) w, s)
                  | None \<Rightarrow>
                      Some (writeJSON 200 (DMap [(''status'', DStr ''config updated'')]) w,
                        (use_config env newCfg s)\<lparr>sv_files := sv_files s @ [(sv_config_path s, merged)]\<rparr>))))"

text \<open>The hang-up signal: the file is read again; a file that does not parse changes nothing.\<close>

definition reload :: "'w api_env \<Rightarrow> (string \<Rightarrow> string + string) \<Rightarrow> api \<Rightarrow> api" where
  "reload env read_file s =
     (case Load read_file (en_yaml env) (sv_config_path s) of
        Inl err \<Rightarrow> s
      | Inr newCfg \<Rightarrow> use_config env newCfg s)"

section \<open>What a merge does\<close>

text \<open>
  Every key of the update replaces the key of the target, maps being merged key by key; every
  other key keeps its value.
\<close>

lemma map_of_deepMerge:
  "distinct (map fst source) \<Longrightarrow>
   map_of (deepMerge target source) k =
     (case map_of source k of None \<Rightarrow> map_of target k | Some v \<Rightarrow> Some (merge_value (dyn_get target k) v))"
proof (induction source arbitrary: target)
  case (Cons x source)
  obtain key v where x: "x = (key, v)" by (cases x)
  have "key \<notin> fst ` set source" using Cons.prems x by simp
  then have "map_of source key = None" by (simp add: map_of_eq_None_iff)
  with Cons show ?case by (auto simp: x dyn_get_def split: option.split)
qed simp

text \<open>The value at a path of keys.\<close>

fun dyn_path :: "string list \<Rightarrow> dyn \<Rightarrow> dyn option" where
  "dyn_path [] v = Some v"
| "dyn_path (k # ks) (DMap m) = Option.bind (map_of m k) (dyn_path ks)"
| "dyn_path (k # ks) _ = None"

fun uniq_keys :: "dyn \<Rightarrow> bool" where
  "uniq_keys (DMap m) = (distinct (map fst m) \<and> list_all (\<lambda>(k, v). uniq_keys v) m)"
| "uniq_keys _ = True"

text \<open>A path names a leaf when no map is there.\<close>

definition leaf :: "dyn \<Rightarrow> bool" where
  "leaf v = (as_map v = None)"

lemma merge_leaf: "leaf v \<Longrightarrow> merge_value t v = v"
  by (cases v) (auto simp: leaf_def)

lemma merge_value_path:
  assumes "uniq_keys v" "dyn_path ks v = Some x" "leaf x"
  shows "dyn_path ks (merge_value t v) = Some x"
  using assms
proof (induction ks v arbitrary: t rule: dyn_path.induct)
  case (1 v)
  then show ?case by (simp add: merge_leaf)
next
  case (2 k ks m)
  obtain y where y: "map_of m k = Some y" "dyn_path ks y = Some x" using 2(3) by (auto split: bind_splits)
  then have "uniq_keys y" using 2(2) map_of_SomeD[OF y(1)] by (auto simp: list_all_iff)
  then have ih: "dyn_path ks (merge_value t' y) = Some x" for t' using 2(1) y 2(4) by simp
  have n: "merge_value DNull (DMap m) = DMap m" by simp
  show ?case
  proof (cases "as_map t")
    case None
    then have "merge_value t (DMap m) = DMap m" by (cases t) auto
    then show ?thesis using y by simp
  next
    case (Some tm)
    then have "t = DMap tm" by (cases t) auto
    then show ?thesis using y 2(2) ih by (simp add: map_of_deepMerge)
  qed
qed simp_all

text \<open>A path at which the update leaves the target alone: it parts from every path of the update.\<close>

fun untouched :: "string list \<Rightarrow> dyn \<Rightarrow> bool" where
  "untouched [] v = False"
| "untouched (k # ks) (DMap m) = (case map_of m k of None \<Rightarrow> True | Some v \<Rightarrow> untouched ks v)"
| "untouched (k # ks) _ = False"

lemma merge_value_untouched:
  assumes "uniq_keys v" "untouched ks v" "dyn_path ks t = Some x"
  shows "dyn_path ks (merge_value t v) = Some x"
  using assms
proof (induction ks v arbitrary: t rule: untouched.induct)
  case (2 k ks m)
  obtain tm where t: "t = DMap tm" using 2(4) by (cases t) auto
  then obtain u where u: "map_of tm k = Some u" "dyn_path ks u = Some x" using 2(4) by (auto split: bind_splits)
  show ?case
  proof (cases "map_of m k")
    case None
    then show ?thesis using 2(2) u t by (simp add: map_of_deepMerge)
  next
    case (Some y)
    then have "uniq_keys y" using 2(2) map_of_SomeD[OF Some] by (auto simp: list_all_iff)
    then have "dyn_path ks (merge_value u y) = Some x" using 2(1)[OF Some] 2(3) Some u by simp
    then show ?thesis using 2(2) Some u t by (simp add: map_of_deepMerge dyn_get_def)
  qed
qed simp_all

text \<open>Merging twice is merging once.\<close>

lemma dyn_set_same:
  assumes "distinct (map fst m)" "map_of m k = Some v"
  shows "dyn_set k v m = m"
proof -
  have "(case p of (k', v') \<Rightarrow> if k' = k then (k, v) else (k', v')) = p" if "p \<in> set m" for p
  proof -
    obtain a b where p: "p = (a, b)" by (cases p)
    have "map_of m a = Some b" using that assms(1) by (simp add: p)
    then show ?thesis using assms(2) by (auto simp: p)
  qed
  then show ?thesis using assms(2) by (simp add: dyn_set_def map_idI)
qed

lemma keys_dyn_set: "distinct (map fst m) \<Longrightarrow> distinct (map fst (dyn_set k v m))"
proof -
  have "map fst (map (\<lambda>(k', v'). if k' = k then (k, v) else (k', v')) m) = map fst m"
    by (induction m) auto
  then show "distinct (map fst m) \<Longrightarrow> distinct (map fst (dyn_set k v m))"
    by (simp add: dyn_set_def map_of_eq_None_iff del: map_map)
qed

lemma keys_deepMerge: "distinct (map fst t) \<Longrightarrow> distinct (map fst (deepMerge t src))"
  by (induction src arbitrary: t) (auto simp: keys_dyn_set)

lemma deepMerge_absorb:
  assumes "distinct (map fst t)" "list_all (\<lambda>(k, v). \<exists>u. map_of t k = Some u \<and> merge_value u v = u) src"
  shows "deepMerge t src = t"
  using assms by (induction src) (auto simp: dyn_get_def dyn_set_same)

lemma merge_value_twice:
  assumes "uniq_keys t" "uniq_keys v"
  shows "merge_value (merge_value t v) v = merge_value t v"
  using assms
proof (induction v arbitrary: t)
  case (DMap m)
  have md: "distinct (map fst m)" using DMap.prems(2) by simp
  have sub: "merge_value (merge_value u v) v = merge_value u v" if "(k, v) \<in> set m" "uniq_keys u" for k u v
    using DMap.IH[of "(k, v)" v u] DMap.prems(2) that by (auto simp: list_all_iff)
  have absorb: "deepMerge (deepMerge tm m) m = deepMerge tm m" if u: "uniq_keys (DMap tm)" for tm
  proof (rule deepMerge_absorb)
    show "distinct (map fst (deepMerge tm m))" using u by (simp add: keys_deepMerge)
    have "\<exists>u. map_of (deepMerge tm m) k = Some u \<and> merge_value u v = u" if kv: "(k, v) \<in> set m" for k v
    proof -
      have "uniq_keys (dyn_get tm k)"
        using u map_of_SomeD by (fastforce simp: dyn_get_def list_all_iff split: option.split)
      then show ?thesis using sub[OF kv] map_of_is_SomeI[OF md kv] by (simp add: map_of_deepMerge[OF md])
    qed
    then show "list_all (\<lambda>(k, v). \<exists>u. map_of (deepMerge tm m) k = Some u \<and> merge_value u v = u) m"
      by (auto simp: list_all_iff)
  qed
  have self: "deepMerge m m = m"
  proof (rule deepMerge_absorb[OF md])
    have "merge_value v v = v" if kv: "(k, v) \<in> set m" for k v
    proof (cases v)
      case (DMap x)
      have "merge_value DNull v = v" by (cases v) auto
      then show ?thesis using sub[OF kv, of DNull] by simp
    qed auto
    then show "list_all (\<lambda>(k, v). \<exists>u. map_of m k = Some u \<and> merge_value u v = u) m"
      using map_of_is_SomeI[OF md] by (auto simp: list_all_iff)
  qed
  show ?case using absorb DMap.prems(1) self by (cases t) auto
qed auto

text \<open>
  C17: merging an update into the configuration: every setting the update gives has its value
  afterwards, every setting it does not reach keeps its own, whatever the nesting, and sending
  the same update twice changes nothing more.
\<close>

lemma config_merge:
  assumes "uniq_keys (DMap target)" "uniq_keys (DMap source)"
  shows "(\<forall>ks x. dyn_path ks (DMap source) = Some x \<and> leaf x \<longrightarrow> dyn_path ks (DMap (deepMerge target source)) = Some x) \<and>
     (\<forall>ks x. untouched ks (DMap source) \<and> dyn_path ks (DMap target) = Some x \<longrightarrow>
        dyn_path ks (DMap (deepMerge target source)) = Some x) \<and>
     deepMerge (deepMerge target source) source = deepMerge target source"
  using merge_value_path[OF assms(2), of _ _ "DMap target"] merge_value_untouched[OF assms(2), of _ "DMap target"]
    merge_value_twice[OF assms] by simp

text \<open>The redacted secret of the configuration page, sent back with a change, becomes the secret.\<close>

lemma config_merge_witness:
  "dyn_path [''api'', ''auth'', ''jwt_secret'']
     (DMap (deepMerge
       [(''api'', DMap [(''auth'', DMap [(''jwt_secret'', DStr ''0123456789abcdef0123456789abcdef''), (''token_ttl'', DInt 60)])])]
       [(''api'', DMap [(''auth'', DMap [(''jwt_secret'', DStr ''***'')])])])) = Some (DStr ''***'')"
proof -
  let ?t = "[(''api'', DMap [(''auth'', DMap
    [(''jwt_secret'', DStr ''0123456789abcdef0123456789abcdef''), (''token_ttl'', DInt 60)])])]"
  let ?s = "[(''api'', DMap [(''auth'', DMap [(''jwt_secret'', DStr ''***'')])])]"
  have "uniq_keys (DMap ?t)" "uniq_keys (DMap ?s)" by simp_all
  from config_merge[OF this] have "dyn_path ks (DMap ?s) = Some x \<and> leaf x \<longrightarrow>
      dyn_path ks (DMap (deepMerge ?t ?s)) = Some x" for ks x by blast
  from this[of "[''api'', ''auth'', ''jwt_secret'']" "DStr ''***''"] show ?thesis by (simp add: leaf_def del: deepMerge.simps)
qed

end
