(* ===== verification/ApiHandlers.thy ===== *)
theory ApiHandlers
  imports ApiConfig
begin

text \<open>
  The other handlers of \<^verbatim>\<open>internal/api\<close>: login, plugins, audit, events, marketplace and
  the firewall.
\<close>

section \<open>Login\<close>

definition handleHealth :: api_handler where
  "handleHealth ctx r w s = Some (writeJSON 200 (DMap [(''status'', DStr ''ok'')]) w, s)"

fun decode_login :: "dyn \<Rightarrow> (string \<times> string) option" where
  "decode_login (DMap ps) =
     (let (u, g1) = field conv_string ''username'' [] ps; (p, g2) = field conv_string ''password'' [] ps
      in if g1 \<and> g2 then Some (u, p) else None)"
| "decode_login DNull = Some ([], [])"
| "decode_login _ = None"

definition login_scopes :: "string list" where "login_scopes = [''read'', ''write'']"

definition handleLogin :: "'w api_env \<Rightarrow> api_handler" where
  "handleLogin env ctx r w s =
     (case decode_first decode_login (rq_body r) of
        None \<Rightarrow> Some (writeError 400 ''invalid request body'' w, s)
      | Some (username, password) \<Rightarrow>
          if username = [] \<or> password = [] then Some (writeError 400 ''username and password required'' w, s)
          else if au_users (ap_auth (cf_api (sv_cfg s))) = [] then Some (writeError 501 ''no users configured'' w, s)
          else case find (\<lambda>u. us_username u = username) (au_users (ap_auth (cf_api (sv_cfg s)))) of
            None \<Rightarrow> Some (writeError 401 ''invalid credentials'' w, s)
          | Some u \<Rightarrow>
             (case en_bcrypt env (us_password_hash u) password of
                Some err \<Rightarrow> Some (writeError 401 ''invalid credentials'' w, s)
              | None \<Rightarrow>
                 (case GenerateToken (en_jwt env) (en_uuid env) (en_now env) username ''admin'' login_scopes (sv_auth s) of
                    Inl err \<Rightarrow> Some (writeError 500 ''token generation failed'' w, s)
                  | Inr token \<Rightarrow> Some (writeJSON 200 (DMap [(''token'', DStr token)]) w, s))))"

section \<open>Plugins\<close>

fun phase_string :: "plugin_phase \<Rightarrow> string" where
  "phase_string PhasePreRequest = ''pre_request''"
| "phase_string PhasePostRequest = ''post_request''"
| "phase_string PhasePreResponse = ''pre_response''"
| "phase_string PhasePostResponse = ''post_response''"
| "phase_string PhaseLog = ''log''"
| "phase_string (PhaseCustom s) = s"

definition metadata_json :: "metadata \<Rightarrow> dyn" where
  "metadata_json m =
     DMap ([(''name'', DStr (md_name m)), (''version'', DStr (md_version m)), (''description'', DStr (md_description m)),
            (''author'', DStr (md_author m)), (''license'', DStr (md_license m)), (''phase'', DStr (phase_string (md_phase m))),
            (''priority'', DInt (md_priority m))] @ omit_strings ''tags'' (md_tags m) @ omit_string ''homepage'' (md_homepage m))"

definition handleListPlugins :: "'w api_env \<Rightarrow> api_handler" where
  "handleListPlugins env ctx r w s =
     Some (writeJSON 200 (DList (map metadata_json (registry_list (en_registry env)))) w, s)"

definition handleGetPlugin :: "'w api_env \<Rightarrow> string \<Rightarrow> api_handler" where
  "handleGetPlugin env name ctx r w s =
     (case registry_get (en_registry env) name of
        Inl err \<Rightarrow> Some (writeError 404 (''plugin not found: '' @ name) w, s)
      | Inr m \<Rightarrow> Some (writeJSON 200 (metadata_json m) w, s))"

section \<open>Audit and events\<close>

definition audit_json :: "(int \<Rightarrow> string) \<Rightarrow> audit_event \<Rightarrow> dyn" where
  "audit_json ft e =
     DMap ([(''timestamp'', DStr (ft (ae_timestamp e))), (''actor'', DStr (ae_actor e)), (''actor_ip'', DStr (ae_actor_ip e)),
            (''action'', DStr (ae_action e)), (''resource'', DStr (ae_resource e)), (''result'', DStr (ae_result e))] @
           omit_string ''details'' (ae_details e) @ omit_string ''request_id'' (ae_request_id e))"

definition audit_filter :: "http_request \<Rightarrow> query_filter" where
  "audit_filter r =
     \<lparr>qf_limit = 100, qf_actor = query_get r ''actor'', qf_action = query_get r ''action'', qf_result = query_get r ''result''\<rparr>"

definition handleAuditQuery :: "'w api_env \<Rightarrow> api_handler" where
  "handleAuditQuery env ctx r w s =
     (case sv_audit s of
        None \<Rightarrow> Some (writeJSON 200 (DList []) w, s)
      | Some a \<Rightarrow> Some (writeJSON 200 (json_array (audit_json (en_rfc3339 env)) (query a (audit_filter r))) w, s))"

definition event_error_text :: "event_error \<Rightarrow> string" where
  "event_error_text e =
     (case e of
        UnsupportedType t \<Rightarrow> ''unsupported event type '' @ [CHR 0x22] @ event_type_string t @ [CHR 0x22]
      | FieldTooLong \<Rightarrow> ''event field exceeds maximum length''
      | MissingPathOrRule \<Rightarrow> ''blocked event requires path and rule_id'')"

text \<open>
  The body is cut off at the limit, and reading on from there is an error: an event is taken
  only from a body within the limit that holds one JSON value and nothing else.
\<close>

definition ingest_event :: "(string \<Rightarrow> int option) \<Rightarrow> string \<Rightarrow> string + waf_event" where
  "ingest_event pt body =
     (let over = MaxEventBodyBytes < length body
      in case decode_value (json_tokens (take MaxEventBodyBytes body)) of
           EOF \<Rightarrow> Inl (if over then ''invalid event body'' else ''empty event body'')
         | DecodeError \<Rightarrow> Inl ''invalid event body''
         | Decoded v rest \<Rightarrow>
            (case decode_event pt v of
               None \<Rightarrow> Inl ''invalid event body''
             | Some evt \<Rightarrow>
                 if over \<or> rest \<noteq> [] then Inl ''event body must contain one JSON object''
                 else case Validate evt of Inl err \<Rightarrow> Inl (event_error_text err) | Inr _ \<Rightarrow> Inr evt))"

definition publish_to :: "int \<Rightarrow> waf_event \<Rightarrow> api \<Rightarrow> api option" where
  "publish_to now e s =
     (case sv_broker s of
        None \<Rightarrow> Some s
      | Some b \<Rightarrow> map_option (\<lambda>b. s\<lparr>sv_broker := Some b\<rparr>) (Publish now e b))"

definition handleIngestEvent :: "'w api_env \<Rightarrow> api_handler" where
  "handleIngestEvent env ctx r w s =
     (if sv_broker s = None then Some (writeError 503 ''event broker not available'' w, s)
      else case ingest_event (en_parse_time env) (rq_body r) of
        Inl msg \<Rightarrow> Some (writeError 400 msg w, s)
      | Inr evt \<Rightarrow>
          map_option (\<lambda>s. (writeJSON 202 (DMap [(''status'', DStr ''ingested'')]) w, s))
            (publish_to (en_publish_time env) evt s))"

section \<open>Marketplace\<close>

definition sample_of :: "int \<Rightarrow> string \<Rightarrow> string \<Rightarrow> string \<Rightarrow> string \<Rightarrow> string list \<Rightarrow> package" where
  "sample_of now i name descr category tags =
     \<lparr>pk_id = i, pk_name = name, pk_version = ''1.0.0'', pk_description = descr, pk_author = ''Waffynx Team'',
      pk_license = ''MIT'', pk_category = category, pk_tags = tags, pk_downloads = 0, pk_rating = 0,
      pk_status = StatusPublished, pk_published_at = now, pk_updated_at = now, pk_checksum = [], pk_plugin = None\<rparr>"

definition seedMarketplace :: "int \<Rightarrow> package_store \<Rightarrow> package_store" where
  "seedMarketplace now st =
     fold add_package
       [sample_of now ''1'' ''rate-limit'' ''Token bucket rate limiting per IP or session with optional Redis backend''
          ''security'' [''rate-limit'', ''ddos'', ''redis''],
        sample_of now ''2'' ''geo-block'' ''Block or allow requests based on geographic location using MaxMind GeoLite2''
          ''security'' [''geo-block'', ''geolocation'', ''maxmind''],
        sample_of now ''3'' ''request-validation'' ''Validate request headers, query parameters, and JSON body schemas''
          ''validation'' [''validation'', ''schema'', ''headers'']] st"

fun status_string :: "package_status \<Rightarrow> string" where
  "status_string StatusPublished = ''published''"
| "status_string StatusInstalled = ''installed''"
| "status_string StatusPending = ''pending''"
| "status_string StatusDeprecated = ''deprecated''"
| "status_string (StatusOther s) = s"

definition package_json :: "(int \<Rightarrow> string) \<Rightarrow> package \<Rightarrow> dyn" where
  "package_json ft p =
     DMap ([(''id'', DStr (pk_id p)), (''name'', DStr (pk_name p)), (''version'', DStr (pk_version p)),
            (''description'', DStr (pk_description p)), (''author'', DStr (pk_author p)), (''license'', DStr (pk_license p)),
            (''category'', DStr (pk_category p)), (''tags'', json_array DStr (pk_tags p)),
            (''downloads'', DInt (pk_downloads p)), (''rating'', DNum (pk_rating p)),
            (''status'', DStr (status_string (pk_status p))), (''published_at'', DStr (ft (pk_published_at p))),
            (''updated_at'', DStr (ft (pk_updated_at p))), (''checksum'', DStr (pk_checksum p))] @
           (case pk_plugin p of None \<Rightarrow> [] | Some m \<Rightarrow> [(''plugin'', metadata_json m)]))"

definition list_filter :: "http_request \<Rightarrow> package_filter" where
  "list_filter r =
     \<lparr>pf_category = query_get r ''category'', pf_tag = [], pf_query = query_get r ''q'',
      pf_status = package_status_of (query_get r ''status''), pf_limit = 0, pf_offset = 0\<rparr>"

definition handleMarketplaceList :: "'w api_env \<Rightarrow> api_handler" where
  "handleMarketplaceList env ctx r w s =
     Some (writeJSON 200 (DList (map (package_json (en_rfc3339 env)) (list_packages (list_filter r) (sv_store s)))) w, s)"

definition query_version :: "http_request \<Rightarrow> string" where
  "query_version r = (let version = query_get r ''version'' in if version = [] then ''1.0.0'' else version)"

definition handleMarketplaceGet :: "'w api_env \<Rightarrow> string \<Rightarrow> api_handler" where
  "handleMarketplaceGet env name ctx r w s =
     (case get_package name (query_version r) (sv_store s) of
        Inl err \<Rightarrow> Some (writeError 404 err w, s)
      | Inr p \<Rightarrow> Some (writeJSON 200 (package_json (en_rfc3339 env) p) w, s))"

definition handleMarketplaceInstall :: "string \<Rightarrow> api_handler" where
  "handleMarketplaceInstall name ctx r w s =
     (case install_package name (query_version r) (sv_store s) of
        Inl err \<Rightarrow> Some (writeError 404 err w, s)
      | Inr st \<Rightarrow>
          Some (writeJSON 200 (DMap [(''name'', DStr name), (''status'', DStr ''installed''),
            (''version'', DStr (query_version r))]) w, s\<lparr>sv_store := st\<rparr>))"

definition handleMarketplaceUninstall :: "string \<Rightarrow> api_handler" where
  "handleMarketplaceUninstall name ctx r w s =
     (case uninstall_package name (sv_store s) of
        Inl err \<Rightarrow> Some (writeError 404 err w, s)
      | Inr st \<Rightarrow>
          Some (writeJSON 200 (DMap [(''name'', DStr name), (''status'', DStr ''uninstalled'')]) w, s\<lparr>sv_store := st\<rparr>))"

definition handleMarketplaceCategories :: api_handler where
  "handleMarketplaceCategories ctx r w s =
     Some (writeJSON 200 (DMap [(''categories'', DList (map DStr (package_categories (sv_store s))))]) w, s)"

section \<open>Firewall\<close>

definition banned_json :: "(int \<Rightarrow> string) \<Rightarrow> banned_ip \<Rightarrow> dyn" where
  "banned_json ft b =
     DMap [(''ip'', DStr (bi_ip b)), (''reason'', DStr (bi_reason b)), (''created_at'', DStr (ft (bi_created_at b))),
           (''expires_at'', DStr (ft (bi_expires_at b))), (''ttl'', DInt (bi_ttl b))]"

definition active_bans :: "int \<Rightarrow> api \<Rightarrow> banned_ip list" where
  "active_bans now s =
     filter (\<lambda>b. \<not> (0 < bi_ttl b \<and> bi_expires_at b < now)) (map snd (sv_banned s))"

definition handleFirewallRules :: "'w api_env \<Rightarrow> api_handler" where
  "handleFirewallRules env ctx r w s =
     Some (writeJSON 200 (DMap
       [(''backend'', DStr (fw_backend (cf_firewall (sv_cfg s)))), (''enabled'', DBool (fw_enabled (cf_firewall (sv_cfg s)))),
        (''rules'', DList (map (banned_json (en_rfc3339 env)) (active_bans (en_now env) s)))]) w, s)"

fun decode_ban :: "dyn \<Rightarrow> (string \<times> string \<times> int) option" where
  "decode_ban (DMap ps) =
     (let (ip, g1) = field conv_string ''ip'' [] ps; (reason, g2) = field conv_string ''reason'' [] ps;
          (ttl, g3) = field conv_int ''ttl'' 0 ps
      in if g1 \<and> g2 \<and> g3 then Some (ip, reason, ttl) else None)"
| "decode_ban DNull = Some ([], [], 0)"
| "decode_ban _ = None"

text \<open>\<^verbatim>\<open>time.Duration(ttl) * time.Second\<close> wraps around.\<close>

definition ttl_duration :: "int \<Rightarrow> int" where
  "ttl_duration ttl = (ttl * 10 ^ 9 + 2 ^ 63) mod 2 ^ 64 - 2 ^ 63"

definition make_ban :: "int \<Rightarrow> string \<Rightarrow> string \<Rightarrow> int \<Rightarrow> banned_ip" where
  "make_ban now ip reason ttl =
     (let ttl = (if ttl \<le> 0 then 3600 else ttl)
      in \<lparr>bi_ip = ip, bi_reason = (if reason = [] then ''Manual ban from Control Room'' else reason),
          bi_created_at = now, bi_expires_at = now + ttl_duration ttl, bi_ttl = ttl\<rparr>)"

definition run_firewall :: "(manager \<Rightarrow> cmd_log \<Rightarrow> string option \<times> cmd_log) \<Rightarrow> api \<Rightarrow> api" where
  "run_firewall f s =
     (case sv_firewall s of None \<Rightarrow> s | Some m \<Rightarrow> s\<lparr>sv_commands := snd (f m (sv_commands s))\<rparr>)"

definition record_audit :: "int \<Rightarrow> audit_event \<Rightarrow> api \<Rightarrow> api option" where
  "record_audit now e s =
     (case sv_audit s of
        None \<Rightarrow> Some s
      | Some a \<Rightarrow> map_option (\<lambda>a. s\<lparr>sv_audit := Some a\<rparr>) (record_event (now, e) a))"

definition firewall_entry :: "claims option \<Rightarrow> string \<Rightarrow> string \<Rightarrow> string \<Rightarrow> audit_event" where
  "firewall_entry ctx act ip details =
     empty_event\<lparr>ae_actor := UserFromContext ctx, ae_action := act, ae_resource := ip, ae_result := ''success'',
       ae_details := details\<rparr>"

definition ban_event :: "banned_ip \<Rightarrow> waf_event" where
  "ban_event b =
     \<lparr>ev_type = TypeBlocked, ev_timestamp = bi_created_at b, ev_method = [], ev_path = ''/* (L3/L4 Network Ban)'',
      ev_remote_ip = bi_ip b, ev_rule_id = ''kernel-nftables'', ev_reason = bi_reason b, ev_payload = DNull\<rparr>"

definition handleFirewallBlock :: "'w api_env \<Rightarrow> api_handler" where
  "handleFirewallBlock env ctx r w s =
     (case decode_first decode_ban (rq_body r) of
        None \<Rightarrow> Some (writeError 400 ''invalid request body'' w, s)
      | Some (rawIP, reason, ttl) \<Rightarrow>
          let ip = trim_space rawIP in
          if ip = [] then Some (writeError 400 ''ip is required'' w, s)
          else if parse_ip ip = None then Some (writeError 400 ''invalid IP format'' w, s)
          else
            let ban = make_ban (en_now env) ip reason ttl;
                s = s\<lparr>sv_banned := AList.update ip ban (sv_banned s)\<rparr>;
                s = run_firewall (\<lambda>m. BlockIP m ip (en_exec env)) s
            in case record_audit (en_record_time env) (firewall_entry ctx ''firewall_ban'' ip (bi_reason ban)) s of
                 None \<Rightarrow> None
               | Some s \<Rightarrow>
                   map_option (\<lambda>s. (writeJSON 201 (banned_json (en_rfc3339 env) ban) w, s))
                     (publish_to (en_publish_time env) (ban_event ban) s))"

definition handleFirewallUnblock :: "'w api_env \<Rightarrow> string \<Rightarrow> api_handler" where
  "handleFirewallUnblock env ip ctx r w s =
     (if ip = [] \<or> parse_ip ip = None then Some (writeError 400 ''valid ip path parameter required'' w, s)
      else
        let s = s\<lparr>sv_banned := AList.delete ip (sv_banned s)\<rparr>;
            s = run_firewall (\<lambda>m. UnblockIP m ip (en_exec env)) s
        in map_option (\<lambda>s. (writeJSON 200 (DMap [(''ip'', DStr ip), (''success'', DBool True)]) w, s))
             (record_audit (en_record_time env) (firewall_entry ctx ''firewall_unban'' ip ''unbanned via control room'') s))"

end
