(* ===== verification/ApiUi.thy ===== *)
theory ApiUi
  imports Api
begin

text \<open>
  \<^verbatim>\<open>internal/api/handlers_ui.go\<close>: the dashboard files, from a directory or from the embedded
  file system, with Go's lexical \<^verbatim>\<open>path.Clean\<close>. The files themselves are the environment.
\<close>

section \<open>Paths\<close>

fun clean_segments :: "bool \<Rightarrow> string list \<Rightarrow> string list \<Rightarrow> string list" where
  "clean_segments rooted out [] = rev out"
| "clean_segments rooted out (s # ss) =
     (if s = [] \<or> s = ''.'' then clean_segments rooted out ss
      else if s = ''..'' then
        (case out of
           [] \<Rightarrow> clean_segments rooted (if rooted then [] else [s]) ss
         | d # ds \<Rightarrow> clean_segments rooted (if d = ''..'' then s # out else ds) ss)
      else clean_segments rooted (s # out) ss)"

definition rooted :: "string \<Rightarrow> bool" where
  "rooted p = (case p of c # _ \<Rightarrow> c = CHR ''/'' | [] \<Rightarrow> False)"

definition path_text :: "bool \<Rightarrow> string list \<Rightarrow> string" where
  "path_text isroot segs =
     (if isroot then CHR ''/'' # str_join ''/'' segs else if segs = [] then ''.'' else str_join ''/'' segs)"

definition path_segments_of :: "string \<Rightarrow> string list" where
  "path_segments_of p = clean_segments (rooted p) [] (str_split (CHR ''/'') p)"

definition path_clean :: "string \<Rightarrow> string" where
  "path_clean p = (if p = [] then ''.'' else path_text (rooted p) (path_segments_of p))"

definition path_join :: "string \<Rightarrow> string \<Rightarrow> string" where
  "path_join a b =
     (if a = [] \<and> b = [] then [] else if a = [] then path_clean b else if b = [] then path_clean a
      else path_clean (a @ ''/'' @ b))"

fun ext_from :: "string \<Rightarrow> string \<Rightarrow> string" where
  "ext_from [] acc = []"
| "ext_from (c # s) acc =
     (if c = CHR ''/'' then [] else if c = CHR ''.'' then c # acc else ext_from s (c # acc))"

definition path_ext :: "string \<Rightarrow> string" where
  "path_ext p = ext_from (rev p) []"

section \<open>Handlers\<close>

definition index_html :: string where "index_html = ''index.html''"

definition asset_name :: "string \<Rightarrow> string" where
  "asset_name path =
     (let name = trim_prefix path ''/'' in if name = [] \<or> str_contains name ''..'' then index_html else name)"

definition find_asset :: "(string \<Rightarrow> string option) \<Rightarrow> (string \<Rightarrow> string) \<Rightarrow> string \<Rightarrow> (string \<times> string) option" where
  "find_asset read place name =
     (case read (place name) of
        Some data \<Rightarrow> Some (name, data)
      | None \<Rightarrow> map_option (\<lambda>data. (index_html, data)) (read (place index_html)))"

definition handleUIAsset :: "'w api_env \<Rightarrow> api_handler" where
  "handleUIAsset env ctx r w s =
     (case (if sv_ui_dir s \<noteq> [] then find_asset (en_read_file env) (path_join (sv_ui_dir s)) (asset_name (rq_path r))
            else find_asset (en_embedded env) (\<lambda>name. ''dist/'' @ name) (asset_name (rq_path r))) of
        None \<Rightarrow> Some (http_error ''dashboard assets unavailable'' 404 w, s)
      | Some (name, data) \<Rightarrow>
          let w = set_header ''Cache-Control''
                (if name = index_html then ''no-cache, no-store, must-revalidate'' else ''public, max-age=31536000, immutable'') w;
              contentType = en_mime env (path_ext name);
              w = (if contentType \<noteq> [] then set_header ''Content-Type'' contentType w else w)
          in Some (write_piece (Raw data) (write_header 200 w), s))"

definition endpoint_list :: "string list" where
  "endpoint_list =
     [''/health'', ''/metrics'', ''/api/v1/status'', ''/api/v1/config'', ''/api/v1/plugins'', ''/api/v1/audit'',
      ''/api/v1/events'', ''/debug/pprof/'']"

definition handleRoot :: "'w api_env \<Rightarrow> api_handler" where
  "handleRoot env ctx r w s =
     (if str_contains (header_get (rq_headers r) ''Accept'') ''text/html'' then handleUIAsset env ctx r w s
      else Some (writeJSON 200 (DMap
        [(''endpoints'', DList (map DStr endpoint_list)), (''service'', DStr ''waf-api''),
         (''version'', DStr (fst (en_version env)))]) w, s))"

section \<open>No path leaves the directory\<close>

definition plain_segment :: "string \<Rightarrow> bool" where
  "plain_segment s = (s \<noteq> [] \<and> s \<noteq> ''.'' \<and> s \<noteq> ''..'')"

lemma clean_no_dots:
  assumes "''..'' \<notin> set ss"
  shows "clean_segments isroot out ss = rev out @ filter (\<lambda>s. s \<noteq> [] \<and> s \<noteq> ''.'') ss"
  using assms by (induction ss arbitrary: out) auto

text \<open>Cleaning in two steps: the state after the first part goes on with the second.\<close>

lemma clean_append:
  "\<exists>out'. rev out' = clean_segments isroot out xs \<and> clean_segments isroot out (xs @ ys) = clean_segments isroot out' ys"
proof (induction xs arbitrary: out)
  case Nil
  then show ?case by auto
next
  case (Cons x xs)
  then show ?case by (cases out) auto
qed

lemma clean_extend:
  assumes "''..'' \<notin> set ys"
  shows "clean_segments isroot [] (xs @ ys) = clean_segments isroot [] xs @ filter (\<lambda>s. s \<noteq> [] \<and> s \<noteq> ''.'') ys"
proof -
  obtain out' where "rev out' = clean_segments isroot [] xs" "clean_segments isroot [] (xs @ ys) = clean_segments isroot out' ys"
    using clean_append by blast
  then show ?thesis by (simp add: clean_no_dots[OF assms])
qed

text \<open>The paths at or below a directory.\<close>

definition below :: "string \<Rightarrow> string \<Rightarrow> bool" where
  "below dir p = (\<exists>ext. list_all plain_segment ext \<and> p = path_text (rooted dir) (path_segments_of dir @ ext))"

lemma below_pieces: "below dir (path_text (rooted dir) (path_segments_of dir @ filter plain_segment ss))"
proof -
  have "list_all plain_segment (filter plain_segment ss)" by (simp add: list_all_iff)
  then show ?thesis unfolding below_def by blast
qed

lemma split_at: "str_split c (a @ c # s) = str_split c a @ str_split c s"
  by (induction a) (auto split: list.split)

lemma join_mem: "w \<in> set ws \<Longrightarrow> \<exists>a b. str_join sep ws = a @ w @ b"
proof (induction sep ws rule: str_join.induct)
  case (3 sep v u ws)
  show ?case
  proof (cases "w = v")
    case True
    then show ?thesis by (metis append_Nil str_join.simps(3))
  next
    case False
    then obtain a b where "str_join sep (u # ws) = a @ w @ b" using 3 by auto
    then have "str_join sep (v # u # ws) = (v @ sep @ a) @ w @ b" by simp
    then show ?thesis by blast
  qed
qed (simp, metis append_Nil append_Nil2 empty_iff insert_iff list.set(1) list.simps(15) str_join.simps(2))

lemma split_contains: "w \<in> set (str_split c p) \<Longrightarrow> str_contains p w"
  using join_mem[of w "str_split c p" "[c]"] by (simp add: str_split_join str_contains_iff)

lemma join_below:
  assumes "dir \<noteq> []" "name \<noteq> []" "\<not> str_contains name ''..''"
  shows "below dir (path_join dir name)"
proof -
  have nd: "''..'' \<notin> set (str_split (CHR ''/'') name)" using split_contains assms(3) by blast
  have isroot: "rooted (dir @ ''/'' @ name) = rooted dir" using assms(1) by (cases dir) (simp_all add: rooted_def)
  have "path_segments_of (dir @ ''/'' @ name) =
      path_segments_of dir @ filter (\<lambda>s. s \<noteq> [] \<and> s \<noteq> ''.'') (str_split (CHR ''/'') name)"
    unfolding path_segments_of_def isroot by (simp only: append_Cons append_Nil split_at clean_extend[OF nd])
  also have "filter (\<lambda>s. s \<noteq> [] \<and> s \<noteq> ''.'') (str_split (CHR ''/'') name) =
      filter plain_segment (str_split (CHR ''/'') name)"
    using nd by (intro filter_cong) (auto simp: plain_segment_def)
  finally have "path_join dir name =
      path_text (rooted dir) (path_segments_of dir @ filter plain_segment (str_split (CHR ''/'') name))"
    using assms isroot by (simp add: path_join_def path_clean_def)
  then show ?thesis using below_pieces by simp
qed

lemma asset_name_plain: "asset_name path \<noteq> [] \<and> \<not> str_contains (asset_name path) ''..''"
proof -
  have "\<not> str_contains index_html ''..''" unfolding index_html_def by code_simp
  then show ?thesis by (auto simp: asset_name_def Let_def index_html_def)
qed

lemma index_below: "dir \<noteq> [] \<Longrightarrow> below dir (path_join dir index_html)"
  using join_below[of dir index_html] asset_name_plain[of "[]"] by (simp add: asset_name_def has_prefix_def trim_prefix_def)

lemma ui_inside:
  assumes "sv_ui_dir s \<noteq> []" "\<forall>p. below (sv_ui_dir s) p \<longrightarrow> read p = en_read_file env p"
  shows "handleUIAsset (env\<lparr>en_read_file := read\<rparr>) ctx r w s = handleUIAsset env ctx r w s"
proof -
  have "read (path_join (sv_ui_dir s) (asset_name (rq_path r))) =
      en_read_file env (path_join (sv_ui_dir s) (asset_name (rq_path r)))"
    using assms join_below[OF assms(1)] asset_name_plain[of "rq_path r"] by blast
  moreover have "read (path_join (sv_ui_dir s) index_html) = en_read_file env (path_join (sv_ui_dir s) index_html)"
    using assms index_below[OF assms(1)] by blast
  ultimately have "find_asset read (path_join (sv_ui_dir s)) (asset_name (rq_path r)) =
      find_asset (en_read_file env) (path_join (sv_ui_dir s)) (asset_name (rq_path r))"
    by (simp add: find_asset_def split: option.split)
  then show ?thesis using assms(1) by (simp add: handleUIAsset_def split: option.split prod.split)
qed

end
