(* ===== verification/ApiServer.thy ===== *)
theory ApiServer
  imports ApiHandlers ApiUi
begin

text \<open>
  \<^verbatim>\<open>internal/api/server.go\<close> and \<^verbatim>\<open>routes.go\<close>: the event stream, the routes with their
  middleware, the start of the server and one request through all of it.
\<close>

section \<open>Event stream\<close>

definition stats_text :: "'w api_env \<Rightarrow> api \<Rightarrow> string" where
  "stats_text env s =
     json_text (en_float_text env) (DMap
       [(''engine'', DStr (as_engine (cf_appsec (sv_cfg s)))), (''goroutines'', DInt (rt_goroutines (en_runtime env))),
        (''heap_mb'', DNum (megabytes (rt_alloc (en_runtime env)))), (''timestamp'', DStr (en_utc_seconds env (en_now env))),
        (''type'', DStr ''stats'')])"

definition writeSSEStats :: "'w api_env \<Rightarrow> api \<Rightarrow> response \<Rightarrow> response" where
  "writeSSEStats env s w = write_frame (stats_text env s) w"

text \<open>What the \<^verbatim>\<open>select\<close> of the stream takes next, or what happens to the broker in between.\<close>

datatype stream_choice = StreamDone | StreamData | StreamTick | StreamOther broker_op

fun stream_loop :: "'w api_env \<Rightarrow> nat option \<Rightarrow> stream_choice list \<Rightarrow> response \<Rightarrow> api \<Rightarrow> (response \<times> api) option" where
  "stream_loop env ch [] w s = Some (w, s)"
| "stream_loop env ch (StreamDone # cs) w s =
     (case (ch, sv_broker s) of
        (Some c, Some b) \<Rightarrow> map_option (\<lambda>b. (w, s\<lparr>sv_broker := Some b\<rparr>)) (Unsubscribe c b)
      | _ \<Rightarrow> Some (w, s))"
| "stream_loop env ch (StreamTick # cs) w s = stream_loop env ch cs (writeSSEStats env s w) s"
| "stream_loop env ch (StreamOther x # cs) w s =
     (case sv_broker s of
        None \<Rightarrow> stream_loop env ch cs w s
      | Some b \<Rightarrow>
         (case broker_apply x b of
            None \<Rightarrow> None
          | Some b \<Rightarrow> stream_loop env ch cs w (s\<lparr>sv_broker := Some b\<rparr>)))"
| "stream_loop env ch (StreamData # cs) w s =
     (case (ch, sv_broker s) of
        (Some c, Some b) \<Rightarrow>
          (case receive c b of
             Some (m, b) \<Rightarrow>
               stream_loop env ch cs (write_frame (event_text (en_rfc3339 env) (en_float_text env) m) w)
                 (s\<lparr>sv_broker := Some b\<rparr>)
           | None \<Rightarrow>
               if c < length (br_channels b) \<and> cn_closed (br_channels b ! c)
               then stream_loop env ch cs (write_frame [] w) s else stream_loop env ch cs w s)
      | _ \<Rightarrow> stream_loop env ch cs w s)"

definition handleSSE :: "'w api_env \<Rightarrow> bool \<Rightarrow> stream_choice list \<Rightarrow> api_handler" where
  "handleSSE env flusher cs ctx r w s =
     (if \<not> flusher then Some (writeError 500 ''streaming not supported'' w, s)
      else
        let w = sse_open w;
            (ch, s) = (case sv_broker s of
                None \<Rightarrow> (None, s)
              | Some b \<Rightarrow> (case Subscribe b of (c, b) \<Rightarrow> (Some c, s\<lparr>sv_broker := Some b\<rparr>)))
        in stream_loop env ch cs (writeSSEStats env s w) s)"

section \<open>Routes\<close>

datatype endpoint =
  EpHealth | EpLogin | EpStatus | EpGetConfig | EpUpdateConfig | EpMetrics | EpListPlugins | EpGetPlugin | EpAudit
| EpIngest | EpStream | EpMarketList | EpMarketCategories | EpMarketGet | EpMarketInstall | EpMarketUninstall
| EpFirewallRules | EpFirewallBlock | EpFirewallUnblock | EpPrometheus | EpPprof string | EpRoot | EpAsset

definition v1 :: "string \<Rightarrow> pseg list \<Rightarrow> endpoint \<Rightarrow> endpoint route" where
  "v1 m p t = \<lparr>ro_method = m, ro_path = Lit ''api'' # Lit ''v1'' # p, ro_target = t\<rparr>"

definition pprof_route :: "pseg \<Rightarrow> string \<Rightarrow> endpoint route" where
  "pprof_route p name = \<lparr>ro_method = ''GET'', ro_path = [Lit ''debug'', Lit ''pprof'', p], ro_target = EpPprof name\<rparr>"

definition api_routes :: "endpoint route list" where
  "api_routes =
     [\<lparr>ro_method = ''GET'', ro_path = [Lit ''health''], ro_target = EpHealth\<rparr>,
      v1 ''POST'' [Lit ''auth'', Lit ''login''] EpLogin,
      v1 ''OPTIONS'' [Lit ''auth'', Lit ''login''] EpLogin,
      v1 ''GET'' [Lit ''status''] EpStatus,
      v1 ''GET'' [Lit ''config''] EpGetConfig,
      v1 ''PUT'' [Lit ''config''] EpUpdateConfig,
      v1 ''GET'' [Lit ''metrics''] EpMetrics,
      v1 ''GET'' [Lit ''plugins''] EpListPlugins,
      v1 ''GET'' [Lit ''plugins'', Wild ''name''] EpGetPlugin,
      v1 ''GET'' [Lit ''audit''] EpAudit,
      v1 ''POST'' [Lit ''events''] EpIngest,
      v1 ''GET'' [Lit ''events''] EpStream,
      v1 ''GET'' [Lit ''marketplace''] EpMarketList,
      v1 ''GET'' [Lit ''marketplace'', Lit ''categories''] EpMarketCategories,
      v1 ''GET'' [Lit ''marketplace'', Wild ''name''] EpMarketGet,
      v1 ''POST'' [Lit ''marketplace'', Lit ''install'', Wild ''name''] EpMarketInstall,
      v1 ''DELETE'' [Lit ''marketplace'', Lit ''uninstall'', Wild ''name''] EpMarketUninstall,
      v1 ''GET'' [Lit ''firewall'', Lit ''rules''] EpFirewallRules,
      v1 ''POST'' [Lit ''firewall'', Lit ''block''] EpFirewallBlock,
      v1 ''DELETE'' [Lit ''firewall'', Lit ''unblock'', Wild ''ip''] EpFirewallUnblock,
      \<lparr>ro_method = ''GET'', ro_path = [Lit ''metrics''], ro_target = EpPrometheus\<rparr>,
      pprof_route Rest ''index'',
      pprof_route (Lit ''cmdline'') ''cmdline'',
      pprof_route (Lit ''profile'') ''profile'',
      pprof_route (Lit ''symbol'') ''symbol'',
      pprof_route (Lit ''trace'') ''trace'',
      \<lparr>ro_method = ''GET'', ro_path = [Rest], ro_target = EpRoot\<rparr>,
      \<lparr>ro_method = ''GET'', ro_path = [Lit ''assets'', Rest], ro_target = EpAsset\<rparr>]"

definition external :: "'w api_env \<Rightarrow> string \<Rightarrow> api_handler" where
  "external env name ctx r w s = Some (en_external env name r w, s)"

text \<open>The handlers that only a session of some kind reaches, without their middleware.\<close>

fun session_handler :: "'w api_env \<Rightarrow> stream_choice list \<Rightarrow> (string \<times> string) list \<Rightarrow> endpoint \<Rightarrow> api_handler option" where
  "session_handler env cs bs EpStatus = Some (handleStatus env)"
| "session_handler env cs bs EpGetConfig = Some handleGetConfig"
| "session_handler env cs bs EpMetrics = Some (handleMetrics env)"
| "session_handler env cs bs EpListPlugins = Some (handleListPlugins env)"
| "session_handler env cs bs EpGetPlugin = Some (handleGetPlugin env (path_value bs ''name''))"
| "session_handler env cs bs EpAudit = Some (handleAuditQuery env)"
| "session_handler env cs bs EpStream = Some (handleSSE env True cs)"
| "session_handler env cs bs EpMarketList = Some (handleMarketplaceList env)"
| "session_handler env cs bs EpMarketCategories = Some handleMarketplaceCategories"
| "session_handler env cs bs EpMarketGet = Some (handleMarketplaceGet env (path_value bs ''name''))"
| "session_handler env cs bs EpFirewallRules = Some (handleFirewallRules env)"
| "session_handler env cs bs EpIngest = Some (requireScope ''events:write'' (handleIngestEvent env))"
| "session_handler env cs bs EpUpdateConfig = Some (requireRole ''admin'' (handleUpdateConfig env))"
| "session_handler env cs bs EpMarketInstall =
     Some (requireRole ''admin'' (handleMarketplaceInstall (path_value bs ''name'')))"
| "session_handler env cs bs EpMarketUninstall =
     Some (requireRole ''admin'' (handleMarketplaceUninstall (path_value bs ''name'')))"
| "session_handler env cs bs EpFirewallBlock = Some (requireRole ''admin'' (handleFirewallBlock env))"
| "session_handler env cs bs EpFirewallUnblock =
     Some (requireRole ''admin'' (handleFirewallUnblock env (path_value bs ''ip'')))"
| "session_handler env cs bs ep = None"

fun endpoint_handler :: "'w api_env \<Rightarrow> stream_choice list \<Rightarrow> (string \<times> string) list \<Rightarrow> endpoint \<Rightarrow> api_handler" where
  "endpoint_handler env cs bs EpHealth = handleHealth"
| "endpoint_handler env cs bs EpLogin = corsMiddleware (handleLogin env)"
| "endpoint_handler env cs bs EpPrometheus = external env ''metrics''"
| "endpoint_handler env cs bs (EpPprof name) = authMiddleware env (requireRole ''admin'' (external env name))"
| "endpoint_handler env cs bs EpRoot = handleRoot env"
| "endpoint_handler env cs bs EpAsset = handleUIAsset env"
| "endpoint_handler env cs bs ep =
     (case session_handler env cs bs ep of
        None \<Rightarrow> (\<lambda>ctx r w s. Some (w, s))
      | Some h \<Rightarrow> corsMiddleware (authMiddleware env h))"

definition mux_handler :: "'w api_env \<Rightarrow> stream_choice list \<Rightarrow> api_handler" where
  "mux_handler env cs ctx r w s =
     (case mux_find api_routes (rq_method r) (rq_path r) of
        None \<Rightarrow> Some (write_header (mux_missing api_routes (rq_path r)) w, s)
      | Some (ep, bs) \<Rightarrow> endpoint_handler env cs bs ep ctx r w s)"

text \<open>One request to \<^verbatim>\<open>Handler()\<close>; the logging middleware only writes to the log.\<close>

definition api_serve :: "'w api_env \<Rightarrow> stream_choice list \<Rightarrow> http_request \<Rightarrow> api \<Rightarrow> (response \<times> api) option" where
  "api_serve env cs r s = auditMiddleware env (mux_handler env cs) None r new_response s"

section \<open>Start\<close>

definition insecure_secret :: "string \<Rightarrow> bool" where
  "insecure_secret secret = (secret = [] \<or> secret = ''change-me-in-production'' \<or> length secret < 32)"

definition start_firewall :: "cmd_env \<Rightarrow> FirewallConfig \<Rightarrow> cmd_log \<Rightarrow> manager option \<times> cmd_log" where
  "start_firewall exec cfg cl =
     (if \<not> fw_enabled cfg then (None, cl)
      else case Firewall.NewManager cfg of
        Inl e \<Rightarrow> (None, cl)
      | Inr m \<Rightarrow> (Some m, snd (manager_start m exec cl)))"

definition NewServer :: "'w api_env \<Rightarrow> bool \<Rightarrow> Config \<Rightarrow> string \<Rightarrow> string \<Rightarrow> cmd_log \<Rightarrow> (string + api) \<times> cmd_log" where
  "NewServer env audit_opened cfg configPath uiDir cl =
     (if insecure_secret (au_jwt_secret (ap_auth (cf_api cfg))) then (Inl ''insecure JWT secret'', cl)
      else
        let auditStore = (case NewStore 2000 ''/opt/waffynx/logs/audit.jsonl'' audit_opened of
                Some a \<Rightarrow> Some a
              | None \<Rightarrow> NewStore 2000 [] True);
            (fwMgr, cl) = start_firewall (en_exec env) (cf_firewall cfg) cl
        in (Inr \<lparr>sv_cfg = cfg, sv_config_path = configPath,
              sv_auth = Auth.NewManager (au_jwt_secret (ap_auth (cf_api cfg))) (au_token_ttl (ap_auth (cf_api cfg))),
              sv_oidc = Configure (en_oidc env) (au_oidc (ap_auth (cf_api cfg))) NewOIDCManager,
              sv_store = seedMarketplace (en_now env) NewInMemoryStore, sv_audit = auditStore,
              sv_broker = Some NewBroker, sv_banned = [], sv_firewall = fwMgr, sv_ui_dir = uiDir,
              sv_commands = cl, sv_files = []\<rparr>, cl))"

end
