(* ===== verification/ApiProps.thy ===== *)
theory ApiProps
  imports SidecarHandlers ApiServer
begin

text \<open>
  What the management API guarantees: every request is answered and keeps the state well
  formed, only administrators change what the server controls, a session is needed for all but
  the public routes, and every request is audited.
\<close>

section \<open>Contracts of handlers\<close>

text \<open>The state is well formed: the parts are, and the token manager is that of the configuration.\<close>

definition auth_of :: "Config \<Rightarrow> auth_manager" where
  "auth_of cfg = Auth.NewManager (au_jwt_secret (ap_auth (cf_api cfg))) (au_token_ttl (ap_auth (cf_api cfg)))"

definition api_inv :: "api \<Rightarrow> bool" where
  "api_inv s =
     (sv_auth s = auth_of (sv_cfg s) \<and> ms_inv (sv_store s) \<and> distinct (map fst (sv_banned s)) \<and>
      (\<exists>a. sv_audit s = Some a \<and> audit_wf a) \<and> pred_option broker_inv (sv_broker s))"

text \<open>What only an administrator may change; what a handler does not run commands for.\<close>

definition control :: "api \<Rightarrow> Config \<times> auth_manager \<times> package_store \<times> (string \<times> banned_ip) list \<times> cmd_log \<times> (string \<times> string) list" where
  "control s = (sv_cfg s, sv_auth s, sv_store s, sv_banned s, sv_commands s, sv_files s)"

definition admin :: "claims option \<Rightarrow> bool" where
  "admin ctx = (\<exists>c. ctx = Some c \<and> cl_role c = ''admin'')"

definition serves :: "api_handler \<Rightarrow> bool" where
  "serves h = (\<forall>ctx r w s. api_inv s \<longrightarrow> (\<exists>w' s'. h ctx r w s = Some (w', s') \<and> api_inv s'))"

definition contained :: "api_handler \<Rightarrow> bool" where
  "contained h =
     (\<forall>ctx r w s w' s'. h ctx r w s = Some (w', s') \<longrightarrow> control s' = control s \<or> admin ctx)"

definition quiet :: "api_handler \<Rightarrow> bool" where
  "quiet h = (\<forall>ctx r w s w' s'. h ctx r w s = Some (w', s') \<longrightarrow> sv_commands s' = sv_commands s)"

lemma quietI: "(\<And>ctx r w s w' s'. h ctx r w s = Some (w', s') \<Longrightarrow> sv_commands s' = sv_commands s) \<Longrightarrow> quiet h"
  unfolding quiet_def by blast

lemma quietD: "quiet h \<Longrightarrow> h ctx r w s = Some (w', s') \<Longrightarrow> sv_commands s' = sv_commands s"
  unfolding quiet_def by blast

lemma servesI: "(\<And>ctx r w s. api_inv s \<Longrightarrow> \<exists>w' s'. h ctx r w s = Some (w', s') \<and> api_inv s') \<Longrightarrow> serves h"
  by (simp add: serves_def)

lemma servesE: "serves h \<Longrightarrow> api_inv s \<Longrightarrow> (\<And>w' s'. h ctx r w s = Some (w', s') \<Longrightarrow> api_inv s' \<Longrightarrow> P) \<Longrightarrow> P"
  unfolding serves_def by blast

lemma containedI:
  "(\<And>ctx r w s w' s'. h ctx r w s = Some (w', s') \<Longrightarrow> \<not> admin ctx \<Longrightarrow> control s' = control s) \<Longrightarrow> contained h"
  unfolding contained_def by blast

lemma containedD: "contained h \<Longrightarrow> h ctx r w s = Some (w', s') \<Longrightarrow> \<not> admin ctx \<Longrightarrow> control s' = control s"
  unfolding contained_def by blast

text \<open>A handler that leaves the state alone meets all three.\<close>

lemma reads_only: "(\<And>ctx r w s. \<exists>w'. h ctx r w s = Some (w', s)) \<Longrightarrow> serves h \<and> contained h \<and> quiet h"
  by (metis containedI quietI option.inject prod.inject servesI)

named_theorems handler_facts \<open>contracts of the handlers\<close>

subsection \<open>Middleware\<close>

lemma serves_auth: "serves h \<Longrightarrow> serves (authMiddleware env h)"
  by (rule servesI) (auto simp: authMiddleware_bearer serves_def split: sum.split)

lemma serves_role: "serves h \<Longrightarrow> serves (requireRole role h)"
  by (rule servesI) (auto simp: requireRole_def serves_def split: option.split)

lemma serves_scope: "serves h \<Longrightarrow> serves (requireScope sc h)"
  by (rule servesI) (auto simp: requireScope_def serves_def split: option.split)

lemma serves_cors: "serves h \<Longrightarrow> serves (corsMiddleware h)"
  by (rule servesI) (auto simp: corsMiddleware_def Let_def serves_def)

lemma contained_admin: "contained (requireRole ''admin'' h)"
  by (rule containedI) (auto simp: requireRole_def admin_def split: option.splits if_splits)

lemma contained_scope: "contained h \<Longrightarrow> contained (requireScope sc h)"
  by (rule containedI) (auto simp: requireScope_def dest: containedD split: option.splits if_splits)

text \<open>Behind the authentication only the presented token counts.\<close>

lemma contained_auth:
  assumes "contained h" "authMiddleware env h ctx r w s = Some (w', s')" "control s' \<noteq> control s"
  shows "\<exists>c. bearer env r s = Inr c \<and> cl_role c = ''admin''"
  using assms(2,3) containedD[OF assms(1)]
  by (fastforce simp: authMiddleware_bearer admin_def split: sum.splits)

subsection \<open>Reading handlers\<close>

lemma handleHealth_reads [handler_facts]: "serves handleHealth \<and> contained handleHealth \<and> quiet handleHealth"
  by (rule reads_only) (simp add: handleHealth_def)

lemma handleLogin_reads [handler_facts]: "serves (handleLogin env) \<and> contained (handleLogin env) \<and> quiet (handleLogin env)"
  by (rule reads_only) (simp add: handleLogin_def split: option.split sum.split)

lemma handleStatus_reads [handler_facts]: "serves (handleStatus env) \<and> contained (handleStatus env) \<and> quiet (handleStatus env)"
  by (rule reads_only) (simp add: handleStatus_def Let_def)

lemma handleMetrics_reads [handler_facts]: "serves (handleMetrics env) \<and> contained (handleMetrics env) \<and> quiet (handleMetrics env)"
  by (rule reads_only) (simp add: handleMetrics_def Let_def)

lemma handleGetConfig_reads [handler_facts]: "serves handleGetConfig \<and> contained handleGetConfig \<and> quiet handleGetConfig"
  by (rule reads_only) (simp add: handleGetConfig_def)

lemma handleListPlugins_reads [handler_facts]: "serves (handleListPlugins env) \<and> contained (handleListPlugins env) \<and> quiet (handleListPlugins env)"
  by (rule reads_only) (simp add: handleListPlugins_def)

lemma handleGetPlugin_reads [handler_facts]: "serves (handleGetPlugin env n) \<and> contained (handleGetPlugin env n) \<and> quiet (handleGetPlugin env n)"
  by (rule reads_only) (simp add: handleGetPlugin_def split: sum.split)

lemma handleAuditQuery_reads [handler_facts]: "serves (handleAuditQuery env) \<and> contained (handleAuditQuery env) \<and> quiet (handleAuditQuery env)"
  by (rule reads_only) (simp add: handleAuditQuery_def split: option.split)

lemma handleMarketplaceList_reads [handler_facts]:
  "serves (handleMarketplaceList env) \<and> contained (handleMarketplaceList env) \<and> quiet (handleMarketplaceList env)"
  by (rule reads_only) (simp add: handleMarketplaceList_def)

lemma handleMarketplaceGet_reads [handler_facts]:
  "serves (handleMarketplaceGet env n) \<and> contained (handleMarketplaceGet env n) \<and> quiet (handleMarketplaceGet env n)"
  by (rule reads_only) (simp add: handleMarketplaceGet_def split: sum.split)

lemma handleMarketplaceCategories_reads [handler_facts]:
  "serves handleMarketplaceCategories \<and> contained handleMarketplaceCategories \<and> quiet handleMarketplaceCategories"
  by (rule reads_only) (simp add: handleMarketplaceCategories_def)

lemma handleFirewallRules_reads [handler_facts]: "serves (handleFirewallRules env) \<and> contained (handleFirewallRules env) \<and> quiet (handleFirewallRules env)"
  by (rule reads_only) (simp add: handleFirewallRules_def)

lemma external_reads [handler_facts]: "serves (external env n) \<and> contained (external env n) \<and> quiet (external env n)"
  by (rule reads_only) (simp add: external_def)

lemma handleUIAsset_reads [handler_facts]: "serves (handleUIAsset env) \<and> contained (handleUIAsset env) \<and> quiet (handleUIAsset env)"
  by (rule reads_only) (simp add: handleUIAsset_def Let_def split: option.split prod.split)

lemma handleRoot_reads [handler_facts]: "serves (handleRoot env) \<and> contained (handleRoot env) \<and> quiet (handleRoot env)"
  by (rule reads_only) (simp add: handleRoot_def handleUIAsset_def Let_def split: option.split prod.split)

subsection \<open>Publishing and streaming\<close>

lemma api_inv_broker: "api_inv s \<Longrightarrow> broker_inv b \<Longrightarrow> api_inv (s\<lparr>sv_broker := Some b\<rparr>)"
  by (simp add: api_inv_def)

lemma api_inv_brokerD: "api_inv s \<Longrightarrow> sv_broker s = Some b \<Longrightarrow> broker_inv b"
  by (simp add: api_inv_def)

lemma control_broker [simp]: "control (s\<lparr>sv_broker := b\<rparr>) = control s"
  by (simp add: control_def)

lemma control_audit [simp]: "control (s\<lparr>sv_audit := a\<rparr>) = control s"
  by (simp add: control_def)

lemma publish_to_serves:
  assumes "api_inv s"
  shows "\<exists>s'. publish_to now e s = Some s' \<and> api_inv s' \<and> control s' = control s"
proof (cases "sv_broker s")
  case None
  then show ?thesis using assms by (simp add: publish_to_def)
next
  case (Some b)
  then have "broker_inv b" using assms by (rule api_inv_brokerD[rotated])
  then obtain b' where "Publish now e b = Some b'" "broker_inv b'"
    using Publish_total broker_inv_Publish by blast
  then show ?thesis using Some assms by (simp add: publish_to_def api_inv_broker)
qed

lemma record_audit_serves:
  assumes "api_inv s"
  shows "\<exists>s'. record_audit now e s = Some s' \<and> api_inv s' \<and> control s' = control s"
proof -
  obtain a where a: "sv_audit s = Some a" "audit_wf a" using assms by (auto simp: api_inv_def)
  from record_event_total[OF a(2), of "(now, e)"] show ?thesis
    using a assms by (auto simp: record_audit_def api_inv_def)
qed

lemma handleIngestEvent_serves [handler_facts]:
  "serves (handleIngestEvent env) \<and> contained (handleIngestEvent env) \<and> quiet (handleIngestEvent env)"
proof (intro conjI)
  show "serves (handleIngestEvent env)"
    using publish_to_serves by (intro servesI) (fastforce simp: handleIngestEvent_def split: sum.split)
  show "contained (handleIngestEvent env)"
    by (rule containedI)
      (auto simp: handleIngestEvent_def publish_to_def split: sum.splits option.splits if_splits)
  show "quiet (handleIngestEvent env)"
    by (rule quietI)
      (auto simp: handleIngestEvent_def publish_to_def split: sum.splits option.splits if_splits)
qed

text \<open>A stream waits on a live channel of the server's broker, or there is no broker.\<close>

definition stream_ready :: "nat option \<Rightarrow> api \<Rightarrow> bool" where
  "stream_ready ch s =
     (case ch of None \<Rightarrow> sv_broker s = None | Some c \<Rightarrow> (\<exists>b. sv_broker s = Some b \<and> sse_state c b))"

lemma stream_ready_Some: "stream_ready (Some c) s \<longleftrightarrow> (\<exists>b. sv_broker s = Some b \<and> sse_state c b)"
  by (simp add: stream_ready_def)

lemma stream_loop_serves:
  assumes "api_inv s" "stream_ready ch s"
  shows "\<exists>w' s'. stream_loop env ch cs w s = Some (w', s') \<and> api_inv s' \<and> control s' = control s"
  using assms
proof (induction env ch cs w s rule: stream_loop.induct)
  case (2 env ch cs w s)
  show ?case
  proof (cases ch)
    case (Some c)
    then obtain b where b: "sv_broker s = Some b" "sse_state c b" using 2 by (auto simp: stream_ready_Some)
    note f = sse_state_facts[OF b(2)]
    obtain b' where u: "Unsubscribe c b = Some b'" using f by (simp add: Unsubscribe_def Let_def)
    then show ?thesis using Some b 2 broker_inv_Unsubscribe[OF f(3) u] by (simp add: api_inv_broker)
  qed (use 2 in simp)
next
  case (4 env ch x cs w s)
  show ?case
  proof (cases ch)
    case None
    then show ?thesis using 4 by (simp add: stream_ready_def)
  next
    case (Some c)
    then obtain b where b: "sv_broker s = Some b" "sse_state c b" using 4 by (auto simp: stream_ready_Some)
    obtain b' where a: "broker_apply x b = Some b'" "sse_state c b'" using sse_state_apply[OF b(2)] by blast
    have "api_inv (s\<lparr>sv_broker := Some b'\<rparr>)" using 4 sse_state_facts(3)[OF a(2)] by (simp add: api_inv_broker)
    then show ?thesis using 4(2)[OF b(1) a(1)] Some b a by (simp add: stream_ready_Some)
  qed
next
  case (5 env ch cs w s)
  show ?case
  proof (cases ch)
    case None
    then show ?thesis using 5 by (simp add: stream_ready_def)
  next
    case (Some c)
    then obtain b where b: "sv_broker s = Some b" "sse_state c b" using 5 by (auto simp: stream_ready_Some)
    note f = sse_state_facts[OF b(2)]
    show ?thesis
    proof (cases "receive c b")
      case None
      then show ?thesis using 5 Some b f by simp
    next
      case r: (Some x)
      obtain m b1 where x: "x = (m, b1)" by (cases x)
      note i = receive_inv[OF f(3) r[unfolded x]]
      have "sse_state c b1" using i b(2) by (simp add: sse_state_def)
      moreover have "api_inv (s\<lparr>sv_broker := Some b1\<rparr>)" using 5 i by (simp add: api_inv_broker)
      ultimately show ?thesis using 5 Some b r x by (simp add: stream_ready_Some)
    qed
  qed
qed simp_all

lemma stream_start: "broker_inv b \<Longrightarrow> sse_state (fst (Subscribe b)) (snd (Subscribe b))"
  using broker_inv_Subscribe[of b] by (simp add: sse_state_def) (simp add: Subscribe_def Let_def)

lemma handleSSE_result:
  assumes "api_inv s"
  shows "\<exists>w' s'. ApiServer.handleSSE env flusher cs ctx r w s = Some (w', s') \<and> api_inv s' \<and> control s' = control s"
proof (cases "sv_broker s")
  case None
  then show ?thesis
    using assms stream_loop_serves[of s None] by (auto simp: ApiServer.handleSSE_def stream_ready_def)
next
  case (Some b)
  let ?s = "s\<lparr>sv_broker := Some (snd (Subscribe b))\<rparr>"
  have inv: "broker_inv b" using assms Some by (rule api_inv_brokerD)
  have "api_inv ?s" using assms broker_inv_Subscribe[OF inv] by (simp add: api_inv_broker)
  moreover have "stream_ready (Some (fst (Subscribe b))) ?s"
    using stream_start[OF inv] by (simp add: stream_ready_Some)
  ultimately show ?thesis
    using stream_loop_serves[of ?s "Some (fst (Subscribe b))"] assms Some
    by (auto simp: ApiServer.handleSSE_def case_prod_unfold)
qed

lemma handleSSE_serves [handler_facts]:
  "serves (ApiServer.handleSSE env flusher cs) \<and> contained (ApiServer.handleSSE env flusher cs) \<and> quiet (ApiServer.handleSSE env flusher cs)"
proof (intro conjI)
  show "serves (ApiServer.handleSSE env flusher cs)" using handleSSE_result by (intro servesI) blast
  have run: "control s' = control s"
    if "ApiServer.handleSSE env flusher cs ctx r w s = Some (w', s')" for ctx r w s w' s'
  proof -
    have loop: "stream_loop env ch cs w s = Some (w', s') \<Longrightarrow> control s' = control s" for ch w s
      by (induction env ch cs w s rule: stream_loop.induct) (auto split: option.splits if_splits)
    show ?thesis
      using that by (auto simp: ApiServer.handleSSE_def Let_def split: if_splits option.splits prod.splits dest!: loop)
  qed
  show "contained (ApiServer.handleSSE env flusher cs)" by (rule containedI) (rule run)
  show "quiet (ApiServer.handleSSE env flusher cs)" by (rule quietI) (drule run, simp add: control_def)
qed

subsection \<open>Administration\<close>

lemma use_config_inv: "api_inv s \<Longrightarrow> api_inv (use_config env cfg s)"
  by (simp add: api_inv_def use_config_def auth_of_def)

lemma api_inv_files: "api_inv (s\<lparr>sv_files := fs\<rparr>) = api_inv s"
  by (simp add: api_inv_def)

lemma handleUpdateConfig_serves: "serves (handleUpdateConfig env)"
  by (rule servesI)
    (auto simp: handleUpdateConfig_def use_config_inv api_inv_files split: option.split sum.split prod.split)

lemma api_inv_store: "api_inv s \<Longrightarrow> ms_inv st \<Longrightarrow> api_inv (s\<lparr>sv_store := st\<rparr>)"
  by (simp add: api_inv_def)

lemma api_inv_storeD: "api_inv s \<Longrightarrow> ms_inv (sv_store s)"
  by (simp add: api_inv_def)

lemma handleMarketplaceInstall_serves: "serves (handleMarketplaceInstall n)"
  by (rule servesI)
    (auto simp: handleMarketplaceInstall_def intro: api_inv_store ms_inv_install[OF api_inv_storeD] split: sum.split)

lemma handleMarketplaceUninstall_serves: "serves (handleMarketplaceUninstall n)"
  by (rule servesI)
    (auto simp: handleMarketplaceUninstall_def intro: api_inv_store ms_inv_uninstall[OF api_inv_storeD] split: sum.split)

lemma run_firewall_inv: "api_inv (run_firewall f s) = api_inv s"
  by (simp add: run_firewall_def api_inv_def split: option.split)

lemma api_inv_banned: "api_inv s \<Longrightarrow> distinct (map fst bs) \<Longrightarrow> api_inv (s\<lparr>sv_banned := bs\<rparr>)"
  by (simp add: api_inv_def)

lemma api_inv_bannedD: "api_inv s \<Longrightarrow> distinct (map fst (sv_banned s))"
  by (simp add: api_inv_def)

lemma ban_serves:
  assumes "api_inv s"
  shows "api_inv (run_firewall f (s\<lparr>sv_banned := AList.update ip b (sv_banned s)\<rparr>))"
    "api_inv (run_firewall f (s\<lparr>sv_banned := AList.delete ip (sv_banned s)\<rparr>))"
  using assms api_inv_bannedD[OF assms]
  by (simp_all add: run_firewall_inv api_inv_banned distinct_update distinct_delete)

lemma handleFirewallBlock_serves: "serves (handleFirewallBlock env)"
proof (rule servesI)
  fix ctx r w s
  assume inv: "api_inv s"
  have step: "\<exists>w' s'. (case record_audit t e s1 of
        None \<Rightarrow> None
      | Some s \<Rightarrow> map_option (\<lambda>s. (w1, s)) (publish_to t' e' s)) = Some (w', s') \<and> api_inv s'"
    if i: "api_inv s1" for t e s1 t' e' w1
  proof -
    obtain s2 where s2: "record_audit t e s1 = Some s2" "api_inv s2" using record_audit_serves[OF i] by blast
    obtain s3 where "publish_to t' e' s2 = Some s3" "api_inv s3" using publish_to_serves[OF s2(2)] by blast
    then show ?thesis using s2 by simp
  qed
  show "\<exists>w' s'. handleFirewallBlock env ctx r w s = Some (w', s') \<and> api_inv s'"
  proof (cases "decode_first decode_ban (rq_body r)")
    case None
    then show ?thesis using inv by (simp add: handleFirewallBlock_def)
  next
    case (Some x)
    obtain ip reason ttl where x: "x = (ip, reason, ttl)" by (cases x)
    show ?thesis
    proof (cases "trim_space ip = [] \<or> parse_ip (trim_space ip) = None")
      case True
      then show ?thesis using inv Some x by (auto simp: handleFirewallBlock_def Let_def)
    next
      case False
      then show ?thesis
        unfolding handleFirewallBlock_def Some x Let_def option.case prod.case
        using step[OF ban_serves(1)[OF inv]] False by (auto simp only: if_False simp_thms split: if_splits)
    qed
  qed
qed

lemma handleFirewallUnblock_serves: "serves (handleFirewallUnblock env ip)"
  using record_audit_serves[OF ban_serves(2)]
  by (intro servesI) (fastforce simp: handleFirewallUnblock_def Let_def)

lemmas admin_serves =
  handleUpdateConfig_serves handleMarketplaceInstall_serves handleMarketplaceUninstall_serves
  handleFirewallBlock_serves handleFirewallUnblock_serves

section \<open>All routes\<close>

lemmas handler_serves = handler_facts [THEN conjunct1]
lemmas handler_contained = handler_facts [THEN conjunct2, THEN conjunct1]
lemmas handler_quiet = handler_facts [THEN conjunct2, THEN conjunct2]

lemma session_serves:
  assumes "session_handler env cs bs ep = Some h"
  shows "serves h \<and> contained h"
  using assms
  by (cases ep)
    (auto intro: serves_role serves_scope contained_admin contained_scope admin_serves handler_serves handler_contained)

definition public_endpoint :: "endpoint \<Rightarrow> bool" where
  "public_endpoint ep = (ep \<in> {EpHealth, EpLogin, EpPrometheus, EpRoot, EpAsset})"

lemma session_or_profile:
  "\<not> public_endpoint ep \<Longrightarrow> (\<exists>n. ep = EpPprof n) \<or> (\<exists>h. session_handler env cs bs ep = Some h)"
  by (cases ep) (auto simp: public_endpoint_def)

lemma endpoint_session:
  "session_handler env cs bs ep = Some h \<Longrightarrow>
   endpoint_handler env cs bs ep = corsMiddleware (authMiddleware env h)"
  by (cases ep) auto

lemma endpoint_serves: "serves (endpoint_handler env cs bs ep)"
proof (cases "public_endpoint ep")
  case True
  then show ?thesis
    using serves_cors[OF handleLogin_reads[THEN conjunct1], of env] by (auto simp: public_endpoint_def intro: handler_serves)
next
  case False
  then consider n where "ep = EpPprof n" | h where "session_handler env cs bs ep = Some h"
    using session_or_profile by blast
  then show ?thesis
  proof cases
    case 1
    then show ?thesis by (auto intro: serves_auth serves_role handler_serves)
  next
    case 2
    then show ?thesis using session_serves[OF 2] by (simp add: endpoint_session[OF 2] serves_cors serves_auth)
  qed
qed

lemma mux_serves: "serves (mux_handler env cs)"
proof (rule servesI)
  fix ctx r w s
  assume "api_inv s"
  then show "\<exists>w' s'. mux_handler env cs ctx r w s = Some (w', s') \<and> api_inv s'"
    using endpoint_serves[of env cs, unfolded serves_def] by (cases "mux_find api_routes (rq_method r) (rq_path r)")
      (auto simp: mux_handler_def)
qed

text \<open>What an endpoint changes of the controlled state, it changes for an administrator's token.\<close>

lemma endpoint_control:
  assumes "endpoint_handler env cs bs ep None r w s = Some (w', s')" "control s' \<noteq> control s"
  shows "\<exists>c. bearer env r s = Inr c \<and> cl_role c = ''admin''"
proof (cases "public_endpoint ep")
  case True
  have "\<not> admin None" by (simp add: admin_def)
  then show ?thesis
    using assms True containedD[of "handleLogin env" None] containedD[of handleHealth None]
      containedD[of "external env ''metrics''" None] containedD[of "handleRoot env" None]
      containedD[of "handleUIAsset env" None] handler_facts
    by (fastforce simp: public_endpoint_def corsMiddleware_def Let_def split: if_splits)
next
  case False
  then consider n where "ep = EpPprof n" | h where "session_handler env cs bs ep = Some h"
    using session_or_profile by blast
  then show ?thesis
  proof cases
    case 1
    then show ?thesis using assms contained_auth[OF contained_admin] by simp blast
  next
    case 2
    then have "contained h" using session_serves by blast
    from contained_auth[OF this] assms show ?thesis
      by (auto simp: endpoint_session[OF 2] corsMiddleware_def Let_def split: if_splits)
  qed
qed

subsection \<open>Commands\<close>

lemma quiet_auth: "quiet h \<Longrightarrow> quiet (authMiddleware env h)"
  by (rule quietI) (auto simp: authMiddleware_bearer dest: quietD split: sum.splits)

lemma quiet_role: "quiet h \<Longrightarrow> quiet (requireRole role h)"
  by (rule quietI) (auto simp: requireRole_def dest: quietD split: option.splits if_splits)

lemma quiet_scope: "quiet h \<Longrightarrow> quiet (requireScope sc h)"
  by (rule quietI) (auto simp: requireScope_def dest: quietD split: option.splits if_splits)

lemma quiet_cors: "quiet h \<Longrightarrow> quiet (corsMiddleware h)"
  by (rule quietI) (auto simp: corsMiddleware_def Let_def dest: quietD split: if_splits)

lemma admin_quiet:
  "quiet (handleUpdateConfig env)" "quiet (handleMarketplaceInstall n)" "quiet (handleMarketplaceUninstall n)"
  by (rule quietI, auto simp: handleUpdateConfig_def use_config_def handleMarketplaceInstall_def
      handleMarketplaceUninstall_def split: option.splits sum.splits if_splits)+

text \<open>Only the two firewall routes run commands.\<close>

lemma endpoint_quiet:
  assumes "ep \<noteq> EpFirewallBlock" "ep \<noteq> EpFirewallUnblock"
  shows "quiet (endpoint_handler env cs bs ep)"
  using assms quiet_cors[OF handleLogin_reads[THEN conjunct2, THEN conjunct2], of env]
  by (cases ep)
    (auto intro!: quiet_auth quiet_cors intro: quiet_role quiet_scope handler_quiet admin_quiet)

end
