(* ===== verification/ApiRuns.thy ===== *)
theory ApiRuns
  imports ApiProps
begin

text \<open>
  Runs of the management API: the states that a started server reaches by requests and
  reloads, and the properties of a request from outside.
\<close>

section \<open>Reachable states\<close>

lemma seed_inv: "ms_inv (seedMarketplace now NewInMemoryStore)"
  by (simp add: seedMarketplace_def ms_inv_add ms_inv_new)

lemma NewServer_inv:
  assumes "NewServer env opened cfg path ui cl = (Inr s, cl')"
  shows "api_inv s" "\<not> insecure_secret (au_jwt_secret (ap_auth (cf_api (sv_cfg s))))"
proof -
  obtain a where a: "(case NewStore 2000 ''/opt/waffynx/logs/audit.jsonl'' opened of
      Some a \<Rightarrow> Some a | None \<Rightarrow> NewStore 2000 [] True) = Some a" "audit_wf a"
  proof (cases "NewStore 2000 ''/opt/waffynx/logs/audit.jsonl'' opened")
    case None
    obtain b where b: "NewStore 2000 [] True = Some b" by (simp add: NewStore_def)
    show ?thesis using that[of b] None b audit_wf_new[OF _ b] by simp
  next
    case (Some b)
    show ?thesis using that[of b] Some audit_wf_new[OF _ Some] by simp
  qed
  then show "api_inv s" "\<not> insecure_secret (au_jwt_secret (ap_auth (cf_api (sv_cfg s))))"
    using assms broker_inv_new seed_inv
    by (auto simp: NewServer_def Let_def api_inv_def auth_of_def split: if_splits prod.splits)
qed

lemma record_event_newest:
  assumes "audit_wf a" "record_event x a = Some a'"
  shows "List.last (chronological (aud_pos a') (aud_events a')) = stamp_event x"
proof -
  obtain b where "record_event x a = Some b"
    "chronological (aud_pos b) (aud_events b) = last_n (aud_max_size a) (chronological (aud_pos a) (aud_events a) @ [stamp_event x])"
    using audit_ring.push_step[OF TrueI assms(1)[unfolded audit_wf_def], of x] by blast
  moreover have "0 < aud_max_size a" using assms(1) by (simp add: audit_wf_def ring_wf_def)
  ultimately show ?thesis using assms(2) by (simp add: last_n_def)
qed

lemma api_serve_result:
  assumes "api_inv s"
  shows "\<exists>w s1 a a'. mux_handler env cs None r new_response s = Some (w, s1) \<and> api_inv s1 \<and> sv_audit s1 = Some a \<and>
     record_event (en_audit_time env, audit_entry None r (sent_status w)) a = Some a' \<and>
     api_serve env cs r s = Some (w, s1\<lparr>sv_audit := Some a'\<rparr>) \<and> api_inv (s1\<lparr>sv_audit := Some a'\<rparr>)"
proof -
  obtain w s1 where m: "mux_handler env cs None r new_response s = Some (w, s1)" "api_inv s1"
    using mux_serves assms by (rule servesE)
  obtain a where a: "sv_audit s1 = Some a" "audit_wf a" using m(2) by (auto simp: api_inv_def)
  have "sv_audit s \<noteq> None" using assms by (auto simp: api_inv_def)
  with record_event_total[OF a(2), of "(en_audit_time env, audit_entry None r (sent_status w))"]
  show ?thesis using m a by (auto simp: api_serve_def auditMiddleware_def api_inv_def)
qed

lemma reload_inv: "api_inv s \<Longrightarrow> api_inv (reload env f s)"
  by (auto simp: reload_def use_config_inv split: sum.split)

inductive api_reachable :: "api \<Rightarrow> bool" where
  reach_start: "NewServer (env :: unit api_env) opened cfg path ui cl = (Inr s, cl') \<Longrightarrow> api_reachable s"
| reach_request: "api_reachable s \<Longrightarrow> api_serve (env :: unit api_env) cs r s = Some (w, s') \<Longrightarrow> api_reachable s'"
| reach_reload: "api_reachable s \<Longrightarrow> api_reachable (reload (env :: unit api_env) f s)"

lemma reachable_inv: "api_reachable s \<Longrightarrow> api_inv s"
proof (induction rule: api_reachable.induct)
  case (reach_request s env cs r w s')
  then show ?case using api_serve_result[of s env cs r] by force
qed (auto dest: NewServer_inv reload_inv)

text \<open>
  C6: in every state that a started server reaches by requests and configuration reloads, its
  parts are well formed, its tokens are those of the active configuration, and no request of
  any kind makes it panic: every request is answered and leads to such a state again.
\<close>

lemma api_always_answers:
  assumes "api_reachable s"
  shows "sv_auth s = auth_of (sv_cfg s) \<and> api_inv s \<and>
     (\<forall>(env :: unit api_env) cs r. \<exists>w s'. api_serve env cs r s = Some (w, s') \<and> api_reachable s')"
proof -
  have inv: "api_inv s" using assms by (rule reachable_inv)
  moreover have "\<exists>w s'. api_serve env cs r s = Some (w, s') \<and> api_reachable s'" for env :: "unit api_env" and cs r
    using api_serve_result[OF inv, of env cs r] reach_request[OF assms, of env cs r] by blast
  ultimately show ?thesis by (simp add: api_inv_def)
qed

section \<open>Sessions\<close>

lemma route_methods:
  "list_all (\<lambda>r. public_endpoint (ro_target r) \<or> ro_method r \<noteq> ''OPTIONS'') api_routes"
  by (simp add: api_routes_def v1_def pprof_route_def public_endpoint_def)

lemma session_method:
  assumes "mux_find api_routes m path = Some (ep, bs)" "\<not> public_endpoint ep"
  shows "m \<noteq> ''OPTIONS''"
  using mux_find_in[OF assms(1)] route_methods assms(2) by (auto simp: list_all_iff)

text \<open>The response after the CORS headers.\<close>

definition cors_response :: "http_request \<Rightarrow> api \<Rightarrow> response \<Rightarrow> response" where
  "cors_response r s w =
     (let x = header_get (rq_headers r) ''Origin''; a = allowed_origin (sv_cfg s) x;
          w = (if x \<noteq> [] then add_header ''Vary'' ''Origin'' w else w)
      in if a \<noteq> [] then cors_headers a w else w)"

lemma corsMiddleware_pass:
  "rq_method r \<noteq> ''OPTIONS'' \<Longrightarrow> corsMiddleware h ctx r w s = h ctx r (cors_response r s w) s"
  by (simp add: corsMiddleware_def cors_response_def Let_def)

lemma cors_response_status [simp]: "rs_status (cors_response r s w) = rs_status w" "rs_body (cors_response r s w) = rs_body w"
  by (simp_all add: cors_response_def cors_headers_def add_header_def set_header_def Let_def)

lemma session_endpoint:
  assumes "\<not> public_endpoint ep" "rq_method r \<noteq> ''OPTIONS''"
  shows "\<exists>h w1. endpoint_handler env cs bs ep ctx r w s = authMiddleware env h ctx r w1 s \<and>
     rs_status w1 = rs_status w \<and> rs_body w1 = rs_body w"
proof -
  consider n where "ep = EpPprof n" | h where "session_handler env cs bs ep = Some h"
    using session_or_profile assms(1) by blast
  then show ?thesis
  proof cases
    case 1
    then show ?thesis by auto
  next
    case 2
    have "endpoint_handler env cs bs ep ctx r w s = authMiddleware env h ctx r (cors_response r s w) s"
      using assms(2) by (simp add: endpoint_session[OF 2] corsMiddleware_pass)
    then show ?thesis using cors_response_status by blast
  qed
qed

lemma audited_pass:
  assumes "api_inv s" "mux_handler env cs None r new_response s = Some (w, s)"
  shows "\<exists>a. api_serve env cs r s = Some (w, s\<lparr>sv_audit := a\<rparr>)"
  using api_serve_result[OF assms(1), of env cs r] assms(2) by auto


text \<open>
  C7: only administrators control the server: when a request changes the configuration, the
  signing key, the marketplace, the bans, the files or runs a firewall command, its bearer token
  was accepted and carries the role admin.
\<close>

lemma api_control_admin:
  assumes "api_serve env cs r s = Some (w, s')" "control s' \<noteq> control s"
  shows "\<exists>c. bearer env r s = Inr c \<and> cl_role c = ''admin''"
proof -
  obtain w1 s1 where s1: "mux_handler env cs None r new_response s = Some (w1, s1)" "control s1 = control s'"
    using assms(1) by (auto simp: api_serve_def auditMiddleware_def split: if_splits option.splits)
  then obtain ep bs where "endpoint_handler env cs bs ep None r new_response s = Some (w1, s1)"
    using assms(2) by (auto simp: mux_handler_def split: option.splits)
  from endpoint_control[OF this] show ?thesis using s1 assms(2) by simp
qed

text \<open>
  C24: every request leaves its trace: the newest entry of the audit log after a request names its
  method, path, remote address and outcome, but never who made it, because the middleware looks
  for the claims in the request from before the authentication.
\<close>

lemma api_audits:
  assumes "api_inv s" "api_serve env cs r s = Some (w, s')"
  shows "\<exists>a. sv_audit s' = Some a \<and>
     List.last (chronological (aud_pos a) (aud_events a)) =
       empty_event\<lparr>ae_timestamp := en_audit_time env, ae_actor := ''anonymous'', ae_actor_ip := rq_remote_addr r,
         ae_action := rq_method r @ '' '' @ rq_path r, ae_result := (if 400 \<le> sent_status w then ''blocked'' else ''allowed''),
         ae_details := ''HTTP '' @ itoa (int (sent_status w))\<rparr>"
proof -
  obtain s1 a a' where r: "api_inv s1" "sv_audit s1 = Some a"
    "record_event (en_audit_time env, audit_entry None r (sent_status w)) a = Some a'" "s' = s1\<lparr>sv_audit := Some a'\<rparr>"
    using api_serve_result[OF assms(1), of env cs r] assms(2) by force
  then have "audit_wf a" by (simp add: api_inv_def)
  from record_event_newest[OF this r(3)] show ?thesis
    using r(4) by (simp add: stamp_event_def audit_entry_def)
qed

section \<open>Login\<close>

definition bearer_prefix :: string where "bearer_prefix = ''Bearer ''"

text \<open>What the code relies on of the JWT library: a token signed with a key is valid under it until it expires.\<close>

definition jwt_round_trip :: "jwt_lib \<Rightarrow> bool" where
  "jwt_round_trip lib =
     (\<forall>key c token now keyfunc. jl_sign lib key c = Inr token \<and> now < cl_expires_at c \<and>
        keyfunc (SigningMethodHMAC ''HS256'') = Inr key \<longrightarrow> jl_parse lib now token keyfunc = Inr (c, True))"

lemma login_result:
  assumes "handleLogin env ctx q w s = Some (w', s')" "rs_status w = None" "rs_status w' = Some 200"
  obtains user password u token where
    "decode_first decode_login (rq_body q) = Some (user, password)"
    "find (\<lambda>u. us_username u = user) (au_users (ap_auth (cf_api (sv_cfg s)))) = Some u"
    "en_bcrypt env (us_password_hash u) password = None"
    "GenerateToken (en_jwt env) (en_uuid env) (en_now env) user ''admin'' login_scopes (sv_auth s) = Inr token"
    "w' = writeJSON 200 (DMap [(''token'', DStr token)]) w"
proof -
  obtain user password where d: "decode_first decode_login (rq_body q) = Some (user, password)"
    using assms by (cases "decode_first decode_login (rq_body q)") (auto simp: handleLogin_def)
  obtain u where u: "find (\<lambda>u. us_username u = user) (au_users (ap_auth (cf_api (sv_cfg s)))) = Some u"
    "en_bcrypt env (us_password_hash u) password = None"
    using assms d by (auto simp: handleLogin_def split: if_splits option.splits)
  obtain token where "GenerateToken (en_jwt env) (en_uuid env) (en_now env) user ''admin'' login_scopes (sv_auth s) = Inr token"
    "w' = writeJSON 200 (DMap [(''token'', DStr token)]) w"
    using assms d u by (auto simp: handleLogin_def split: if_splits sum.splits)
  with d u that show thesis by blast
qed

lemma bearer_token:
  assumes "jwt_round_trip (en_jwt env)" "GenerateToken (en_jwt env) uid now user role scopes m = Inr token"
    "sv_auth s = m" "\<not> oidc_enabled (sv_oidc s)" "en_now env < jl_numeric_date (en_jwt env) (now + am_ttl m)"
    "header_get (rq_headers r) ''Authorization'' = bearer_prefix @ token"
  shows "bearer env r s = Inr (token_claims (en_jwt env) uid now user role scopes m)"
proof -
  let ?c = "token_claims (en_jwt env) uid now user role scopes m"
  have "jl_parse (en_jwt env) (en_now env) token (signing_key m) = Inr (?c, True)"
    using assms(1,2,5) unfolding jwt_round_trip_def GenerateToken_def
    by (auto simp: signing_key_def token_claims_def)
  then have "authenticate env token s = Inr ?c"
    using assms(3,4) by (simp add: authenticate_def ValidateToken_def)
  moreover have "bearer_prefix @ token \<noteq> []" "token \<noteq> bearer_prefix @ token" by (simp_all add: bearer_prefix_def)
  ultimately show ?thesis
    unfolding bearer_def assms(6) Let_def bearer_prefix_def[symmetric] trim_prefix_append by simp
qed

lemma route_ingest: "mux_find api_routes ''POST'' ''/api/v1/events'' = Some (EpIngest, [])"
  by code_simp

lemma ingest_needs_scope:
  assumes "api_inv s" "rq_method r = ''POST''" "rq_path r = ''/api/v1/events''" "bearer env r s = Inr c"
    "''events:write'' \<notin> set (cl_scopes c)"
  shows "\<exists>w a. api_serve env cs r s = Some (w, s\<lparr>sv_audit := a\<rparr>) \<and> sent_status w = 403"
proof -
  let ?w = "writeError 403 ''insufficient permissions'' (cors_response r s new_response)"
  have "\<not> list_ex (\<lambda>g. g = ''events:write'') (cl_scopes c)" using assms(5) by (auto simp: list_ex_iff)
  then have "mux_handler env cs None r new_response s = Some (?w, s)"
    using assms(2-4) by (simp add: mux_handler_def route_ingest corsMiddleware_pass authMiddleware_bearer requireScope_def)
  moreover have "sent_status ?w = 403" by (simp add: sent_status_def new_response_def)
  ultimately show ?thesis using audited_pass[OF assms(1)] by blast
qed

text \<open>
  C23: a login and its session: a login that succeeds checked the password of the first
  configured user of that name, and the token in its answer, presented before it expires to a
  server with the same key and no OIDC provider, is accepted as an administrator's; but it does
  not carry the scope that the event ingest asks for, which refuses it with 403 whatever the event.
\<close>

lemma login_session:
  assumes "handleLogin env ctx q w s = Some (w', s')" "rs_status w = None" "rs_status w' = Some 200"
    "jwt_round_trip (en_jwt env)"
  shows "\<exists>user password u token.
     decode_first decode_login (rq_body q) = Some (user, password) \<and>
     find (\<lambda>u. us_username u = user) (au_users (ap_auth (cf_api (sv_cfg s)))) = Some u \<and>
     en_bcrypt env (us_password_hash u) password = None \<and>
     w' = writeJSON 200 (DMap [(''token'', DStr token)]) w \<and>
     (\<forall>(env2 :: 'a api_env) s2 r. en_jwt env2 = en_jwt env \<and> sv_auth s2 = sv_auth s \<and> \<not> oidc_enabled (sv_oidc s2) \<and>
        en_now env2 < jl_numeric_date (en_jwt env) (en_now env + am_ttl (sv_auth s)) \<and>
        header_get (rq_headers r) ''Authorization'' = bearer_prefix @ token \<longrightarrow>
        (\<exists>c. bearer env2 r s2 = Inr c \<and> cl_role c = ''admin'' \<and> cl_username c = user) \<and>
        (api_inv s2 \<and> rq_method r = ''POST'' \<and> rq_path r = ''/api/v1/events'' \<longrightarrow>
          (\<exists>w2 a. api_serve env2 cs r s2 = Some (w2, s2\<lparr>sv_audit := a\<rparr>) \<and> sent_status w2 = 403)))"
proof -
  obtain user password u token where l: "decode_first decode_login (rq_body q) = Some (user, password)"
    "find (\<lambda>u. us_username u = user) (au_users (ap_auth (cf_api (sv_cfg s)))) = Some u"
    "en_bcrypt env (us_password_hash u) password = None"
    "GenerateToken (en_jwt env) (en_uuid env) (en_now env) user ''admin'' login_scopes (sv_auth s) = Inr token"
    "w' = writeJSON 200 (DMap [(''token'', DStr token)]) w"
    using login_result[OF assms(1-3)] by blast
  let ?c = "token_claims (en_jwt env) (en_uuid env) (en_now env) user ''admin'' login_scopes (sv_auth s)"
  have c: "cl_role ?c = ''admin''" "cl_username ?c = user" "''events:write'' \<notin> set (cl_scopes ?c)"
    by (simp_all add: token_claims_def login_scopes_def)
  have b: "bearer env2 r s2 = Inr ?c"
    if "en_jwt env2 = en_jwt env" "sv_auth s2 = sv_auth s" "\<not> oidc_enabled (sv_oidc s2)"
      "en_now env2 < jl_numeric_date (en_jwt env) (en_now env + am_ttl (sv_auth s))"
      "header_get (rq_headers r) ''Authorization'' = bearer_prefix @ token" for env2 :: "'a api_env" and s2 r
    using bearer_token[of env2 "en_uuid env" "en_now env" user "''admin''" login_scopes "sv_auth s" token s2 r]
      assms(4) l(4) that by simp
  show ?thesis
    using l(1,2,3,5) b c ingest_needs_scope[OF _ _ _ b c(3)] by blast
qed

end
