(* ===== verification/Agent.thy ===== *)
theory Agent
  imports Firewall EventWire GoMux
begin

text \<open>
  \<^verbatim>\<open>cmd/waf-agent/main.go\<close>: the host agent. It counts blocked events per address in a sliding
  window, reads the event stream of the management API, blocks an address at the threshold,
  and serves the firewall to clients that hold its key. The commands run so far are part of
  its state; times are nanoseconds.
\<close>

section \<open>Event tracker\<close>

record eventTracker =
  et_counts :: "string \<Rightarrow> int list option"
  et_threshold :: int
  et_window :: int

definition newEventTracker :: "int \<Rightarrow> int \<Rightarrow> eventTracker" where
  "newEventTracker threshold windowSec =
     \<lparr>et_counts = Map.empty, et_threshold = threshold, et_window = windowSec * 10 ^ 9\<rparr>"

definition after_cutoff :: "int \<Rightarrow> int list \<Rightarrow> int list" where
  "after_cutoff cutoff ts = filter (\<lambda>t. cutoff < t) ts"

definition tracker_record :: "int \<Rightarrow> string \<Rightarrow> eventTracker \<Rightarrow> bool \<times> eventTracker" where
  "tracker_record now ip t =
     (let events = (case et_counts t ip of None \<Rightarrow> [] | Some ts \<Rightarrow> ts);
          valid = after_cutoff (now - et_window t) events @ [now]
      in (et_threshold t \<le> int (length valid), t\<lparr>et_counts := (et_counts t)(ip \<mapsto> valid)\<rparr>))"

definition tracker_cleanup :: "int \<Rightarrow> eventTracker \<Rightarrow> eventTracker" where
  "tracker_cleanup now t =
     t\<lparr>et_counts := (\<lambda>ip. case et_counts t ip of
         None \<Rightarrow> None
       | Some ts \<Rightarrow> let valid = after_cutoff (now - et_window t) ts in if valid = [] then None else Some valid)\<rparr>"

section \<open>The agent\<close>

record agent =
  ga_cfg :: AgentConfig
  ga_mgr :: manager
  ga_tracker :: eventTracker
  ga_log :: cmd_log

text \<open>The start: the firewall comes up before the key is checked.\<close>

definition insecure_key :: "string \<Rightarrow> bool" where
  "insecure_key key = (key = [] \<or> key = ''change-me-in-production'' \<or> length key < 32)"

definition runAgent :: "cmd_env \<Rightarrow> AgentConfig \<Rightarrow> cmd_log \<Rightarrow> (string + agent) \<times> cmd_log" where
  "runAgent exec cfg cl =
     (case NewManager (ag_firewall cfg) of
        Inl e \<Rightarrow> (Inl (''initializing firewall manager: '' @ e), cl)
      | Inr m \<Rightarrow>
         (case manager_start m exec cl of
            (Some e, cl) \<Rightarrow> (Inl (''starting firewall manager: '' @ e), cl)
          | (None, cl) \<Rightarrow>
              let tr = newEventTracker (eb_block_threshold (ag_event_broker cfg)) (eb_window_seconds (ag_event_broker cfg))
              in if insecure_key (ag_api_key cfg) then (Inl ''insecure API key configuration'', cl)
                 else (Inr \<lparr>ga_cfg = cfg, ga_mgr = m, ga_tracker = tr, ga_log = cl\<rparr>, cl)))"

definition block_ip :: "cmd_env \<Rightarrow> string \<Rightarrow> agent \<Rightarrow> string option \<times> agent" where
  "block_ip exec ip a =
     (case BlockIP (ga_mgr a) ip exec (ga_log a) of (err, cl) \<Rightarrow> (err, a\<lparr>ga_log := cl\<rparr>))"

definition unblock_ip :: "cmd_env \<Rightarrow> string \<Rightarrow> agent \<Rightarrow> string option \<times> agent" where
  "unblock_ip exec ip a =
     (case UnblockIP (ga_mgr a) ip exec (ga_log a) of (err, cl) \<Rightarrow> (err, a\<lparr>ga_log := cl\<rparr>))"

section \<open>Reading the event stream\<close>

text \<open>One event: a failed block is logged and forgotten.\<close>

definition handle_event :: "cmd_env \<Rightarrow> int \<Rightarrow> waf_event \<Rightarrow> agent \<Rightarrow> agent" where
  "handle_event exec now e a =
     (if ev_type e \<noteq> TypeBlocked then a
      else if ev_remote_ip e = [] then a
      else case tracker_record now (ev_remote_ip e) (ga_tracker a) of
        (hit, tr) \<Rightarrow>
          let a = a\<lparr>ga_tracker := tr\<rparr>
          in if hit then snd (block_ip exec (ev_remote_ip e) a) else a)"

definition data_prefix :: string where "data_prefix = ''data: ''"

definition line_event :: "(string \<Rightarrow> int option) \<Rightarrow> string \<Rightarrow> waf_event option" where
  "line_event pt line =
     (let line = trim_space line
      in if has_prefix line data_prefix then parse_event pt (trim_prefix line data_prefix) else None)"

definition handle_line :: "cmd_env \<Rightarrow> (string \<Rightarrow> int option) \<Rightarrow> int \<times> string \<Rightarrow> agent \<Rightarrow> agent" where
  "handle_line exec pt x a =
     (case line_event pt (snd x) of None \<Rightarrow> a | Some e \<Rightarrow> handle_event exec (fst x) e a)"

text \<open>
  The complete lines of a body; an unfinished last line is dropped. A stream is given as the
  lines that arrived, each with its time; a cancelled context ends it earlier.
\<close>

definition stream_lines :: "string \<Rightarrow> string list" where
  "stream_lines body = butlast (str_split (CHR 0x0A) body)"

definition readSSEStream :: "cmd_env \<Rightarrow> (string \<Rightarrow> int option) \<Rightarrow> (int \<times> string) list \<Rightarrow> agent \<Rightarrow> agent" where
  "readSSEStream exec pt ls a = fold (handle_line exec pt) ls a"

text \<open>The connection loop over the outcomes of its attempts, until the context ends.\<close>

definition broker_url :: "AgentConfig \<Rightarrow> string" where
  "broker_url cfg = trim_right_byte (CHR ''/'') (eb_address (ag_event_broker cfg)) @ ''/api/v1/events''"

definition broker_headers :: "AgentConfig \<Rightarrow> header" where
  "broker_headers cfg =
     (if eb_auth_token (ag_event_broker cfg) \<noteq> []
      then header_set ''Authorization'' (''Bearer '' @ eb_auth_token (ag_event_broker cfg)) Map.empty
      else if ag_api_key cfg \<noteq> [] then header_set ''Authorization'' (''Bearer '' @ ag_api_key cfg) Map.empty
      else Map.empty)"

datatype attempt = RequestFailed | ConnectFailed | Answered nat "(int \<times> string) list"

fun connectEventBroker :: "cmd_env \<Rightarrow> (string \<Rightarrow> int option) \<Rightarrow> attempt list \<Rightarrow> agent \<Rightarrow> agent" where
  "connectEventBroker exec pt [] a = a"
| "connectEventBroker exec pt (Answered status ls # atts) a =
     connectEventBroker exec pt atts (if status \<noteq> 200 then a else readSSEStream exec pt ls a)"
| "connectEventBroker exec pt (_ # atts) a = connectEventBroker exec pt atts a"

section \<open>Serving the firewall\<close>

definition writeJSON :: "response \<Rightarrow> nat \<Rightarrow> dyn \<Rightarrow> response" where
  "writeJSON w status data =
     write_piece (Json data) (write_header status (set_header ''Content-Type'' ''application/json'' w))"

definition error_json :: "string \<Rightarrow> dyn" where
  "error_json msg = DMap [(''error'', DStr msg)]"

definition presented_key :: "http_request \<Rightarrow> string" where
  "presented_key r =
     (let key = header_get (rq_headers r) ''X-API-Key''
      in if key \<noteq> [] then key
         else let auth = header_get (rq_headers r) ''Authorization''
              in if 7 < length auth \<and> take 7 auth = ''Bearer '' then drop 7 auth else auth)"

definition authorized :: "agent \<Rightarrow> http_request \<Rightarrow> bool" where
  "authorized a r = (ag_api_key (ga_cfg a) = [] \<or> presented_key r = ag_api_key (ga_cfg a))"

definition authMiddleware ::
    "(http_request \<Rightarrow> response \<Rightarrow> agent \<Rightarrow> response \<times> agent) \<Rightarrow> http_request \<Rightarrow> response \<Rightarrow> agent \<Rightarrow> response \<times> agent" where
  "authMiddleware next r w a =
     (if authorized a r then next r w a else (writeJSON w 401 (error_json ''invalid API key''), a))"

definition handleHealth :: "response \<Rightarrow> response" where
  "handleHealth w = writeJSON w 200 (DMap [(''status'', DStr ''ok'')])"

text \<open>A rule has no field tags, so its members have the names of the fields.\<close>

definition fw_rule_json :: "fw_rule \<Rightarrow> dyn" where
  "fw_rule_json r =
     DMap [(''Table'', DStr (fr_table r)), (''Chain'', DStr (fr_chain r)), (''Protocol'', DStr (fr_protocol r)),
           (''Port'', DInt (fr_port r)), (''Source'', DStr (fr_source r)), (''Action'', DStr (fr_action r)),
           (''Comment'', DStr (fr_comment r))]"

definition handleListRules :: "cmd_env \<Rightarrow> response \<Rightarrow> agent \<Rightarrow> response \<times> agent" where
  "handleListRules exec w a =
     (case manager_rules (ga_mgr a) exec (ga_log a) of
        (Inl err, cl) \<Rightarrow> (writeJSON w 500 (error_json err), a\<lparr>ga_log := cl\<rparr>)
      | (Inr rules, cl) \<Rightarrow> (writeJSON w 200 (DList (map fw_rule_json rules)), a\<lparr>ga_log := cl\<rparr>))"

fun decode_block :: "dyn \<Rightarrow> string option" where
  "decode_block (DMap ps) =
     (let (ip, g1) = field conv_string ''ip'' [] ps;
          (port, g2) = field conv_int ''port'' 0 ps;
          (proto, g3) = field conv_string ''protocol'' [] ps
      in if g1 \<and> g2 \<and> g3 then Some ip else None)"
| "decode_block DNull = Some []"
| "decode_block _ = None"

definition handleBlockIP :: "cmd_env \<Rightarrow> http_request \<Rightarrow> response \<Rightarrow> agent \<Rightarrow> response \<times> agent" where
  "handleBlockIP exec r w a =
     (case decode_first decode_block (rq_body r) of
        None \<Rightarrow> (writeJSON w 400 (error_json ''invalid request body''), a)
      | Some ip \<Rightarrow>
          if ip = [] then (writeJSON w 400 (error_json ''ip is required''), a)
          else case block_ip exec ip a of
            (Some err, a) \<Rightarrow> (writeJSON w 500 (error_json err), a)
          | (None, a) \<Rightarrow> (writeJSON w 200 (DMap [(''ip'', DStr ip), (''status'', DStr ''blocked'')]), a))"

definition handleUnblockIP :: "cmd_env \<Rightarrow> string \<Rightarrow> response \<Rightarrow> agent \<Rightarrow> response \<times> agent" where
  "handleUnblockIP exec ip w a =
     (if ip = [] then (writeJSON w 400 (error_json ''ip is required''), a)
      else case unblock_ip exec ip a of
        (Some err, a) \<Rightarrow> (writeJSON w 500 (error_json err), a)
      | (None, a) \<Rightarrow> (writeJSON w 200 (DMap [(''ip'', DStr ip), (''status'', DStr ''unblocked'')]), a))"

datatype agent_endpoint = AgentHealth | AgentListRules | AgentBlock | AgentUnblock

definition agent_routes :: "agent_endpoint route list" where
  "agent_routes =
     [\<lparr>ro_method = ''GET'', ro_path = [Lit ''health''], ro_target = AgentHealth\<rparr>,
      \<lparr>ro_method = ''GET'', ro_path = [Lit ''api'', Lit ''v1'', Lit ''firewall'', Lit ''rules''], ro_target = AgentListRules\<rparr>,
      \<lparr>ro_method = ''POST'', ro_path = [Lit ''api'', Lit ''v1'', Lit ''firewall'', Lit ''block''], ro_target = AgentBlock\<rparr>,
      \<lparr>ro_method = ''DELETE'', ro_path = [Lit ''api'', Lit ''v1'', Lit ''firewall'', Lit ''block'', Wild ''ip''],
       ro_target = AgentUnblock\<rparr>]"

fun agent_handler ::
    "cmd_env \<Rightarrow> agent_endpoint \<Rightarrow> (string \<times> string) list \<Rightarrow> http_request \<Rightarrow> response \<Rightarrow> agent \<Rightarrow> response \<times> agent" where
  "agent_handler exec AgentHealth bs r w a = (handleHealth w, a)"
| "agent_handler exec AgentListRules bs r w a = authMiddleware (\<lambda>r. handleListRules exec) r w a"
| "agent_handler exec AgentBlock bs r w a = authMiddleware (handleBlockIP exec) r w a"
| "agent_handler exec AgentUnblock bs r w a = authMiddleware (\<lambda>r. handleUnblockIP exec (path_value bs ''ip'')) r w a"

definition agent_serve :: "cmd_env \<Rightarrow> http_request \<Rightarrow> response \<Rightarrow> agent \<Rightarrow> response \<times> agent" where
  "agent_serve exec r w a =
     (case mux_find agent_routes (rq_method r) (rq_path r) of
        None \<Rightarrow> (write_header (mux_missing agent_routes (rq_path r)) w, a)
      | Some (ep, bs) \<Rightarrow> agent_handler exec ep bs r w a)"

section \<open>The sliding window\<close>

datatype tracker_op = OpRecord int string | OpCleanup int

fun op_time :: "tracker_op \<Rightarrow> int" where
  "op_time (OpRecord t _) = t" | "op_time (OpCleanup t) = t"

fun tracker_step :: "tracker_op \<Rightarrow> eventTracker \<Rightarrow> eventTracker" where
  "tracker_step (OpRecord now ip) t = snd (tracker_record now ip t)"
| "tracker_step (OpCleanup now) t = tracker_cleanup now t"

text \<open>The times at which an address was recorded.\<close>

fun history :: "string \<Rightarrow> tracker_op list \<Rightarrow> int list" where
  "history ip [] = []"
| "history ip (OpRecord t ip' # os) = (if ip' = ip then t # history ip os else history ip os)"
| "history ip (OpCleanup t # os) = history ip os"

lemma history_append [simp]: "history ip (xs @ ys) = history ip xs @ history ip ys"
  by (induction ip xs rule: history.induct) auto

definition stored :: "string \<Rightarrow> eventTracker \<Rightarrow> int list" where
  "stored ip t = (case et_counts t ip of None \<Rightarrow> [] | Some ts \<Rightarrow> ts)"

lemma after_cutoff_idem: "c' \<le> c \<Longrightarrow> after_cutoff c (after_cutoff c' ts) = after_cutoff c ts"
  by (auto simp: after_cutoff_def intro!: filter_cong)

lemma after_cutoff_append [simp]: "after_cutoff c (xs @ ys) = after_cutoff c xs @ after_cutoff c ys"
  by (simp add: after_cutoff_def)

lemma stored_record:
  "stored k (snd (tracker_record now ip t)) =
     (if k = ip then after_cutoff (now - et_window t) (stored ip t) @ [now] else stored k t)"
  by (simp add: stored_def tracker_record_def Let_def)

lemma stored_cleanup: "stored k (tracker_cleanup now t) = after_cutoff (now - et_window t) (stored k t)"
  by (simp add: stored_def tracker_cleanup_def Let_def after_cutoff_def split: option.split)

lemma tracker_step_params [simp]:
  "et_window (tracker_step x t) = et_window t" "et_threshold (tracker_step x t) = et_threshold t"
  by (cases x; simp add: tracker_record_def tracker_cleanup_def Let_def)+

lemma fold_tracker_params [simp]:
  "et_window (fold tracker_step os t) = et_window t" "et_threshold (fold tracker_step os t) = et_threshold t"
  by (induction os arbitrary: t) auto

text \<open>Past the window before the last operation, what is stored is the history.\<close>

lemma stored_history:
  assumes "sorted (map op_time os)" "list_all (\<lambda>x. op_time x \<le> now) os"
  shows "after_cutoff (now - et_window t) (stored ip (fold tracker_step os t)) =
     after_cutoff (now - et_window t) (stored ip t) @ after_cutoff (now - et_window t) (history ip os)"
  using assms
proof (induction os rule: rev_induct)
  case Nil
  then show ?case by (simp add: after_cutoff_def)
next
  case (snoc x os)
  let ?t = "fold tracker_step os t"
  have le: "op_time x \<le> now" "sorted (map op_time os)" "list_all (\<lambda>x. op_time x \<le> now) os"
    using snoc.prems by (auto simp: sorted_append)
  note ih = snoc.IH[OF le(2,3)]
  show ?case
  proof (cases x)
    case (OpRecord u k)
    then show ?thesis using ih le(1)
      by (auto simp: stored_record after_cutoff_idem) (auto simp: after_cutoff_def)
  next
    case (OpCleanup u)
    then show ?thesis using ih le(1) by (simp add: stored_cleanup after_cutoff_idem)
  qed
qed

lemma tracker_hit:
  assumes "sorted (map op_time os @ [now])"
  shows "fst (tracker_record now ip (fold tracker_step os (newEventTracker threshold windowSec))) \<longleftrightarrow>
     threshold \<le> 1 + int (length (filter (\<lambda>t. now - windowSec * 10 ^ 9 < t) (history ip os)))"
proof -
  let ?n = "newEventTracker threshold windowSec"
  have "list_all (\<lambda>x. op_time x \<le> now) os" "sorted (map op_time os)"
    using assms by (auto simp: sorted_append list_all_iff)
  from stored_history[OF this(2,1), of ?n ip]
  have "after_cutoff (now - windowSec * 10 ^ 9) (stored ip (fold tracker_step os ?n)) =
      after_cutoff (now - windowSec * 10 ^ 9) (history ip os)"
    by (simp add: newEventTracker_def stored_def after_cutoff_def)
  then show ?thesis
    by (simp add: tracker_record_def Let_def newEventTracker_def after_cutoff_def stored_def add.commute)
qed



section \<open>The stream carries the events\<close>

lemma stream_lines_line: "CHR 0x0A \<notin> set w \<Longrightarrow> stream_lines (w @ CHR 0x0A # s) = w # stream_lines s"
  by (simp add: stream_lines_def str_split_append)

lemma stream_lines_blank: "stream_lines (CHR 0x0A # s) = [] # stream_lines s"
  using stream_lines_line[of "[]" s] by simp

lemma printable_event_text:
  "plain_event ft e \<Longrightarrow> printable (event_text ft fn e)"
  unfolding event_text_def
  by (rule printable_json_object)
    (use event_keys_ascii in \<open>auto simp: plain_event_def string_members_def event_fields_def omit_empty_def
      intro!: printable_json_string\<close>)

lemma trim_printable:
  assumes "printable s" "s \<noteq> []" "hd s \<noteq> CHR '' ''" "List.last s \<noteq> CHR '' ''"
  shows "trim_space s = s"
proof -
  have b: "\<not> is_space (byte c)" if "c \<in> set s" "c \<noteq> CHR '' ''" for c
  proof -
    have "32 \<le> byte c" "byte c < 128" using assms(1) that(1) by (auto simp: printable_def list_all_iff)
    moreover have "byte c \<noteq> byte (CHR '' '')" using that(2) by (simp only: byte_eq_iff not_False_eq_True)
    ultimately show ?thesis by (simp add: is_space_def)
  qed
  show ?thesis
    using trim_space_pad[of "[]" s] b[of "hd s"] b[of "List.last s"] assms printable_ascii
    by (simp add: ascii_def)
qed

text \<open>The lines of one frame.\<close>

definition data_line :: "(int \<Rightarrow> string) \<Rightarrow> (float64 \<Rightarrow> string) \<Rightarrow> waf_event \<Rightarrow> string" where
  "data_line ft fn e = data_prefix @ event_text ft fn e"

text \<open>Frames of any printable data, as lines.\<close>

lemma frames_data_lines:
  "list_all printable ds \<Longrightarrow>
   stream_lines (concat (map sse_frame ds)) = concat (map (\<lambda>d. [data_prefix @ d, []]) ds)"
proof (induction ds)
  case (Cons d ds)
  have "CHR 0x0A \<notin> set (data_prefix @ d)"
    using Cons.prems by (intro printable_no_newline) (simp add: data_prefix_def)
  from stream_lines_line[OF this] show ?case
    using Cons by (simp add: sse_frame_def data_prefix_def newline2_def stream_lines_blank)
qed (simp add: stream_lines_def)

lemma greeting_lines: "stream_lines (connected @ s) = '': connected'' # [] # stream_lines s"
  using stream_lines_line[of "'': connected''"] by (simp add: connected_def newline2_def stream_lines_blank)

lemma data_event:
  assumes "printable d" "d \<noteq> []" "List.last d \<noteq> CHR '' ''"
  shows "line_event pt (data_prefix @ d) = parse_event pt d"
proof -
  have "trim_space (data_prefix @ d) = data_prefix @ d"
    using assms by (intro trim_printable) (simp_all add: data_prefix_def)
  then show ?thesis
    unfolding line_event_def Let_def by (simp only: has_prefix_append trim_prefix_append if_True)
qed

lemma data_line_event:
  assumes "plain_event ft e" "pt (ft (ev_timestamp e)) = Some (ev_timestamp e)"
  shows "line_event pt (data_line ft fn e) = Some e"
  using data_event[OF printable_event_text[OF assms(1)], of fn pt] parse_event_text[where ft = ft and fn = fn and pt = pt and e = e] assms
  by (simp add: data_line_def event_text_def json_object_def)

lemma blank_line_event: "line_event pt [] = None" "line_event pt '': connected'' = None"
proof -
  have "trim_space '': connected'' = '': connected''" by (rule trim_printable) simp_all
  then show "line_event pt '': connected'' = None"
    by (simp add: line_event_def data_prefix_def has_prefix_def)
  show "line_event pt [] = None"
    by (simp add: line_event_def data_prefix_def has_prefix_def trim_space_ascii ascii_def)
qed

definition stream_text :: "(int \<Rightarrow> string) \<Rightarrow> (float64 \<Rightarrow> string) \<Rightarrow> waf_event list \<Rightarrow> string" where
  "stream_text ft fn es = connected @ concat (map (\<lambda>e. sse_frame (event_text ft fn e)) es)"

lemma stream_events:
  assumes "list_all (plain_event ft) es" "list_all (\<lambda>e. pt (ft (ev_timestamp e)) = Some (ev_timestamp e)) es"
  shows "List.map_filter (line_event pt) (stream_lines (stream_text ft fn es)) = es"
proof -
  have "list_all printable (map (event_text ft fn) es)"
    using assms(1) by (simp add: list_all_iff printable_event_text)
  then have "stream_lines (concat (map sse_frame (map (event_text ft fn) es))) =
      concat (map (\<lambda>d. [data_prefix @ d, []]) (map (event_text ft fn) es))"
    by (rule frames_data_lines)
  then have l: "stream_lines (stream_text ft fn es) = '': connected'' # [] # concat (map (\<lambda>e. [data_line ft fn e, []]) es)"
    by (simp add: stream_text_def greeting_lines data_line_def comp_def)
  have "List.map_filter (line_event pt) (concat (map (\<lambda>e. [data_line ft fn e, []]) es)) = es"
    using assms by (induction es) (simp_all add: map_filter_simps blank_line_event data_line_event)
  then show ?thesis unfolding l by (simp add: map_filter_simps blank_line_event)
qed

text \<open>
  the event stream is lossless: from the text that the stream handlers write for a list of
  events with ASCII fields, the agent reads exactly these events, in order, whatever is in
  their fields (quotes, line breaks, HTML characters), when times read back as written.
\<close>

lemma stream_round_trip:
  assumes "list_all (plain_event ft) es" "list_all (\<lambda>e. pt (ft (ev_timestamp e)) = Some (ev_timestamp e)) es"
  shows "List.map_filter (line_event pt) (stream_lines (stream_text ft fn es)) = es"
  using assms by (rule stream_events)

definition wire_event :: "string \<Rightarrow> waf_event" where
  "wire_event ip =
     \<lparr>ev_type = TypeBlocked, ev_timestamp = 5, ev_method = ''GET'', ev_path = ''/a<b>&'', ev_remote_ip = ip,
      ev_rule_id = ''r'', ev_reason = [CHR 0x22, CHR 0x0A], ev_payload = DNull\<rparr>"

definition sample_ft :: "int \<Rightarrow> string" where "sample_ft t = itoa t"

lemma wire_event_plain: "plain_event sample_ft (wire_event ''10.0.0.9'')"
proof -
  have "list_all ascii [''blocked'', sample_ft 5, ''GET'', ''/a<b>&'', ''10.0.0.9'', ''r'', [CHR 0x22, CHR 0x0A]]"
    by code_simp
  then show ?thesis by (simp add: plain_event_def wire_event_def event_type_of_def)
qed

lemma wire_event_time: "atoi (sample_ft (ev_timestamp (wire_event ip))) = Some (ev_timestamp (wire_event ip))"
  by (simp add: sample_ft_def wire_event_def atoi_itoa)

lemma stream_round_trip_witness:
  "List.map_filter (line_event atoi) (stream_lines (stream_text sample_ft (\<lambda>_. []) [wire_event ''10.0.0.9''])) =
     [wire_event ''10.0.0.9'']"
  by (rule stream_round_trip) (simp_all add: wire_event_plain wire_event_time)

end
