(* ===== verification/AgentRuns.thy ===== *)
theory AgentRuns
  imports Agent
begin

text \<open>
  What the agent of \<^theory_text>\<open>Agent\<close> does when it runs: the events of a stream against the tracker
  and the firewall, and the access to its own interface.
\<close>

section \<open>From the stream to the firewall\<close>

text \<open>Reading lines is handling the events they carry.\<close>

fun timed_events :: "(string \<Rightarrow> int option) \<Rightarrow> (int \<times> string) list \<Rightarrow> (int \<times> waf_event) list" where
  "timed_events pt [] = []"
| "timed_events pt ((t, l) # ls) =
     (case line_event pt l of None \<Rightarrow> timed_events pt ls | Some e \<Rightarrow> (t, e) # timed_events pt ls)"

lemma read_timed: "readSSEStream exec pt ls a = fold (\<lambda>(t, e). handle_event exec t e) (timed_events pt ls) a"
  unfolding readSSEStream_def
  by (induction pt ls arbitrary: a rule: timed_events.induct) (auto simp: handle_line_def split: option.split)

lemma timed_events_snd: "map snd (timed_events pt ls) = List.map_filter (line_event pt) (map snd ls)"
  by (induction pt ls rule: timed_events.induct) (auto simp: map_filter_simps split: option.split)

lemma timed_events_times: "x \<in> set (timed_events pt ls) \<Longrightarrow> fst x \<in> set (map fst ls)"
  by (induction pt ls rule: timed_events.induct) (auto split: option.splits)

lemma timed_events_sorted: "sorted (map fst ls) \<Longrightarrow> sorted (map fst (timed_events pt ls))"
proof (induction pt ls rule: timed_events.induct)
  case (2 pt t l ls)
  have "t \<le> fst x" if "x \<in> set (timed_events pt ls)" for x
    using timed_events_times[OF that] "2.prems" by auto
  then show ?case using 2 by (auto split: option.split)
qed simp

text \<open>The command that blocks an address with nftables.\<close>

definition nft_block :: "string \<Rightarrow> string \<times> string list" where
  "nft_block ip = (''nft'', [''add'', ''rule'', ''ip'', ''waffynx'', ''input'', ''ip'', ''saddr'', ip, ''drop'', ''comment'',
     CHR 0x22 # ''Waffynx block'' @ [CHR 0x22]])"

lemma nft_block_ip:
  assumes "mg_backend (ga_mgr a) = NFTablesBackend" "ip \<noteq> []"
  shows "snd (block_ip exec ip a) = a\<lparr>ga_log := ga_log a @ [nft_block ip]\<rparr>"
  using assms
  by (simp add: block_ip_def BlockIP_def NFTablesBackend_def run_err_eq nft_add_args_def block_rule_def nft_block_def split_beta)

lemma handle_event_blocked:
  assumes "ev_type e = TypeBlocked" "ev_remote_ip e = ip" "ip \<noteq> []" "mg_backend (ga_mgr a) = NFTablesBackend"
  shows "handle_event exec t e a =
     a\<lparr>ga_tracker := snd (tracker_record t ip (ga_tracker a)),
       ga_log := ga_log a @ (if fst (tracker_record t ip (ga_tracker a)) then [nft_block ip] else [])\<rparr>"
  using assms nft_block_ip[of "a\<lparr>ga_tracker := snd (tracker_record t ip (ga_tracker a))\<rparr>" ip exec]
  by (simp add: handle_event_def split_beta Let_def)

lemma history_records: "history ip (map (\<lambda>x. OpRecord (fst x) ip) xs) = map fst xs"
  by (induction xs) auto

lemma blocked_run:
  assumes "list_all (\<lambda>(t, e). ev_type e = TypeBlocked \<and> ev_remote_ip e = ip) tes" "ip \<noteq> []"
    and "mg_backend (ga_mgr a) = NFTablesBackend" "ga_tracker a = newEventTracker threshold windowSec"
    and "sorted (map fst tes)" "list_all (\<lambda>t. fst (List.last tes) - windowSec * 10 ^ 9 < t) (map fst tes)" "1 \<le> threshold"
  shows "let a' = fold (\<lambda>(t, e). handle_event exec t e) tes a in
     ga_mgr a' = ga_mgr a \<and>
     ga_tracker a' = fold tracker_step (map (\<lambda>x. OpRecord (fst x) ip) tes) (newEventTracker threshold windowSec) \<and>
     ga_log a' = ga_log a @ replicate (length tes - (nat threshold - 1)) (nft_block ip)"
  using assms
proof (induction tes rule: rev_induct)
  case (snoc x tes)
  obtain t e where x: "x = (t, e)" by (cases x)
  let ?a = "fold (\<lambda>(t, e). handle_event exec t e) tes a"
  let ?os = "map (\<lambda>x. OpRecord (fst x) ip) tes"
  have win: "list_all (\<lambda>u. t - windowSec * 10 ^ 9 < u) (map fst tes)" "sorted (map fst tes)"
    "list_all (\<lambda>u. u \<le> t) (map fst tes)"
    using snoc.prems x by (auto simp: sorted_append list_all_iff)
  have lastwin: "list_all (\<lambda>u. fst (List.last tes) - windowSec * 10 ^ 9 < u) (map fst tes)"
  proof (cases tes rule: rev_cases)
    case (snoc ys y)
    then have "fst y \<le> t" using win(3) by simp
    then show ?thesis using win(1) snoc by (auto simp: list_all_iff)
  qed simp
  have ih: "ga_mgr ?a = ga_mgr a" "ga_tracker ?a = fold tracker_step ?os (newEventTracker threshold windowSec)"
    "ga_log ?a = ga_log a @ replicate (length tes - (nat threshold - 1)) (nft_block ip)"
    using snoc.IH[OF _ snoc.prems(2,3,4) win(2) lastwin snoc.prems(7)] snoc.prems(1) by (simp_all add: Let_def)
  have "sorted (map op_time ?os @ [t])"
    using win(2,3) by (simp add: sorted_append list_all_iff comp_def)
  from tracker_hit[OF this, of ip threshold windowSec]
  have hit: "fst (tracker_record t ip (ga_tracker ?a)) \<longleftrightarrow> threshold \<le> 1 + int (length tes)"
    using win(1) by (simp add: ih(2) history_records list_all_iff)
  have "replicate (length tes - (nat threshold - 1)) (nft_block ip) @ (if threshold \<le> 1 + int (length tes) then [nft_block ip] else []) =
      replicate (Suc (length tes) - (nat threshold - 1)) (nft_block ip)"
    using snoc.prems(7) by (auto simp: replicate_append_same Suc_diff_le)
  then show ?case
    using snoc.prems(1,2,3) handle_event_blocked[of e ip ?a exec t] ih hit by (simp add: x Let_def)
qed simp

text \<open>A started agent.\<close>

lemma started_agent:
  assumes "runAgent exec cfg cl0 = (Inr a, cl)" "fw_backend (ag_firewall cfg) = ''nftables''"
  shows "ga_tracker a = newEventTracker (eb_block_threshold (ag_event_broker cfg)) (eb_window_seconds (ag_event_broker cfg))"
    "ga_log a = cl" "mg_backend (ga_mgr a) = NFTablesBackend"
  using assms by (auto simp: runAgent_def NewManager_def Let_def split: option.splits prod.splits if_splits)



definition sample_agent_cfg :: AgentConfig where
  "sample_agent_cfg = defaultAgentConfig\<lparr>ag_api_key := ''0123456789abcdef0123456789abcdef'',
     ag_event_broker := \<lparr>eb_enabled = True, eb_address = [], eb_auth_token = [], eb_block_threshold = 2, eb_window_seconds = 60\<rparr>,
     ag_firewall := \<lparr>fw_enabled = False, fw_backend = ''nftables'', fw_default_in = [], fw_default_out = [],
       fw_managed_ports = [], fw_block_list = []\<rparr>\<rparr>"

definition sample_agent :: agent where
  "sample_agent =
     \<lparr>ga_cfg = sample_agent_cfg, ga_mgr = \<lparr>mg_backend = NFTablesBackend, mg_cfg = ag_firewall sample_agent_cfg\<rparr>,
      ga_tracker = newEventTracker 2 60, ga_log = []\<rparr>"

lemma sample_agent_runs: "runAgent exec sample_agent_cfg [] = (Inr sample_agent, [])"
  by (simp add: runAgent_def NewManager_def manager_start_def sample_agent_cfg_def sample_agent_def insecure_key_def)


section \<open>Access to the firewall\<close>

text \<open>
  C21: on a started agent a request that does not present the configured key, as \<^verbatim>\<open>X-API-Key\<close> or
  as bearer token, changes nothing and runs no command: it is answered 401, or 404 or 405 for
  a path that is not served; only the health check answers 200.
\<close>

lemma agent_needs_key:
  assumes "runAgent exec cfg cl = (Inr a, cl')" "presented_key r \<noteq> ag_api_key cfg"
  shows "agent_serve exec r w a =
     (case mux_find agent_routes (rq_method r) (rq_path r) of
        None \<Rightarrow> (write_header (mux_missing agent_routes (rq_path r)) w, a)
      | Some (AgentHealth, _) \<Rightarrow> (writeJSON w 200 (DMap [(''status'', DStr ''ok'')]), a)
      | Some _ \<Rightarrow> (writeJSON w 401 (error_json ''invalid API key''), a))"
proof -
  have "ga_cfg a = cfg" "ag_api_key cfg \<noteq> []"
    using assms(1) by (auto simp: runAgent_def Let_def insecure_key_def split: sum.splits option.splits prod.splits if_splits)
  then have "\<not> authorized a r" using assms(2) by (simp add: authorized_def)
  then show ?thesis
    by (auto simp: agent_serve_def authMiddleware_def handleHealth_def split: option.split prod.split agent_endpoint.split)
qed

lemma agent_needs_key_witness:
  "agent_serve (\<lambda>_. ([], None)) \<lparr>rq_method = ''DELETE'', rq_path = ''/api/v1/firewall/block/10.0.0.9'', rq_query = [],
     rq_host = [], rq_headers = header_of [(''Authorization'', ''Bearer guess'')], rq_remote_addr = [],
     rq_content_length = 0, rq_body = []\<rparr> new_response sample_agent =
   (writeJSON new_response 401 (error_json ''invalid API key''), sample_agent)"
proof -
  let ?r = "\<lparr>rq_method = ''DELETE'', rq_path = ''/api/v1/firewall/block/10.0.0.9'', rq_query = [],
     rq_host = [], rq_headers = header_of [(''Authorization'', ''Bearer guess'')], rq_remote_addr = [],
     rq_content_length = 0, rq_body = []\<rparr>"
  have k: "presented_key ?r = ''guess''" by code_simp
  have m: "mux_find agent_routes (rq_method ?r) (rq_path ?r) = Some (AgentUnblock, [(''ip'', ''10.0.0.9'')])" by code_simp
  have "presented_key ?r \<noteq> ag_api_key sample_agent_cfg" unfolding k by (simp add: sample_agent_cfg_def)
  from agent_needs_key[OF sample_agent_runs this, of "\<lambda>_. ([], None)" new_response] show ?thesis
    unfolding m by simp
qed

text \<open>The address of a block request is not checked: any text reaches the command line.\<close>

lemma agent_block_unchecked:
  assumes "mg_backend (ga_mgr a) = NFTablesBackend" "decode_first decode_block (rq_body r) = Some ip" "ip \<noteq> []"
  shows "ga_log (snd (handleBlockIP exec r w a)) = ga_log a @ [nft_block ip]"
  using assms(2,3) nft_block_ip[OF assms(1,3), of exec]
  by (cases "block_ip exec ip a") (auto simp: handleBlockIP_def split: option.split)

end
