(* ===== verification/PolicyStore.thy ===== *)
theory PolicyStore
  imports GoDyn
begin

text \<open>
  \<^verbatim>\<open>internal/engine/policy.go\<close>: the store of declarative policies, a map from ids to
  policies with a separate list that keeps the order of insertion. The id that
  \<^verbatim>\<open>uuid.New\<close> draws for a policy without one is an argument of \<^verbatim>\<open>Add\<close>. The policies are
  stored by pointer; nothing in the repository changes one after it is added.
\<close>

datatype policy_action =
  PActionAllow | PActionDeny | PActionLog | PActionBlock | PActionRedirect | PActionOther string

datatype policy_phase = PPhaseRequest | PPhaseResponse | PPhaseConnect | PPhaseOther string

record condition =
  Field :: string
  Operator :: string
  Value :: dyn

record policy =
  pol_id :: string
  pol_name :: string
  pol_description :: string
  pol_phase :: policy_phase
  pol_priority :: int
  pol_enabled :: bool
  pol_conditions :: "condition list"
  pol_action :: policy_action
  pol_metadata :: "(string \<times> dyn) list"

record policy_store =
  policies :: "string \<Rightarrow> policy option"
  order :: "string list"

datatype store_error = AlreadyExists string | NotFound string

definition NewPolicyStore :: policy_store where
  "NewPolicyStore = \<lparr>policies = Map.empty, order = []\<rparr>"

definition ps_add :: "policy_store \<Rightarrow> string \<Rightarrow> policy \<Rightarrow> store_error + policy_store" where
  "ps_add ps uuid p0 =
     (let p = (if pol_id p0 = [] then p0\<lparr>pol_id := uuid\<rparr> else p0)
      in if policies ps (pol_id p) \<noteq> None then Inl (AlreadyExists (pol_id p))
         else Inr (ps\<lparr>policies := (policies ps)(pol_id p \<mapsto> p), order := order ps @ [pol_id p]\<rparr>))"

definition ps_remove :: "policy_store \<Rightarrow> string \<Rightarrow> store_error + policy_store" where
  "ps_remove ps i =
     (if policies ps i = None then Inl (NotFound i)
      else Inr (ps\<lparr>policies := (policies ps)(i := None), order := delete_first ((=) i) (order ps)\<rparr>))"

definition ps_get :: "policy_store \<Rightarrow> string \<Rightarrow> store_error + policy" where
  "ps_get ps i = (case policies ps i of None \<Rightarrow> Inl (NotFound i) | Some p \<Rightarrow> Inr p)"

definition ps_list :: "policy_store \<Rightarrow> policy list" where
  "ps_list ps = List.map_filter (policies ps) (order ps)"

lemmas store_ops = NewPolicyStore_def ps_add_def ps_remove_def ps_get_def ps_list_def

section \<open>Invariant\<close>

text \<open>The order list holds exactly the stored ids, once each, and every policy has its key.\<close>

definition ps_inv :: "policy_store \<Rightarrow> bool" where
  "ps_inv ps \<longleftrightarrow> distinct (order ps) \<and> set (order ps) = dom (policies ps) \<and>
     (\<forall>i p. policies ps i = Some p \<longrightarrow> pol_id p = i)"

lemma ps_inv_new [waf_inv]: "ps_inv NewPolicyStore"
  by (simp add: ps_inv_def NewPolicyStore_def)

lemma ps_inv_add [waf_inv]: "ps_inv ps \<Longrightarrow> ps_add ps u p = Inr ps' \<Longrightarrow> ps_inv ps'"
  by (auto simp: ps_inv_def ps_add_def Let_def split: if_splits)

lemma ps_inv_remove [waf_inv]: "ps_inv ps \<Longrightarrow> ps_remove ps i = Inr ps' \<Longrightarrow> ps_inv ps'"
  by (auto simp: ps_inv_def ps_remove_def delete_first_eq split: if_splits)

section \<open>Behaviour\<close>

lemma ps_list_ids: "ps_inv ps \<Longrightarrow> map pol_id (ps_list ps) = order ps"
proof -
  assume inv: "ps_inv ps"
  have "map pol_id (List.map_filter (policies ps) us) = us"
    if "\<forall>i \<in> set us. \<exists>p. policies ps i = Some p \<and> pol_id p = i" for us
    using that by (induction us) (auto simp: List.map_filter_simps)
  moreover have "\<forall>i \<in> set (order ps). \<exists>p. policies ps i = Some p \<and> pol_id p = i"
    using inv by (auto simp: ps_inv_def dom_def)
  ultimately show ?thesis by (simp add: ps_list_def)
qed

lemma ps_list_add:
  assumes inv: "ps_inv ps" and add: "ps_add ps u p = Inr ps'"
  shows "ps_list ps' = ps_list ps @ [if pol_id p = [] then p\<lparr>pol_id := u\<rparr> else p]"
proof -
  define q where "q = (if pol_id p = [] then p\<lparr>pol_id := u\<rparr> else p)"
  have new: "policies ps (pol_id q) = None"
    and ps': "ps' = ps\<lparr>policies := (policies ps)(pol_id q \<mapsto> q), order := order ps @ [pol_id q]\<rparr>"
    using add by (auto simp: ps_add_def Let_def q_def split: if_splits)
  have "pol_id q \<notin> set (order ps)" using inv new by (auto simp: ps_inv_def)
  then have "List.map_filter ((policies ps)(pol_id q \<mapsto> q)) (order ps) = List.map_filter (policies ps) (order ps)"
    by (intro map_filter_cong_set) auto
  then show ?thesis
    unfolding q_def[symmetric] by (simp add: ps_list_def ps' map_filter_append List.map_filter_simps)
qed

lemma ps_list_remove:
  assumes inv: "ps_inv ps" and rem: "ps_remove ps i = Inr ps'"
  shows "ps_list ps' = filter (\<lambda>p. pol_id p \<noteq> i) (ps_list ps)"
proof -
  have ps': "ps' = ps\<lparr>policies := (policies ps)(i := None), order := filter (\<lambda>x. x \<noteq> i) (order ps)\<rparr>"
    using rem inv by (auto simp: ps_remove_def ps_inv_def delete_first_eq split: if_splits)
  have "List.map_filter ((policies ps)(i := None)) (filter (\<lambda>x. x \<noteq> i) us) =
      filter (\<lambda>p. pol_id p \<noteq> i) (List.map_filter (policies ps) us)" for us
    using inv by (induction us) (auto simp: List.map_filter_simps ps_inv_def split: option.splits)
  then show ?thesis by (simp add: ps_list_def ps')
qed

section \<open>Refinement of a plain list of policies\<close>

text \<open>
  The abstract contract: a list of policies with distinct ids, additions at the end, a
  failing operation changes nothing.
\<close>

datatype store_op = OpAdd string policy | OpRemove string

fun store_step :: "store_op \<Rightarrow> policy_store \<Rightarrow> policy_store" where
  "store_step (OpAdd u p) ps = (case ps_add ps u p of Inl _ \<Rightarrow> ps | Inr ps' \<Rightarrow> ps')"
| "store_step (OpRemove i) ps = (case ps_remove ps i of Inl _ \<Rightarrow> ps | Inr ps' \<Rightarrow> ps')"

fun spec_step :: "store_op \<Rightarrow> policy list \<Rightarrow> policy list" where
  "spec_step (OpAdd u p) l =
     (let q = (if pol_id p = [] then p\<lparr>pol_id := u\<rparr> else p)
      in if pol_id q \<in> pol_id ` set l then l else l @ [q])"
| "spec_step (OpRemove i) l = filter (\<lambda>p. pol_id p \<noteq> i) l"

lemma ps_ids: "ps_inv ps \<Longrightarrow> pol_id ` set (ps_list ps) = dom (policies ps)"
  using ps_list_ids[of ps] by (metis list.set_map ps_inv_def)

lemma store_step_inv: "ps_inv ps \<Longrightarrow> ps_inv (store_step x ps)"
  by (cases x) (auto intro: waf_inv split: sum.splits)

lemma store_step_refines: "ps_inv ps \<Longrightarrow> ps_list (store_step x ps) = spec_step x (ps_list ps)"
proof (cases x)
  case (OpAdd u p)
  assume inv: "ps_inv ps"
  show ?thesis
  proof (cases "ps_add ps u p")
    case (Inl e)
    then show ?thesis using OpAdd ps_ids[OF inv] by (auto simp: ps_add_def Let_def dom_def split: if_splits)
  next
    case (Inr ps')
    moreover have "pol_id (if pol_id p = [] then p\<lparr>pol_id := u\<rparr> else p) \<notin> dom (policies ps)"
      using Inr by (auto simp: ps_add_def Let_def split: if_splits)
    ultimately show ?thesis using OpAdd ps_list_add[OF inv Inr] ps_ids[OF inv] by (simp add: Let_def)
  qed
next
  case (OpRemove i)
  assume inv: "ps_inv ps"
  show ?thesis
  proof (cases "ps_remove ps i")
    case (Inl e)
    then have "i \<notin> pol_id ` set (ps_list ps)" using ps_ids[OF inv] by (auto simp: ps_remove_def split: if_splits)
    then have "filter (\<lambda>p. pol_id p \<noteq> i) (ps_list ps) = ps_list ps" by (auto intro: filter_True)
    then show ?thesis using OpRemove Inl by simp
  next
    case (Inr ps')
    then show ?thesis using OpRemove ps_list_remove[OF inv Inr] by simp
  qed
qed

lemma ps_get_list:
  assumes "ps_inv ps"
  shows "ps_get ps i = (case find (\<lambda>p. pol_id p = i) (ps_list ps) of None \<Rightarrow> Inl (NotFound i) | Some p \<Rightarrow> Inr p)"
proof -
  have mem: "p \<in> set (ps_list ps) \<longleftrightarrow> policies ps (pol_id p) = Some p" for p
  proof -
    have "p \<in> set (ps_list ps) \<longleftrightarrow> (\<exists>i \<in> set (order ps). policies ps i = Some p)"
      by (force simp: ps_list_def List.map_filter_def)
    then show ?thesis using assms by (auto simp: ps_inv_def)
  qed
  show ?thesis
  proof (cases "find (\<lambda>p. pol_id p = i) (ps_list ps)")
    case None
    then have none: "\<And>p. p \<in> set (ps_list ps) \<Longrightarrow> pol_id p \<noteq> i" by (auto simp: find_None_iff)
    have "policies ps i = None"
    proof (rule ccontr)
      assume "policies ps i \<noteq> None"
      then obtain p where "policies ps i = Some p" by blast
      moreover from this have "pol_id p = i" using assms by (simp add: ps_inv_def)
      ultimately show False using none mem by blast
    qed
    with None show ?thesis by (simp add: ps_get_def)
  next
    case (Some p)
    then have "policies ps i = Some p" using mem by (auto dest: find_SomeD)
    with Some show ?thesis by (simp add: ps_get_def)
  qed
qed

text \<open>
  C35: after any sequence of additions and removals the store lists exactly what a plain
  list with the same operations holds, in order of insertion, and looking an id up finds
  the listed policy with that id or reports that there is none.
\<close>

lemma PolicyStore_refines_list:
  "ps_list (fold store_step ops NewPolicyStore) = fold spec_step ops [] \<and>
   ps_get (fold store_step ops NewPolicyStore) i =
     (case find (\<lambda>p. pol_id p = i) (fold spec_step ops []) of
        None \<Rightarrow> Inl (NotFound i) | Some p \<Rightarrow> Inr p)"
proof -
  have "ps_inv ps \<Longrightarrow> ps_inv (fold store_step ops ps) \<and>
      ps_list (fold store_step ops ps) = fold spec_step ops (ps_list ps)" for ps
    by (induction ops arbitrary: ps) (simp_all add: store_step_inv store_step_refines)
  from this[of NewPolicyStore] ps_get_list[of "fold store_step ops NewPolicyStore" i] show ?thesis
    by (simp add: ps_inv_new) (simp add: NewPolicyStore_def ps_list_def List.map_filter_simps)
qed

end
