(* ===== verification/EngineRun.thy ===== *)
theory EngineRun
  imports SidecarHandlers Config PolicyStore
begin

text \<open>
  \<^verbatim>\<open>internal/engine\<close>: the sidecar's socket and routes (\<^verbatim>\<open>sidecar.go\<close>), the engine that owns the
  components (\<^verbatim>\<open>engine.go\<close>), its start and stop with the nginx process (\<^verbatim>\<open>engine_unix.go\<close>) and
  \<^verbatim>\<open>runEngine\<close> of \<^verbatim>\<open>cmd/waffynx\<close>. What is done to the operating system is a list of actions;
  whether an action fails is the environment.
\<close>

section \<open>Operating system\<close>

datatype sys_action =
  RemoveFile string | ListenUnix string | Chmod string nat | ServeOn string
| StartProcess string "string list" | SendSignal string | WaitProcess | CloseServer | CloseListener string

record sys_env =
  ox_remove :: "string \<Rightarrow> string option"
  ox_listen :: "string \<Rightarrow> string option"
  ox_chmod :: "string \<Rightarrow> nat \<Rightarrow> string option"
  ox_start :: "string \<Rightarrow> string list \<Rightarrow> string option"
  ox_signal :: "string \<Rightarrow> string option"
  ox_close :: "string option"

section \<open>The sidecar's server\<close>

definition mode_0600 :: nat where "mode_0600 = 384"

definition sidecar_start :: "sys_env \<Rightarrow> string \<Rightarrow> string option \<times> sys_action list" where
  "sidecar_start os path =
     (case ox_remove os path of
        Some err \<Rightarrow> (Some (''removing old socket: '' @ err), [RemoveFile path])
      | None \<Rightarrow>
         (case ox_listen os path of
            Some err \<Rightarrow> (Some (''unix listen on '' @ path @ '': '' @ err), [RemoveFile path, ListenUnix path])
          | None \<Rightarrow>
             (case ox_chmod os path mode_0600 of
                Some err \<Rightarrow> (Some (''chmod socket: '' @ err), [RemoveFile path, ListenUnix path, Chmod path mode_0600])
              | None \<Rightarrow> (None, [RemoveFile path, ListenUnix path, Chmod path mode_0600, ServeOn path]))))"

definition sidecar_stop :: "sys_env \<Rightarrow> string \<Rightarrow> string option \<times> sys_action list" where
  "sidecar_stop os path =
     (case ox_close os of
        Some err \<Rightarrow> (Some err, [CloseServer])
      | None \<Rightarrow> (None, [CloseServer, RemoveFile path]))"

text \<open>The routes; the schedule is that of the event stream.\<close>

definition sidecar_serve ::
    "sidecar_env \<Rightarrow> (waf_event \<Rightarrow> string) \<Rightarrow> int \<Rightarrow> bool \<Rightarrow> sse_choice list \<Rightarrow> http_request \<Rightarrow> response \<Rightarrow> 'w sidecar \<Rightarrow>
     (response \<times> 'w sidecar) option" where
  "sidecar_serve env enc now flusher cs r w s =
     (if rq_path r = ''/evaluate'' then handleEvaluate env w r s
      else if rq_path r = ''/health'' then Some (handleHealth w, s)
      else if rq_path r = ''/learning/suggestions'' then Some (handleLearningSuggestions w s, s)
      else if rq_path r = ''/learning/stats'' then Some (handleLearningStats w s, s)
      else if rq_path r = ''/learning/dataset'' then Some (handleLearningDataset env w s, s)
      else if rq_path r = ''/rules'' then Some (handleRulesList w s, s)
      else if rq_path r = ''/rules/add'' then Some (handleRulesAdd now w r s)
      else if rq_path r = ''/rules/delete'' then Some (handleRulesDelete w r s)
      else if rq_path r = ''/events'' then handleSSE enc flusher cs w s
      else Some (write_header 404 w, s))"

section \<open>The engine\<close>

text \<open>
  The components are shared by pointer with the sidecar. Once it exists they live in the sidecar's
  state, and the engine's own fields are those it was built from.
\<close>

record 'w engine =
  eg_cfg :: Config
  eg_running :: bool
  eg_process :: bool
  eg_sidecar :: "'w sidecar option"
  eg_chain :: "'w chain"
  eg_policy :: "plugin_ctx rule_engine"
  eg_scorer :: "scorer option"
  eg_learning :: learn_engine
  eg_audit :: "audit_store option"
  eg_rules :: rules_engine
  eg_broker :: broker
  eg_policies :: policy_store
  eg_world :: 'w
  eg_actions :: "sys_action list"

definition engine_new :: "bool \<Rightarrow> Config \<Rightarrow> 'w \<Rightarrow> 'w engine" where
  "engine_new audit_opened cfg world =
     \<lparr>eg_cfg = cfg, eg_running = False, eg_process = False, eg_sidecar = None, eg_chain = NewChain,
      eg_policy = NewRuleEngine, eg_scorer = None, eg_learning = NewLearningEngine 2000,
      eg_audit = NewStore 5000 ''/opt/waffynx/logs/waf-audit.jsonl'' audit_opened, eg_rules = NewEngine,
      eg_broker = NewBroker, eg_policies = NewPolicyStore, eg_world = world, eg_actions = []\<rparr>"

definition AddPolicy :: "policy \<Rightarrow> string \<Rightarrow> 'w engine \<Rightarrow> store_error + 'w engine" where
  "AddPolicy p i e =
     (case ps_add (eg_policies e) i p of Inl err \<Rightarrow> Inl err | Inr st \<Rightarrow> Inr (e\<lparr>eg_policies := st\<rparr>))"

definition RemovePolicy :: "string \<Rightarrow> 'w engine \<Rightarrow> store_error + 'w engine" where
  "RemovePolicy i e =
     (case ps_remove (eg_policies e) i of Inl err \<Rightarrow> Inl err | Inr st \<Rightarrow> Inr (e\<lparr>eg_policies := st\<rparr>))"

definition Policies :: "'w engine \<Rightarrow> policy list" where
  "Policies e = ps_list (eg_policies e)"

definition AddPlugin :: "'w plugin \<Rightarrow> 'w engine \<Rightarrow> 'w engine" where
  "AddPlugin p e =
     e\<lparr>eg_chain := chain_add (eg_chain e) p,
       eg_sidecar := map_option (\<lambda>s. s\<lparr>sd_chain := chain_add (sd_chain s) p\<rparr>) (eg_sidecar e)\<rparr>"

definition SetAppSecScorer :: "scorer \<Rightarrow> 'w engine \<Rightarrow> 'w engine" where
  "SetAppSecScorer sc e = e\<lparr>eg_scorer := Some sc\<rparr>"

definition act :: "sys_action list \<Rightarrow> 'w engine \<Rightarrow> 'w engine" where
  "act xs e = e\<lparr>eg_actions := eg_actions e @ xs\<rparr>"

definition new_sidecar_of :: "'w engine \<Rightarrow> 'w sidecar" where
  "new_sidecar_of e =
     (let cfg = cf_sidecar (eg_cfg e);
          s = NewSidecar (eg_policy e) (eg_chain e) (eg_scorer e) (Some (eg_learning e)) (eg_audit e) (Some (eg_rules e))
                (Some (eg_broker e)) (eg_world e)
      in if sc_event_api_url cfg \<noteq> [] \<and> sc_event_auth_token cfg \<noteq> []
         then SetEventPublisher (NewPublisher (sc_event_api_url cfg) (sc_event_auth_token cfg)
                (sc_event_timeout_ms cfg * 10 ^ 6)) s
         else s)"

definition nginx_args :: "NginxConfig \<Rightarrow> string list" where
  "nginx_args n = [''-c'', nx_config_path n @ ''/nginx.conf'', ''-g'', ''daemon off;'']"

definition engine_start :: "sys_env \<Rightarrow> 'w engine \<Rightarrow> string option \<times> 'w engine" where
  "engine_start os e =
     (if eg_running e then (Some ''engine already running'', e)
      else
        let path = sc_socket_path (cf_sidecar (eg_cfg e)); nginx = cf_nginx (eg_cfg e);
            e = e\<lparr>eg_sidecar := Some (new_sidecar_of e)\<rparr>
        in case sidecar_start os path of
             (Some err, xs) \<Rightarrow> (Some (''starting sidecar: '' @ err), act xs e)
           | (None, xs) \<Rightarrow>
               let e = act (xs @ [StartProcess (nx_binary_path nginx) (nginx_args nginx)]) e
               in case ox_start os (nx_binary_path nginx) (nginx_args nginx) of
                    Some err \<Rightarrow> (Some (''starting nginx: '' @ err), act (snd (sidecar_stop os path)) e)
                  | None \<Rightarrow> (None, e\<lparr>eg_running := True, eg_process := True\<rparr>))"

definition engine_stop :: "sys_env \<Rightarrow> 'w engine \<Rightarrow> 'w engine" where
  "engine_stop os e =
     (if \<not> eg_running e then e
      else
        let nginx = (if eg_process e
              then [SendSignal ''SIGTERM''] @ (if ox_signal os ''SIGTERM'' \<noteq> None then [SendSignal ''SIGKILL''] else []) @ [WaitProcess]
              else []);
            sidecar = (case eg_sidecar e of
                None \<Rightarrow> [] | Some s \<Rightarrow> snd (sidecar_stop os (sc_socket_path (cf_sidecar (eg_cfg e)))))
        in (act (nginx @ sidecar) e)\<lparr>eg_running := False\<rparr>)"

definition engine_reload :: "sys_env \<Rightarrow> 'w engine \<Rightarrow> string option \<times> 'w engine" where
  "engine_reload os e =
     (if \<not> eg_running e \<or> \<not> eg_process e then (Some ''engine not running'', e)
      else (ox_signal os ''SIGHUP'', act [SendSignal ''SIGHUP''] e))"

text \<open>The stubs of \<^verbatim>\<open>engine_windows.go\<close>.\<close>

definition windows_start :: "'w engine \<Rightarrow> string option \<times> 'w engine" where
  "windows_start e = (Some ''waffynx engine requires Linux (nginx + unix sockets)'', e)"

definition windows_stop :: "'w engine \<Rightarrow> string option \<times> 'w engine" where
  "windows_stop e = (None, e)"

definition windows_reload :: "'w engine \<Rightarrow> string option \<times> 'w engine" where
  "windows_reload e = (Some ''reload not supported on Windows'', e)"

section \<open>Running it\<close>

definition load_plugin :: "'w registry \<Rightarrow> PluginConfig \<Rightarrow> 'w engine \<Rightarrow> 'w engine" where
  "load_plugin reg pc e =
     (if \<not> pc_enabled pc then e
      else case registry_create reg (pc_name pc) (pc_config pc) of
        Inl err \<Rightarrow> e
      | Inr p \<Rightarrow> AddPlugin p e)"

definition scorer_of :: "(nat \<Rightarrow> nat) \<Rightarrow> AppSecConfig \<Rightarrow> scorer" where
  "scorer_of ul cfg =
     (if as_engine cfg = ''open-appsec''
      then ScorerBridge (NewBridgeScorer (as_bridge_socket cfg) (as_timeout_ms cfg * 10 ^ 6))
      else ScorerBasic (NewBasicScorer ul))"

definition configure_engine :: "(nat \<Rightarrow> nat) \<Rightarrow> 'w registry \<Rightarrow> Config \<Rightarrow> 'w engine \<Rightarrow> 'w engine" where
  "configure_engine ul reg cfg e =
     (let e = fold (load_plugin reg) (cf_plugins cfg) e
      in if as_enabled (cf_appsec cfg) then SetAppSecScorer (scorer_of ul (cf_appsec cfg)) e else e)"

datatype os_signal = SIGHUP | SIGINT | SIGTERM

fun signal_loop :: "sys_env \<Rightarrow> os_signal list \<Rightarrow> 'w engine \<Rightarrow> 'w engine" where
  "signal_loop os [] e = e"
| "signal_loop os (SIGHUP # sigs) e = signal_loop os sigs (snd (engine_reload os e))"
| "signal_loop os (sig # sigs) e = engine_stop os e"

definition runEngine ::
    "sys_env \<Rightarrow> (nat \<Rightarrow> nat) \<Rightarrow> 'w registry \<Rightarrow> bool \<Rightarrow> Config \<Rightarrow> 'w \<Rightarrow> os_signal list \<Rightarrow> string option \<times> 'w engine" where
  "runEngine os ul reg audit_opened cfg world sigs =
     (case engine_start os (configure_engine ul reg cfg (engine_new audit_opened cfg world)) of
        (Some err, e) \<Rightarrow> (Some (''starting engine: '' @ err), e)
      | (None, e) \<Rightarrow> (None, signal_loop os sigs e))"

section \<open>What is loaded\<close>

definition loaded :: "'w registry \<Rightarrow> PluginConfig list \<Rightarrow> 'w plugin list" where
  "loaded reg pcs =
     List.map_filter (\<lambda>pc. if pc_enabled pc
       then (case registry_create reg (pc_name pc) (pc_config pc) of Inl _ \<Rightarrow> None | Inr p \<Rightarrow> Some p) else None) pcs"

lemma load_plugins_chain:
  "eg_chain (fold (load_plugin reg) pcs e) = fold (\<lambda>p c. chain_add c p) (loaded reg pcs) (eg_chain e)"
  by (induction pcs arbitrary: e)
    (auto simp: loaded_def map_filter_simps load_plugin_def AddPlugin_def split: sum.split)

lemma load_plugins_rest:
  "eg_running (fold (load_plugin reg) pcs e) = eg_running e" "eg_cfg (fold (load_plugin reg) pcs e) = eg_cfg e"
  "eg_policy (fold (load_plugin reg) pcs e) = eg_policy e" "eg_actions (fold (load_plugin reg) pcs e) = eg_actions e"
  "eg_process (fold (load_plugin reg) pcs e) = eg_process e" "eg_learning (fold (load_plugin reg) pcs e) = eg_learning e"
  "eg_audit (fold (load_plugin reg) pcs e) = eg_audit e" "eg_broker (fold (load_plugin reg) pcs e) = eg_broker e"
  "eg_rules (fold (load_plugin reg) pcs e) = eg_rules e" "eg_world (fold (load_plugin reg) pcs e) = eg_world e"
  by (induction pcs arbitrary: e) (simp_all add: load_plugin_def AddPlugin_def split: sum.split)

section \<open>The order of things\<close>

definition start_actions :: "Config \<Rightarrow> sys_action list" where
  "start_actions cfg =
     (let p = sc_socket_path (cf_sidecar cfg) in
      [RemoveFile p, ListenUnix p, Chmod p mode_0600, ServeOn p,
       StartProcess (nx_binary_path (cf_nginx cfg)) (nginx_args (cf_nginx cfg))])"

definition stop_actions :: "sys_env \<Rightarrow> Config \<Rightarrow> sys_action list" where
  "stop_actions os cfg =
     [SendSignal ''SIGTERM''] @ (if ox_signal os ''SIGTERM'' \<noteq> None then [SendSignal ''SIGKILL''] else []) @
     [WaitProcess] @ snd (sidecar_stop os (sc_socket_path (cf_sidecar cfg)))"

text \<open>The signals that a run receives: so many hang-ups, then perhaps one that ends it.\<close>

definition hangups :: "os_signal list \<Rightarrow> nat" where
  "hangups sigs = length (takeWhile (\<lambda>s. s = SIGHUP) sigs)"

definition terminated :: "os_signal list \<Rightarrow> bool" where
  "terminated sigs = list_ex (\<lambda>s. s \<noteq> SIGHUP) sigs"

lemma signal_loop_run:
  assumes "eg_running e" "eg_process e" "eg_sidecar e \<noteq> None"
  shows "eg_actions (signal_loop os sigs e) =
     eg_actions e @ replicate (hangups sigs) (SendSignal ''SIGHUP'') @
       (if terminated sigs then stop_actions os (eg_cfg e) else []) \<and>
     eg_running (signal_loop os sigs e) = (\<not> terminated sigs)"
  using assms
proof (induction os sigs e rule: signal_loop.induct)
  case (2 os sigs e)
  then show ?case by (auto simp: engine_reload_def act_def hangups_def terminated_def)
qed (auto simp: hangups_def terminated_def engine_stop_def stop_actions_def act_def Let_def)

definition started :: "'w engine \<Rightarrow> 'w engine \<Rightarrow> bool" where
  "started e e' =
     (eg_running e' \<and> eg_process e' \<and> eg_cfg e' = eg_cfg e \<and> eg_sidecar e' = Some (new_sidecar_of e) \<and>
      eg_actions e' = eg_actions e @ start_actions (eg_cfg e))"

lemma new_sidecar_of_self: "new_sidecar_of (e\<lparr>eg_sidecar := x\<rparr>) = new_sidecar_of e"
  by (simp add: new_sidecar_of_def)

lemma engine_start_ok:
  assumes "engine_start os e = (None, e')"
  shows "started e e'"
  using assms
  by (auto simp: engine_start_def sidecar_start_def started_def start_actions_def act_def Let_def
      split: if_splits option.splits prod.splits)

lemma configure_engine_fields:
  "eg_actions (configure_engine ul reg cfg e) = eg_actions e" "eg_cfg (configure_engine ul reg cfg e) = eg_cfg e"
  "eg_chain (configure_engine ul reg cfg e) = fold (\<lambda>p c. chain_add c p) (loaded reg (cf_plugins cfg)) (eg_chain e)"
  "eg_learning (configure_engine ul reg cfg e) = eg_learning e" "eg_audit (configure_engine ul reg cfg e) = eg_audit e"
  "eg_broker (configure_engine ul reg cfg e) = eg_broker e" "eg_running (configure_engine ul reg cfg e) = eg_running e"
  by (simp_all add: configure_engine_def Let_def SetAppSecScorer_def load_plugins_rest load_plugins_chain)

lemma runEngine_start:
  assumes "runEngine os ul reg opened cfg world sigs = (None, e')"
  obtains e where "started (configure_engine ul reg cfg (engine_new opened cfg world)) e" "e' = signal_loop os sigs e"
  using assms engine_start_ok by (fastforce simp: runEngine_def split: prod.splits option.splits)

lemma engine_actions:
  assumes "runEngine os ul reg opened cfg world sigs = (None, e)"
  shows "eg_actions e = start_actions cfg @ replicate (hangups sigs) (SendSignal ''SIGHUP'') @
       (if terminated sigs then stop_actions os cfg else []) \<and>
     eg_running e = (\<not> terminated sigs)"
proof -
  obtain e0 where e0: "started (configure_engine ul reg cfg (engine_new opened cfg world)) e0" "e = signal_loop os sigs e0"
    using assms by (rule runEngine_start)
  then have "eg_running e0" "eg_process e0" "eg_sidecar e0 \<noteq> None" "eg_cfg e0 = cfg" "eg_actions e0 = start_actions cfg"
    by (simp_all add: started_def configure_engine_fields) (simp_all add: engine_new_def)
  with signal_loop_run[OF this(1-3), of os sigs] show ?thesis by (simp add: e0(2))
qed

text \<open>
  C25: the life of the engine, exactly: after a successful start the socket is listened on, made
  private and served before nginx is started; every hang-up before the end is passed to nginx
  and nothing else is done; the first termination signal stops nginx, waits for it, and only
  then closes the sidecar; later signals do nothing, and the engine runs until then.
\<close>

lemma engine_life:
  assumes "runEngine os ul reg opened cfg world sigs = (None, e)"
  shows "eg_actions e = start_actions cfg @ replicate (hangups sigs) (SendSignal ''SIGHUP'') @
       (if terminated sigs then stop_actions os cfg else []) \<and>
     eg_running e = (\<not> terminated sigs)"
  using assms by (rule engine_actions)

text \<open>A start that fails leaves no nginx behind and the engine stopped.\<close>

lemma engine_start_failed:
  assumes "engine_start os e = (Some err, e')" "\<not> eg_running e"
  shows "\<not> eg_running e' \<and>
     (eg_actions e' = eg_actions e @ snd (sidecar_start os (sc_socket_path (cf_sidecar (eg_cfg e)))) \<or>
      eg_actions e' = eg_actions e @ start_actions (eg_cfg e) @ snd (sidecar_stop os (sc_socket_path (cf_sidecar (eg_cfg e)))))"
  using assms
  by (auto simp: engine_start_def sidecar_start_def start_actions_def act_def Let_def
      split: if_splits option.splits prod.splits)

text \<open>The policies that are added are never asked: the sidecar is built without them.\<close>

lemma policies_not_asked:
  "AddPolicy p i e = Inr e' \<Longrightarrow> new_sidecar_of e' = new_sidecar_of e"
  by (auto simp: AddPolicy_def new_sidecar_of_def split: sum.splits)

section \<open>The started sidecar\<close>

lemma started_chain:
  assumes "started (configure_engine ul reg cfg (engine_new opened cfg world)) e"
  shows "\<exists>s. eg_sidecar e = Some s \<and> sd_chain s = build_chain (loaded reg (cf_plugins cfg)) \<and> sidecar_inv s \<and>
     sd_rules s = Some NewEngine"
proof -
  let ?c = "configure_engine ul reg cfg (engine_new opened cfg world)"
  have a: "opt_all audit_wf (NewStore 5000 ''/opt/waffynx/logs/waf-audit.jsonl'' opened)"
    using audit_wf_new[of 5000] by (auto simp: opt_all_def split: option.split)
  have f: "sd_chain (new_sidecar_of ?c) = eg_chain ?c" "sd_learning (new_sidecar_of ?c) = Some (eg_learning ?c)"
    "sd_audit (new_sidecar_of ?c) = eg_audit ?c" "sd_broker (new_sidecar_of ?c) = Some (eg_broker ?c)"
    "sd_rules (new_sidecar_of ?c) = Some (eg_rules ?c)"
    by (simp_all add: new_sidecar_of_def Let_def NewSidecar_def SetEventPublisher_def)
  have r: "eg_rules ?c = NewEngine"
    by (simp add: configure_engine_def Let_def SetAppSecScorer_def load_plugins_rest engine_new_def)
  have "sd_chain (new_sidecar_of ?c) = build_chain (loaded reg (cf_plugins cfg))"
    unfolding f(1) configure_engine_fields build_chain_def by (simp add: engine_new_def)
  moreover have "sidecar_inv (new_sidecar_of ?c)"
    unfolding sidecar_inv_def f configure_engine_fields
    using a learn_wf_new[of 2000] broker_inv_new by (simp add: engine_new_def opt_all_def)
  ultimately show ?thesis using assms f(5) r by (simp add: started_def)
qed

text \<open>One request of nginx to the sidecar, with everything it depends on.\<close>

record sidecar_call =
  ca_env :: sidecar_env
  ca_encode :: "waf_event \<Rightarrow> string"
  ca_now :: int
  ca_flusher :: bool
  ca_schedule :: "sse_choice list"
  ca_request :: http_request

definition serve_call :: "sidecar_call \<Rightarrow> 'w sidecar \<Rightarrow> 'w sidecar option" where
  "serve_call c s =
     map_option snd (sidecar_serve (ca_env c) (ca_encode c) (ca_now c) (ca_flusher c) (ca_schedule c) (ca_request c) new_response s)"

lemma sse_answers:
  assumes "sidecar_inv s"
  shows "\<exists>w' s'. handleSSE enc flusher cs w s = Some (w', s') \<and> sidecar_inv s'"
proof (cases "sd_broker s")
  case None
  then show ?thesis using assms by (simp add: handleSSE_def)
next
  case (Some b)
  obtain ch b1 where sub: "Subscribe b = (ch, b1)" by (cases "Subscribe b")
  have "broker_inv b" using Some assms by (simp add: sidecar_inv_def opt_all_def)
  then have "sse_state ch b1"
    using sub broker_inv_Subscribe[of b] by (auto simp: sse_state_def Subscribe_def Let_def)
  from sse_loop_stream[OF this, of enc cs "sse_open w"] obtain w' b' where
    "sse_loop enc ch cs (sse_open w) b1 = Some (w', b')" "broker_inv b'" by blast
  then show ?thesis using Some sub assms by (auto simp: handleSSE_def sidecar_inv_def opt_all_def)
qed

lemma rules_keep_inv:
  "sidecar_inv s \<Longrightarrow> sidecar_inv (snd (handleRulesAdd now w r s))"
  "sidecar_inv s \<Longrightarrow> sidecar_inv (snd (handleRulesDelete w r s))"
  by (auto simp: handleRulesAdd_def handleRulesDelete_def sidecar_inv_def Let_def split: option.split)

lemma sidecar_serve_answers:
  assumes "sidecar_inv s"
  shows "\<exists>w' s'. sidecar_serve env enc now flusher cs r w s = Some (w', s') \<and> sidecar_inv s'"
proof -
  have pair: "\<exists>w' s'. Some x = Some (w', s') \<and> sidecar_inv s'" if "sidecar_inv (snd x)" for x :: "response \<times> 'a sidecar"
    using that by (cases x) simp
  show ?thesis
    using assms evaluate_progress[OF assms] sse_answers[OF assms] rules_keep_inv[OF assms] pair
    unfolding sidecar_serve_def by (simp split: if_split)
qed

lemma serve_all_answers:
  "sidecar_inv s \<Longrightarrow> \<exists>s'. fold_opt serve_call cs s = Some s' \<and> sidecar_inv s'"
proof (induction cs arbitrary: s)
  case (Cons c cs)
  obtain w' s1 where "sidecar_serve (ca_env c) (ca_encode c) (ca_now c) (ca_flusher c) (ca_schedule c) (ca_request c)
      new_response s = Some (w', s1)" "sidecar_inv s1"
    using sidecar_serve_answers[OF Cons.prems] by blast
  with Cons.IH[of s1] show ?case by (simp add: serve_call_def)
qed simp

text \<open>
  C4: a started engine never loses its sidecar: whatever plugins are configured, the sidecar it
  starts runs exactly those that are enabled and can be created, by ascending priority, and it
  answers every sequence of requests to its socket without a panic.
\<close>

lemma engine_serves:
  assumes "runEngine os ul reg opened cfg world [] = (None, e)"
  shows "\<exists>s. eg_sidecar e = Some s \<and>
     (\<forall>ph. phase_plugins (sd_chain s) ph = sort_key pl_priority (filter (\<lambda>p. pl_phase p = ph) (loaded reg (cf_plugins cfg)))) \<and>
     (\<forall>cs. \<exists>s'. fold_opt serve_call cs s = Some s')"
proof -
  obtain s where s: "eg_sidecar e = Some s" "sd_chain s = build_chain (loaded reg (cf_plugins cfg))" "sidecar_inv s"
    using runEngine_start[OF assms] started_chain by (metis signal_loop.simps(1))
  then show ?thesis using serve_all_answers[OF s(3)] by (auto simp: build_chain_phase)
qed

section \<open>Witnesses\<close>

definition quiet_os :: sys_env where
  "quiet_os = \<lparr>ox_remove = (\<lambda>_. None), ox_listen = (\<lambda>_. None), ox_chmod = (\<lambda>_ _. None), ox_start = (\<lambda>_ _. None),
     ox_signal = (\<lambda>_. None), ox_close = None\<rparr>"

lemma quiet_run: "\<exists>e. runEngine quiet_os ul reg opened cfg world sigs = (None, e)"
proof -
  have "\<not> eg_running (configure_engine ul reg cfg (engine_new opened cfg world))"
    unfolding configure_engine_fields by (simp add: engine_new_def)
  then show ?thesis
    by (simp add: runEngine_def engine_start_def sidecar_start_def quiet_os_def Let_def)
qed

definition no_plugins :: "unit registry" where "no_plugins = \<lparr>reg_plugins = [], reg_meta = []\<rparr>"

lemma engine_life_witness:
  "\<exists>e. runEngine quiet_os ascii_only_lower no_plugins False defaultConfig () [SIGHUP, SIGTERM, SIGHUP] = (None, e) \<and>
     eg_actions e = start_actions defaultConfig @
       [SendSignal ''SIGHUP'', SendSignal ''SIGTERM'', WaitProcess, CloseServer, RemoveFile ''/var/run/waffynx.sock''] \<and>
     \<not> eg_running e"
proof -
  obtain e where e: "runEngine quiet_os ascii_only_lower no_plugins False defaultConfig () [SIGHUP, SIGTERM, SIGHUP] = (None, e)"
    using quiet_run[of ascii_only_lower no_plugins False defaultConfig "()" "[SIGHUP, SIGTERM, SIGHUP]"] by blast
  from engine_life[OF e] have "eg_actions e = start_actions defaultConfig @ replicate 1 (SendSignal ''SIGHUP'') @ stop_actions quiet_os defaultConfig"
    "\<not> eg_running e"
    by (simp_all add: hangups_def terminated_def)
  moreover have "stop_actions quiet_os defaultConfig =
      [SendSignal ''SIGTERM'', WaitProcess, CloseServer, RemoveFile ''/var/run/waffynx.sock'']"
    by (simp add: stop_actions_def quiet_os_def sidecar_stop_def defaultConfig_def)
  ultimately show ?thesis using e by simp
qed

lemma engine_serves_witness:
  "\<exists>e s. runEngine quiet_os ascii_only_lower no_plugins False defaultConfig () [] = (None, e) \<and> eg_sidecar e = Some s \<and>
     phase_plugins (sd_chain s) PhasePreRequest = [] \<and> (\<forall>cs. \<exists>s'. fold_opt serve_call cs s = Some s')"
proof -
  obtain e where e: "runEngine quiet_os ascii_only_lower no_plugins False defaultConfig () [] = (None, e)"
    using quiet_run[of ascii_only_lower no_plugins False defaultConfig "()" "[]"] by blast
  have "loaded no_plugins (cf_plugins defaultConfig) = []"
    by (simp add: loaded_def defaultConfig_def map_filter_simps)
  with engine_serves[OF e] show ?thesis using e by auto
qed

end
