(* ===== verification/Deployment.thy ===== *)
theory Deployment
  imports EngineRun
begin

text \<open>
  The engine with its built-in plugins: the registrations of the four packages under
  \<^verbatim>\<open>plugins/\<close> that \<^verbatim>\<open>cmd/waffynx\<close> imports, and what a configured deployment does with an
  attack. The GeoIP library, the Redis client and the files are arguments.
\<close>

section \<open>The built-in plugins\<close>

record 'r plugin_libs =
  pb_lower :: "nat \<Rightarrow> nat"
  pb_file_exists :: "string \<Rightarrow> bool"
  pb_open_db :: "string \<Rightarrow> string + (ip \<Rightarrow> string + string)"
  pb_redis :: "string \<Rightarrow> string \<Rightarrow> int \<Rightarrow> 'r redis_client"
  pb_redis_state :: 'r

definition plugin_metadata :: "string \<Rightarrow> string \<Rightarrow> string \<Rightarrow> int \<Rightarrow> string list \<Rightarrow> metadata" where
  "plugin_metadata name version descr priority tags =
     \<lparr>md_name = name, md_version = version, md_description = descr, md_author = ''Waffynx'', md_license = ''MIT'',
      md_phase = PhasePreRequest, md_priority = priority, md_tags = tags, md_homepage = []\<rparr>"

definition register_bot :: "'r plugin_libs \<Rightarrow> 'r limiter_world registry \<Rightarrow> 'r limiter_world registry" where
  "register_bot L =
     register ''bot-protection'' (\<lambda>config. Inr (bot_plugin (pb_lower L) (init_bot config)))
       (plugin_metadata ''bot-protection'' ''1.0.0'' ''Detects and blocks malicious bots using multiple detection methods'' 75
         [''security'', ''bot'', ''anti-scraping''])"

definition register_geo :: "'r plugin_libs \<Rightarrow> 'r limiter_world registry \<Rightarrow> 'r limiter_world registry" where
  "register_geo L =
     register ''geo-block''
       (\<lambda>config. case init_geo (pb_file_exists L) (pb_open_db L) config of Inl e \<Rightarrow> Inl e | Inr p \<Rightarrow> Inr (geo_plugin p))
       (plugin_metadata ''geo-block'' ''1.0.0'' ''Blocks or allows traffic based on geographic IP location'' 50
         [''security'', ''geoip'', ''blocking''])"

definition register_rate :: "'r plugin_libs \<Rightarrow> 'r limiter_world registry \<Rightarrow> 'r limiter_world registry" where
  "register_rate L =
     register ''rate-limit'' (\<lambda>config. Inr (rate_plugin (init_rate (pb_redis L) config (pb_redis_state L))))
       (plugin_metadata ''rate-limit'' ''1.1.0'' ''Rate limiting (in-memory token bucket or Redis shared state)'' 100
         [''security'', ''rate-limiting'', ''ddos'', ''redis''])"

definition register_validation :: "'r plugin_libs \<Rightarrow> 'r limiter_world registry \<Rightarrow> 'r limiter_world registry" where
  "register_validation L =
     register ''request-validation'' (\<lambda>config. Inr (validation_plugin (pb_lower L) (init_validation config)))
       (plugin_metadata ''request-validation'' ''1.0.0'' ''Validates incoming requests: body size, content type, SQLi/XSS patterns'' 25
         [''security'', ''validation'', ''waf''])"

definition builtin_registry :: "'r plugin_libs \<Rightarrow> 'r limiter_world registry" where
  "builtin_registry L =
     register_validation L (register_rate L (register_geo L (register_bot L \<lparr>reg_plugins = [], reg_meta = []\<rparr>)))"

lemmas register_defs = register_bot_def register_geo_def register_rate_def register_validation_def register_def

lemma builtin_create:
  "registry_create (builtin_registry L) n config =
     (if n = ''request-validation'' then Inr (validation_plugin (pb_lower L) (init_validation config))
      else if n = ''rate-limit'' then Inr (rate_plugin (init_rate (pb_redis L) config (pb_redis_state L)))
      else if n = ''geo-block'' then
        (case init_geo (pb_file_exists L) (pb_open_db L) config of
           Inl e \<Rightarrow> Inl (''initializing plugin '' @ n @ '': '' @ e) | Inr p \<Rightarrow> Inr (geo_plugin p))
      else if n = ''bot-protection'' then Inr (bot_plugin (pb_lower L) (init_bot config))
      else Inl (''plugin '' @ n @ '' not registered''))"
  by (simp add: registry_create_def builtin_registry_def register_defs split: sum.split)

text \<open>Every plugin that the built-in registry creates keeps the answering contract.\<close>

lemma builtin_answering: "registry_create (builtin_registry L) n config = Inr p \<Longrightarrow> answering_plugin p"
  by (auto simp: builtin_create rv.answering_plugin_axioms bp.answering_plugin_axioms gb.answering_plugin_axioms
      rp.answering_plugin_axioms split: if_splits sum.splits)

lemma loaded_answering: "p \<in> set (loaded (builtin_registry L) pcs) \<Longrightarrow> answering_plugin p"
proof (induction pcs)
  case (Cons pc pcs)
  then show ?case
    using builtin_answering[of L "pc_name pc" "pc_config pc"]
    by (auto simp: loaded_def map_filter_simps split: sum.splits if_splits)
qed (simp add: loaded_def map_filter_simps)

lemma loaded_validation:
  assumes "pc \<in> set pcs" "pc_enabled pc" "pc_name pc = ''request-validation''"
  shows "validation_plugin (pb_lower L) (init_validation (pc_config pc)) \<in> set (loaded (builtin_registry L) pcs)"
  using assms
proof (induction pcs)
  case (Cons x pcs)
  then show ?case by (auto simp: loaded_def map_filter_simps builtin_create split: sum.splits)
qed simp

section \<open>A chain that passes was passed by every plugin\<close>

lemma chain_passed:
  assumes "\<And>p. p \<in> set ps \<Longrightarrow> answering_plugin p" "fresh_ctx ctx" "run_plugins ps ctx w = (ctx', w', None)" "p \<in> set ps"
  shows "\<exists>c v c' v'. pl_execute p c v = (c', v', None) \<and> fresh_ctx c \<and> cx_request c = cx_request ctx \<and> cx_values c = cx_values ctx"
  using assms
proof (induction ps arbitrary: ctx w)
  case (Cons q ps)
  obtain c1 w1 r where x: "pl_execute q ctx w = (c1, w1, r)" by (cases "pl_execute q ctx w")
  have r: "r = None" "run_plugins ps c1 w1 = (ctx', w', None)" using Cons.prems(3) x by (auto split: option.splits)
  have q: "fresh_ctx c1 \<and> cx_request c1 = cx_request ctx \<and> cx_values c1 = cx_values ctx"
    using answering_plugin.passes[OF Cons.prems(1)[of q] Cons.prems(2)] answering_plugin.stays_fresh[OF Cons.prems(1)[of q] Cons.prems(2)]
      x r(1) by auto
  show ?case
  proof (cases "p = q")
    case True
    then show ?thesis using x r(1) Cons.prems(2) by blast
  next
    case False
    then obtain c v c' v' where "pl_execute p c v = (c', v', None)" "fresh_ctx c" "cx_request c = cx_request c1" "cx_values c = cx_values c1"
      using Cons.IH[of c1 w1] Cons.prems(1,4) q r(2) by auto
    then show ?thesis using q by auto
  qed
qed simp

section \<open>The chain of a sidecar does not change\<close>

lemma recordLearning_chain: "recordLearning env req v i reason s = Some s' \<Longrightarrow> sd_chain s' = sd_chain s"
  by (auto simp: recordLearning_def publish_block_def Let_def split: option.splits if_splits)

lemma handleEvaluate_chain: "handleEvaluate env w r s = Some (w', s') \<Longrightarrow> sd_chain s' = sd_chain s"
  by (auto simp: handleEvaluate_def policy_stage_def scorer_stage_def deny_and_record_def allow_and_record_def Let_def
      dest!: recordLearning_chain split: option.splits if_splits prod.splits sum.splits)

lemma sidecar_serve_chain:
  assumes "sidecar_serve env enc now flusher cs r w s = Some (w', s')"
  shows "sd_chain s' = sd_chain s"
proof -
  have "handleSSE enc flusher cs w s = Some (w', s') \<Longrightarrow> sd_chain s' = sd_chain s"
    by (auto simp: handleSSE_def split: option.splits if_splits prod.splits)
  moreover have "Some (handleRulesAdd now w r s) = Some (w', s') \<Longrightarrow> sd_chain s' = sd_chain s"
    "Some (handleRulesDelete w r s) = Some (w', s') \<Longrightarrow> sd_chain s' = sd_chain s"
    by (auto simp: handleRulesAdd_def handleRulesDelete_def Let_def split: option.splits if_splits)
  ultimately show ?thesis
    using assms handleEvaluate_chain[of env w r s w' s'] unfolding sidecar_serve_def by (simp split: if_splits)
qed

lemma serve_all_chain: "fold_opt serve_call cs s = Some s' \<Longrightarrow> sd_chain s' = sd_chain s"
  by (induction cs arbitrary: s) (auto simp: serve_call_def dest: sidecar_serve_chain split: option.splits)

section \<open>Attacks\<close>

text \<open>An attack in the request reaches the validation plugin, and a denial reaches the client.\<close>

lemma attack_in_values:
  assumes "w \<noteq> []" "cx_values c = cx_values (evaluate_ctx new_response r)"
    and "str_contains (decoded_uri (evaluate_ctx new_response r)) w \<or> str_contains (body_bytes r) w"
  shows "str_contains (decoded_uri c) w \<or> (\<exists>body. value_string c ''wn_body'' = Some body \<and> str_contains body w)"
  using assms(3)
proof
  assume b: "str_contains (body_bytes r) w"
  then have "body_bytes r \<noteq> []" using assms(1) by (cases "body_bytes r") auto
  then have "value_string c ''wn_body'' = Some (body_bytes r)"
    using assms(2) by (simp add: value_string_def evaluate_ctx_def plugin_values_def)
  then show ?thesis using b by blast
qed (use assms(2) in \<open>simp add: decoded_uri_def value_string_def\<close>)

lemma denial_answered:
  assumes "sidecar_inv s" "rq_path r = ''/evaluate''" "answered ctx"
    and "chain_execute (sd_chain s) (evaluate_ctx new_response r) PhasePreRequest (sd_world s) = (ctx, v, Some err)"
  shows "\<exists>w' s'. sidecar_serve env enc now flusher sched r new_response s = Some (w', s') \<and> sent_status w' \<in> {403, 415, 429}"
proof -
  obtain w' s' where ev: "handleEvaluate env new_response r s = Some (w', s')" using evaluate_progress[OF assms(1)] by blast
  have "cx_status_code ctx \<noteq> 0" using assms(3) by (auto simp: answered_def)
  then have "w' = cx_writer ctx" using ev assms(4) by (auto simp: handleEvaluate_def Let_def)
  then have "sent_status w' \<in> {403, 415, 429}" using assms(3) by (auto simp: answered_def sent_status_def)
  then show ?thesis using ev assms(2) by (simp add: sidecar_serve_def)
qed

text \<open>
  C1: a deployment with request validation stops attacks: in an engine started with any
  configuration that enables the built-in plugin \<^verbatim>\<open>request-validation\<close>, beside whatever other
  plugins, after any sequence of earlier requests, a request whose decoded URI or whose body
  (as far as the sidecar reads it) contains a block pattern in any letter case is evaluated to an
  answer of status 403, 415 or 429, never to an allowance.
\<close>

lemma attack_denied:
  assumes "ascii_table (pb_lower L)" "ascii w" "map ascii_lower w \<in> set block_patterns"
    and "pc \<in> set (cf_plugins cfg)" "pc_enabled pc" "pc_name pc = ''request-validation''"
    and "runEngine os ul (builtin_registry L) opened cfg world [] = (None, e)" "eg_sidecar e = Some s0"
    and "fold_opt serve_call cs s0 = Some s" "rq_path r = ''/evaluate''"
    and "str_contains (decoded_uri (evaluate_ctx new_response r)) w \<or> str_contains (body_bytes r) w"
  shows "\<exists>w' s'. sidecar_serve env enc now flusher sched r new_response s = Some (w', s') \<and> sent_status w' \<in> {403, 415, 429}"
proof -
  let ?ps = "loaded (builtin_registry L) (cf_plugins cfg)"
  have s0: "sd_chain s0 = build_chain ?ps" "sidecar_inv s0"
    using runEngine_start[OF assms(7)] started_chain assms(8) by (metis signal_loop.simps(1) option.inject)+
  obtain s2 where "fold_opt serve_call cs s0 = Some s2" "sidecar_inv s2" using serve_all_answers[OF s0(2)] by blast
  then have inv: "sidecar_inv s" using assms(9) by simp
  have chain: "phase_plugins (sd_chain s) PhasePreRequest = sort_key pl_priority (filter (\<lambda>p. pl_phase p = PhasePreRequest) ?ps)"
    using s0(1) serve_all_chain[OF assms(9)] by (simp add: build_chain_phase)
  have ans: "answering_plugin p" if "p \<in> set (phase_plugins (sd_chain s) PhasePreRequest)" for p
    using that loaded_answering by (auto simp: chain)
  let ?v = "validation_plugin (pb_lower L) (init_validation (pc_config pc)) :: 'a limiter_world plugin"
  have v: "?v \<in> set (phase_plugins (sd_chain s) PhasePreRequest)"
    using loaded_validation[OF assms(4-6), of L] by (simp add: chain validation_plugin_def)
  let ?ctx = "evaluate_ctx new_response r"
  obtain ctx v1 res where x: "chain_execute (sd_chain s) ?ctx PhasePreRequest (sd_world s) = (ctx, v1, res)"
    by (rule prod_cases3)
  have "res \<noteq> None"
  proof
    assume "res = None"
    then have "run_plugins (phase_plugins (sd_chain s) PhasePreRequest) ?ctx (sd_world s) = (ctx, v1, None)"
      using x by (simp add: chain_execute_phase)
    from chain_passed[OF ans evaluate_ctx_fresh this v] obtain c u c' u' where
      c: "pl_execute ?v c u = (c', u', None)" "fresh_ctx c" "cx_values c = cx_values ?ctx" by blast
    have "w \<noteq> []" using assms(3) by (auto simp: block_patterns_def)
    note attack_in_values[OF this c(3) assms(11)]
    from validation_denies[OF assms(1-3) c(2) this, of "pc_config pc"] show False
      using c(1) by (auto simp: validation_plugin_def lift_outcome_def split: option.splits)
  qed
  then obtain err where err: "res = Some err" by blast
  have "answered ctx" using run_answering[OF ans evaluate_ctx_fresh x[unfolded chain_execute_phase]] err by simp
  from denial_answered[OF inv assms(10) this x[unfolded err]] show ?thesis .
qed

definition sample_libs :: "unit plugin_libs" where
  "sample_libs =
     \<lparr>pb_lower = ascii_only_lower, pb_file_exists = (\<lambda>_. False), pb_open_db = (\<lambda>_. Inl ''no database''),
      pb_redis = (\<lambda>_ _ _. \<lparr>rc_ping = (\<lambda>_. Some ''down''), rc_incr = (\<lambda>_ u. (Inl ''down'', u)),
        rc_expire = (\<lambda>_ _ u. u), rc_close = (\<lambda>_. None)\<rparr>), pb_redis_state = ()\<rparr>"

definition validating_config :: Config where
  "validating_config = defaultConfig\<lparr>cf_plugins :=
     [\<lparr>pc_name = ''rate-limit'', pc_enabled = True, pc_config = [(''requests_per_second'', DInt 5)]\<rparr>,
      \<lparr>pc_name = ''request-validation'', pc_enabled = True, pc_config = []\<rparr>]\<rparr>"

definition attack_request :: http_request where
  "attack_request = sample_request\<lparr>rq_headers := [''X-Wn-U'' \<mapsto> [''/search?q=%3CScRiPt%3E'']]\<rparr>"

lemma attack_denied_witness:
  "\<exists>e s0 w' s'. runEngine quiet_os ascii_only_lower (builtin_registry sample_libs) False validating_config sample_world [] = (None, e) \<and>
     eg_sidecar e = Some s0 \<and>
     sidecar_serve sample_env (\<lambda>_. []) 0 True [] attack_request new_response s0 = Some (w', s') \<and>
     sent_status w' \<in> {403, 415, 429}"
proof -
  let ?pc = "\<lparr>pc_name = ''request-validation'', pc_enabled = True, pc_config = []\<rparr>"
  obtain e where e: "runEngine quiet_os ascii_only_lower (builtin_registry sample_libs) False validating_config sample_world [] = (None, e)"
    using quiet_run[of ascii_only_lower "builtin_registry sample_libs" False validating_config sample_world "[]"] by blast
  obtain s0 where s0: "eg_sidecar e = Some s0"
    using runEngine_start[OF e] started_chain by (metis signal_loop.simps(1))
  have u: "decoded_uri (evaluate_ctx new_response attack_request) = ''/search?q=<ScRiPt>''"
  proof -
    have "canonical_key ''X-WN-U'' = ''X-Wn-U''" by code_simp
    then have "wn attack_request ''X-WN-U'' = ''/search?q=%3CScRiPt%3E''"
      by (simp add: wn_def header_get_def attack_request_def)
    then have v: "value_string (evaluate_ctx new_response attack_request) ''wn_uri'' = Some ''/search?q=%3CScRiPt%3E''"
      by (simp add: value_string_def evaluate_ctx_def plugin_values_def map_add_def)
    have "query_unescape ''/search?q=%3CScRiPt%3E'' = Some ''/search?q=<ScRiPt>''"
      "replace_byte (CHR ''+'') '' '' ''/search?q=<ScRiPt>'' = ''/search?q=<ScRiPt>''"
      by code_simp+
    then show ?thesis by (simp add: decoded_uri_def v)
  qed
  have "\<exists>w' s'. sidecar_serve sample_env (\<lambda>_. []) 0 True [] attack_request new_response s0 = Some (w', s') \<and>
     sent_status w' \<in> {403, 415, 429}"
  proof (rule attack_denied[OF _ _ _ _ _ _ e s0])
    show "ascii_table (pb_lower sample_libs)" by (simp add: sample_libs_def ascii_only_lower_table)
    show "ascii ''<ScRiPt''" by code_simp
    show "map ascii_lower ''<ScRiPt'' \<in> set block_patterns" by code_simp
    show "?pc \<in> set (cf_plugins validating_config)" by (simp add: validating_config_def)
    show "fold_opt serve_call [] s0 = Some s0" by simp
    show "rq_path attack_request = ''/evaluate''" by (simp add: attack_request_def sample_request_def)
    show "str_contains (decoded_uri (evaluate_ctx new_response attack_request)) ''<ScRiPt'' \<or>
        str_contains (body_bytes attack_request) ''<ScRiPt''"
      unfolding u by code_simp
  qed simp_all
  with e s0 show ?thesis by blast
qed

end
