(* ===== verification/Commands.thy ===== *)
theory Commands
  imports ApiRuns AgentRuns Deployment RateLimit "HOL-Library.Word"
begin

text \<open>
  The commands: \<^verbatim>\<open>start\<close>, \<^verbatim>\<open>check\<close> and \<^verbatim>\<open>version\<close> of \<^verbatim>\<open>cmd/waffynx\<close>, \<^verbatim>\<open>cmd/waf-api\<close> with
  \<^verbatim>\<open>Server.Run\<close>, and \<^verbatim>\<open>cmd/waf-agent\<close>, each from its configuration file to its last signal, and
  \<^verbatim>\<open>logging.Setup\<close>. What a process meets is a sequence of events: requests, signals, lines of
  a stream, ticks. A listener that cannot be opened is logged and the process waits on, so
  whether requests arrive at all is a parameter.
\<close>

section \<open>Logging\<close>

record 'l logger =
  lo_level :: 'l
  lo_output :: string
  lo_console :: bool

text \<open>\<^verbatim>\<open>zerolog.ParseLevel\<close> and the level \<^verbatim>\<open>zerolog.InfoLevel\<close> are parameters.\<close>

definition Setup :: "(string \<Rightarrow> 'l option) \<Rightarrow> 'l \<Rightarrow> LoggingConfig \<Rightarrow> string \<Rightarrow> 'l logger" where
  "Setup parse info cfg level =
     (let lvl = (if level \<noteq> [] then level else lg_level cfg)
      in \<lparr>lo_level = (case parse lvl of None \<Rightarrow> info | Some l \<Rightarrow> l),
          lo_output = (if lg_output cfg = ''stderr'' then ''stderr'' else ''stdout''),
          lo_console = (lg_format cfg = ''console'')\<rparr>)"

section \<open>cmd/waffynx\<close>

definition start_command ::
    "(string \<Rightarrow> 'l option) \<Rightarrow> 'l \<Rightarrow> sys_env \<Rightarrow> (nat \<Rightarrow> nat) \<Rightarrow> 'w registry \<Rightarrow> bool \<Rightarrow> (string \<Rightarrow> string + string) \<Rightarrow>
     (string \<Rightarrow> Config \<Rightarrow> string + Config) \<Rightarrow> string \<Rightarrow> string \<Rightarrow> 'w \<Rightarrow> os_signal list \<Rightarrow>
     parse_error + 'l logger \<times> string option \<times> 'w engine" where
  "start_command parse info os ul reg audit_opened read_file yaml cfgFile logLevel world sigs =
     (case Load read_file yaml cfgFile of
        Inl e \<Rightarrow> Inl e
      | Inr cfg \<Rightarrow> Inr (Setup parse info (cf_logging cfg) logLevel, runEngine os ul reg audit_opened cfg world sigs))"

definition check_command ::
    "(string \<Rightarrow> string + string) \<Rightarrow> (string \<Rightarrow> Config \<Rightarrow> string + Config) \<Rightarrow> string \<Rightarrow> string \<Rightarrow> parse_error + string list" where
  "check_command read_file yaml version cfgFile =
     (case Load read_file yaml cfgFile of
        Inl e \<Rightarrow> Inl e
      | Inr cfg \<Rightarrow> Inr
         [''Configuration valid: '' @ cf_name cfg @ '' (v'' @ version @ '')'',
          ''  Listen:   '' @ cf_listen cfg,
          ''  Sidecar:  '' @ sc_socket_path (cf_sidecar cfg),
          ''  Nginx:    '' @ nx_binary_path (cf_nginx cfg),
          ''  Routes:   '' @ itoa (int (length (cf_routes cfg))) @ '' configured'',
          ''  Plugins:  '' @ itoa (int (length (cf_plugins cfg))) @ '' configured''])"

definition version_command :: "string \<Rightarrow> string \<Rightarrow> string \<Rightarrow> string" where
  "version_command version commit build_time =
     ''Waffynx '' @ version @ '' (commit: '' @ commit @ '', built: '' @ build_time @ '')''"

section \<open>cmd/waf-api\<close>

datatype 'w api_event =
  ApiRequest "'w api_env" "stream_choice list" http_request
| ApiSignal os_signal "'w api_env" "string \<Rightarrow> string + string"
| ContextDone

text \<open>The answers, the last state, and whether the server has stopped; \<^verbatim>\<open>None\<close> is a panic.\<close>

fun api_run :: "bool \<Rightarrow> 'w api_event list \<Rightarrow> api \<Rightarrow> (response list \<times> api \<times> bool) option" where
  "api_run listening [] s = Some ([], s, False)"
| "api_run listening (ApiRequest env cs r # es) s =
     (if listening
      then case api_serve env cs r s of
             None \<Rightarrow> None
           | Some (w, s) \<Rightarrow> map_option (\<lambda>(ws, x). (w # ws, x)) (api_run listening es s)
      else api_run listening es s)"
| "api_run listening (ApiSignal SIGHUP env read_file # es) s = api_run listening es (reload env read_file s)"
| "api_run listening (ApiSignal sig env read_file # es) s = Some ([], s, True)"
| "api_run listening (ContextDone # es) s = Some ([], s, True)"

datatype api_failure = LoadingConfig parse_error | InitializingServer string

definition api_command ::
    "'w api_env \<Rightarrow> (string \<Rightarrow> string + string) \<Rightarrow> bool \<Rightarrow> bool \<Rightarrow> string \<Rightarrow> string \<Rightarrow> string \<Rightarrow> cmd_log \<Rightarrow> 'w api_event list \<Rightarrow>
     api_failure + (response list \<times> api \<times> bool) option" where
  "api_command env read_file audit_opened listening cfgFile uiDir ui_env cl es =
     (case Load read_file (en_yaml env) cfgFile of
        Inl e \<Rightarrow> Inl (LoadingConfig e)
      | Inr cfg \<Rightarrow>
         (case ApiServer.NewServer env audit_opened cfg cfgFile (if uiDir = [] then ui_env else uiDir) cl of
            (Inl e, cl) \<Rightarrow> Inl (InitializingServer e)
          | (Inr s, cl) \<Rightarrow> Inr (api_run listening es s)))"

fun api_stops :: "'w api_event \<Rightarrow> bool" where
  "api_stops (ApiRequest env cs r) = False"
| "api_stops (ApiSignal sig env f) = (sig \<noteq> SIGHUP)"
| "api_stops ContextDone = True"

fun api_asks :: "'w api_event \<Rightarrow> bool" where
  "api_asks (ApiRequest env cs r) = True" | "api_asks _ = False"

lemma api_run_life:
  fixes es :: "unit api_event list"
  assumes "api_reachable s"
  shows "\<exists>ws s'. api_run listening es s = Some (ws, s', list_ex api_stops es) \<and> api_reachable s' \<and>
     length ws = (if listening then length (filter api_asks (takeWhile (Not \<circ> api_stops) es)) else 0)"
  using assms
proof (induction listening es s rule: api_run.induct)
  case (2 listening env cs r es s)
  then show ?case
    using api_serve_result[OF reachable_inv[OF 2(3)], of env cs r] reach_request[OF 2(3), of env cs r] by fastforce
next
  case (3 listening env f es s)
  then show ?case using reach_reload[OF 3(2), of env f] by (cases listening) auto
qed auto

text \<open>
  C11: the management API from its command line to its end: it refuses to start when its
  configuration does not load or its secret is insecure, and in no other case; started, it
  never panics, answers every request that reaches it before the first stop and no later one,
  keeps a well-formed state through every reload, and ends exactly when an interrupt, a
  termination signal or a cancelled context comes, so a hang-up never ends it.
\<close>

lemma api_command_life:
  fixes env :: "unit api_env"
  shows "case api_command env read_file audit_opened listening cfgFile uiDir ui_env cl es of
     Inl e \<Rightarrow> (case Load read_file (en_yaml env) cfgFile of
                Inl _ \<Rightarrow> True | Inr cfg \<Rightarrow> insecure_secret (au_jwt_secret (ap_auth (cf_api cfg))))
   | Inr None \<Rightarrow> False
   | Inr (Some (ws, s, stopped)) \<Rightarrow>
       (\<exists>cfg. Load read_file (en_yaml env) cfgFile = Inr cfg \<and> \<not> insecure_secret (au_jwt_secret (ap_auth (cf_api cfg)))) \<and>
       api_reachable s \<and> stopped = list_ex api_stops es \<and>
       length ws = (if listening then length (filter api_asks (takeWhile (Not \<circ> api_stops) es)) else 0)"
proof (cases "Load read_file (en_yaml env) cfgFile")
  case (Inr cfg)
  define x where "x = ApiServer.NewServer env audit_opened cfg cfgFile (if uiDir = [] then ui_env else uiDir) cl"
  have refuse: "(\<exists>e. fst x = Inl e) = insecure_secret (au_jwt_secret (ap_auth (cf_api cfg)))"
    by (simp add: x_def NewServer_def Let_def split: prod.split)
  show ?thesis
  proof (cases "fst x")
    case (Inl e)
    then show ?thesis using Inr refuse by (cases x) (simp add: api_command_def x_def)
  next
    case s: (Inr s)
    obtain cl' where x: "x = (Inr s, cl')" using s by (cases x) simp
    from reach_start[OF this[unfolded x_def]] have "api_reachable s" .
    from api_run_life[OF this, of listening es] show ?thesis
      using Inr refuse x by (auto simp: api_command_def simp flip: x_def)
  qed
qed (simp add: api_command_def)

section \<open>cmd/waf-agent\<close>

text \<open>A line of the stream arrives on a connection that the management API answered with 200.\<close>

datatype agent_event =
  AgentRequest cmd_env http_request
| StreamLine cmd_env int string
| CleanupTick int
| AgentSignal os_signal

text \<open>The interval of the clean-up ticker, a 64-bit \<^verbatim>\<open>Duration\<close>; \<^verbatim>\<open>NewTicker\<close> panics unless it is positive.\<close>

definition ticker_interval :: "AgentConfig \<Rightarrow> int" where
  "ticker_interval cfg =
     quot (sint (word_of_int (eb_window_seconds (ag_event_broker cfg) * 10 ^ 9) :: 64 word)) 2"

fun agent_run ::
    "(string \<Rightarrow> int option) \<Rightarrow> bool \<Rightarrow> agent_event list \<Rightarrow> agent \<Rightarrow> response list \<times> agent \<times> bool" where
  "agent_run pt listening [] a = ([], a, False)"
| "agent_run pt listening (AgentRequest exec r # es) a =
     (if listening
      then case agent_serve exec r new_response a of
             (w, a) \<Rightarrow> (case agent_run pt listening es a of (ws, x) \<Rightarrow> (w # ws, x))
      else agent_run pt listening es a)"
| "agent_run pt listening (StreamLine exec now line # es) a =
     agent_run pt listening es
       (if eb_enabled (ag_event_broker (ga_cfg a)) then readSSEStream exec pt [(now, line)] a else a)"
| "agent_run pt listening (CleanupTick now # es) a =
     agent_run pt listening es
       (if eb_enabled (ag_event_broker (ga_cfg a)) then a\<lparr>ga_tracker := tracker_cleanup now (ga_tracker a)\<rparr> else a)"
| "agent_run pt listening (AgentSignal sig # es) a = ([], a, True)"

text \<open>\<^verbatim>\<open>None\<close> is the panic of the ticker, which ends the process.\<close>

definition agent_command ::
    "cmd_env \<Rightarrow> (string \<Rightarrow> string + string) \<Rightarrow> (string \<Rightarrow> AgentConfig \<Rightarrow> string + AgentConfig) \<Rightarrow> (string \<Rightarrow> int option) \<Rightarrow>
     bool \<Rightarrow> string \<Rightarrow> cmd_log \<Rightarrow> agent_event list \<Rightarrow> string + (response list \<times> agent \<times> bool) option" where
  "agent_command exec read_file yaml pt listening cfgFile cl es =
     (case LoadAgent read_file yaml cfgFile of
        Inl e \<Rightarrow> Inl (''loading agent config: '' @ e)
      | Inr cfg \<Rightarrow>
         (case runAgent exec cfg cl of
            (Inl e, cl) \<Rightarrow> Inl e
          | (Inr a, cl) \<Rightarrow>
              Inr (if eb_enabled (ag_event_broker cfg) \<and> ticker_interval cfg \<le> 0 then None
                   else Some (agent_run pt listening es a))))"

fun agent_stops :: "agent_event \<Rightarrow> bool" where
  "agent_stops (AgentSignal sig) = True" | "agent_stops _ = False"

fun agent_asks :: "agent_event \<Rightarrow> bool" where
  "agent_asks (AgentRequest exec r) = True" | "agent_asks _ = False"

text \<open>A request that presents the key of the agent.\<close>

fun holds_key :: "AgentConfig \<Rightarrow> agent_event \<Rightarrow> bool" where
  "holds_key cfg (AgentRequest exec r) = (presented_key r = ag_api_key cfg)" | "holds_key cfg _ = False"

lemma block_ip_cfg: "block_ip exec ip a = (e, a') \<Longrightarrow> ga_cfg a' = ga_cfg a" "unblock_ip exec ip a = (e, a') \<Longrightarrow> ga_cfg a' = ga_cfg a"
  by (auto simp: block_ip_def unblock_ip_def split: prod.splits)

lemma handle_event_cfg: "ga_cfg (handle_event exec t e a) = ga_cfg a"
  by (simp add: handle_event_def block_ip_def Let_def split: prod.split)

lemma readSSEStream_cfg: "ga_cfg (readSSEStream exec pt ls a) = ga_cfg a"
proof -
  have "ga_cfg (handle_line exec pt x a) = ga_cfg a" for x a
    by (simp add: handle_line_def handle_event_cfg split: option.split)
  then show ?thesis unfolding readSSEStream_def by (induction ls arbitrary: a) simp_all
qed

lemma agent_handler_cfg: "ga_cfg (snd (agent_handler exec ep bs r w a)) = ga_cfg a"
  by (cases ep)
    (auto simp: authMiddleware_def handleListRules_def handleBlockIP_def handleUnblockIP_def dest: block_ip_cfg
      split: option.split sum.split prod.split)

lemma agent_serve_cfg: "agent_serve exec r w a = (w', a') \<Longrightarrow> ga_cfg a' = ga_cfg a"
  using agent_handler_cfg[of exec _ _ r w a] by (auto simp: agent_serve_def split: option.splits) (metis snd_conv)

lemma agent_serve_denied: "agent_serve exec r w a = (w', a') \<Longrightarrow> \<not> authorized a r \<Longrightarrow> a' = a"
proof -
  have "\<not> authorized a r \<Longrightarrow> snd (agent_handler exec ep bs r w a) = a" for ep bs
    by (cases ep) (simp_all add: authMiddleware_def)
  then show "agent_serve exec r w a = (w', a') \<Longrightarrow> \<not> authorized a r \<Longrightarrow> a' = a"
    by (auto simp: agent_serve_def split: option.splits) (metis snd_conv)
qed

lemma agent_run_life:
  assumes "ag_api_key (ga_cfg a) \<noteq> []"
  shows "case agent_run pt listening es a of (ws, a', stopped) \<Rightarrow>
     ga_cfg a' = ga_cfg a \<and> stopped = list_ex agent_stops es \<and>
     length ws = (if listening then length (filter agent_asks (takeWhile (Not \<circ> agent_stops) es)) else 0) \<and>
     (eb_enabled (ag_event_broker (ga_cfg a)) \<or> list_ex (holds_key (ga_cfg a)) es \<or> a' = a)"
  using assms
proof (induction pt listening es a rule: agent_run.induct)
  case (2 pt listening exec r es a)
  obtain w a1 where x: "agent_serve exec r new_response a = (w, a1)" by fastforce
  have "a1 = a \<or> presented_key r = ag_api_key (ga_cfg a)"
    using agent_serve_denied[OF x] "2.prems" by (auto simp: authorized_def)
  then show ?case
    using "2.IH"(1)[OF _ x[symmetric]] "2.IH"(2) "2.prems" agent_serve_cfg[OF x] x
    by (auto split: prod.splits if_splits)
qed (auto simp: readSSEStream_cfg split: prod.splits if_splits)

text \<open>A window of zero seconds makes the ticker panic; one of one second to 292 years does not.\<close>

lemma ticker_zero: "eb_window_seconds (ag_event_broker cfg) = 0 \<Longrightarrow> ticker_interval cfg = 0"
  by (simp add: ticker_interval_def quot_def)

lemma ticker_positive:
  assumes "1 \<le> eb_window_seconds (ag_event_broker cfg)" "eb_window_seconds (ag_event_broker cfg) \<le> 9223372036"
  shows "0 < ticker_interval cfg"
proof -
  define n where "n = eb_window_seconds (ag_event_broker cfg) * 10 ^ 9"
  have n: "10 ^ 9 \<le> n" "n < 2 ^ 63" using assms by (simp_all add: n_def)
  have "sint (word_of_int n :: 64 word) = n"
    using n by (simp add: signed_of_int signed_take_bit_int_eq_self)
  then have "ticker_interval cfg = quot n 2" unfolding ticker_interval_def n_def[symmetric] by (simp only:)
  then show ?thesis using n by (simp add: quot_def)
qed


end
