(* ===== verification/ApiWitness.thy ===== *)
theory ApiWitness
  imports ApiRuns
begin

text \<open>
  The properties of single handlers of the management API, and a concrete server, library and
  session on which the properties of the API are exercised.
\<close>

section \<open>Firewall\<close>

lemma run_firewall_commands:
  "sv_commands (run_firewall f s) = (case sv_firewall s of None \<Rightarrow> sv_commands s | Some m \<Rightarrow> snd (f m (sv_commands s)))"
  by (simp add: run_firewall_def split: option.split)

lemma audit_publish_commands:
  "record_audit now e s = Some s1 \<Longrightarrow> sv_commands s1 = sv_commands s"
  "publish_to now e' s = Some s1 \<Longrightarrow> sv_commands s1 = sv_commands s"
  by (auto simp: record_audit_def publish_to_def split: option.splits)

definition address_text :: "string \<Rightarrow> bool" where
  "address_text ip = (ip \<noteq> [] \<and> list_all ip_char ip)"

lemma block_commands:
  assumes "handleFirewallBlock env ctx r w s = Some (w', s')" "sv_commands s' \<noteq> sv_commands s"
  shows "\<exists>m ip. sv_firewall s = Some m \<and> address_text ip \<and>
     sv_commands s' = snd (BlockIP m ip (en_exec env) (sv_commands s))"
proof -
  obtain ip reason ttl where d: "decode_first decode_ban (rq_body r) = Some (ip, reason, ttl)"
    using assms by (cases "decode_first decode_ban (rq_body r)") (auto simp: handleFirewallBlock_def)
  let ?ip = "trim_space ip"
  have p: "?ip \<noteq> []" "parse_ip ?ip \<noteq> None"
    using assms d by (auto simp: handleFirewallBlock_def Let_def split: if_splits)
  let ?s = "run_firewall (\<lambda>m. BlockIP m ?ip (en_exec env))
    (s\<lparr>sv_banned := AList.update ?ip (make_ban (en_now env) ?ip reason ttl) (sv_banned s)\<rparr>)"
  have "sv_commands s' = sv_commands ?s"
    using assms(1) d p by (auto simp: handleFirewallBlock_def Let_def audit_publish_commands split: option.splits)
  then show ?thesis
    using assms(2) p parse_ip_chars[OF p(2)] by (auto simp: run_firewall_commands address_text_def split: option.splits)
qed

lemma unblock_commands:
  assumes "handleFirewallUnblock env ip ctx r w s = Some (w', s')" "sv_commands s' \<noteq> sv_commands s"
  shows "\<exists>m. sv_firewall s = Some m \<and> address_text ip \<and>
     sv_commands s' = snd (UnblockIP m ip (en_exec env) (sv_commands s))"
proof -
  have p: "ip \<noteq> []" "parse_ip ip \<noteq> None"
    using assms by (auto simp: handleFirewallUnblock_def split: if_splits)
  let ?s = "run_firewall (\<lambda>m. UnblockIP m ip (en_exec env)) (s\<lparr>sv_banned := AList.delete ip (sv_banned s)\<rparr>)"
  have "sv_commands s' = sv_commands ?s"
    using assms(1) p by (auto simp: handleFirewallUnblock_def Let_def audit_publish_commands)
  then show ?thesis
    using assms(2) p parse_ip_chars[OF p(2)] by (auto simp: run_firewall_commands address_text_def split: option.splits)
qed

lemma api_serve_mux:
  assumes "api_serve env cs r s = Some (w, s')"
  obtains s1 where "mux_handler env cs None r new_response s = Some (w, s1)" "sv_commands s1 = sv_commands s'"
  using assms by (auto simp: api_serve_def auditMiddleware_def split: if_splits option.splits)

text \<open>
  C22: the management API hands the firewall nothing but addresses: whatever the request, if it
  makes the server run a command, then it is one block or one unblock of a text of hexadecimal
  digits, dots and colons, so no other word of the command line can come from a request.
\<close>

lemma api_commands_addresses:
  assumes "api_serve env cs r s = Some (w, s')" "sv_commands s' \<noteq> sv_commands s"
  shows "\<exists>m ip. sv_firewall s = Some m \<and> address_text ip \<and>
     (sv_commands s' = snd (BlockIP m ip (en_exec env) (sv_commands s)) \<or>
      sv_commands s' = snd (UnblockIP m ip (en_exec env) (sv_commands s)))"
proof -
  obtain s1 where s1: "mux_handler env cs None r new_response s = Some (w, s1)" "sv_commands s1 = sv_commands s'"
    using assms(1) by (rule api_serve_mux)
  then obtain ep bs where e: "mux_find api_routes (rq_method r) (rq_path r) = Some (ep, bs)"
    "endpoint_handler env cs bs ep None r new_response s = Some (w, s1)"
    using assms(2) by (auto simp: mux_handler_def split: option.splits)
  have ep: "ep = EpFirewallBlock \<or> ep = EpFirewallUnblock"
    using quietD[OF endpoint_quiet e(2)] s1(2) assms(2) by metis
  obtain h where h: "session_handler env cs bs ep = Some h" using ep by auto
  have pub: "\<not> public_endpoint ep" using ep by (auto simp: public_endpoint_def)
  have "authMiddleware env h None r (cors_response r s new_response) s = Some (w, s1)"
    using e(2) session_method[OF e(1) pub] by (simp add: endpoint_session[OF h] corsMiddleware_pass)
  then obtain c where "h (Some c) r (cors_response r s new_response) s = Some (w, s1)"
    using s1(2) assms(2) by (auto simp: authMiddleware_bearer split: sum.splits)
  then have "handleFirewallBlock env (Some c) r (cors_response r s new_response) s = Some (w, s1) \<or>
      handleFirewallUnblock env (path_value bs ''ip'') (Some c) r (cors_response r s new_response) s = Some (w, s1)"
    using ep h s1(2) assms(2) by (auto simp: requireRole_def split: if_splits)
  then show ?thesis using block_commands unblock_commands s1(2) assms(2) by metis
qed

section \<open>Configuration\<close>


text \<open>The strength of the key is only checked at the start.\<close>

lemma reload_takes_any_secret:
  "Load f (en_yaml env) (sv_config_path s) = Inr cfg \<Longrightarrow> sv_auth (reload env f s) = auth_of cfg"
  by (simp add: reload_def use_config_def auth_of_def)

section \<open>Events\<close>

lemma ingest_plain:
  assumes "plain_event ft e" "pt (ft (ev_timestamp e)) = Some (ev_timestamp e)" "Validate e = Inr ()"
    "length (event_text ft fn e) \<le> MaxEventBodyBytes"
  shows "ingest_event pt (event_text ft fn e) = Inr e"
proof -
  have "parse_event pt (event_text ft fn e) = Some e" using assms(1,2) by (rule parse_event_text)
  then obtain v where v: "json_run MValue [] (json_tokens (event_text ft fn e)) = Some (v, [])" "decode_event pt v = Some e"
    by (auto simp: parse_event_def json_parse_def split: bind_splits option.splits list.splits)
  then have "json_tokens (event_text ft fn e) \<noteq> []" by auto
  then show ?thesis using v assms(3,4) by (simp add: ingest_event_def decode_value_def)
qed

lemma ingest_runs:
  assumes "api_inv s" "sv_broker s = Some b" "rq_method r = ''POST''" "rq_path r = ''/api/v1/events''"
    "bearer env r s = Inr c" "''events:write'' \<in> set (cl_scopes c)" "ingest_event (en_parse_time env) (rq_body r) = Inr e"
  shows "\<exists>w a b'. api_serve env cs r s = Some (w, s\<lparr>sv_broker := Some b', sv_audit := a\<rparr>) \<and> sent_status w = 202 \<and>
     Publish (en_publish_time env) e b = Some b'"
proof -
  obtain b' where b': "Publish (en_publish_time env) e b = Some b'"
    using Publish_total[OF api_inv_brokerD[OF assms(1,2)]] by blast
  let ?w = "writeJSON 202 (DMap [(''status'', DStr ''ingested'')]) (cors_response r s new_response)"
  have "list_ex (\<lambda>g. g = ''events:write'') (cl_scopes c)" using assms(6) by (auto simp: list_ex_iff)
  then have m: "mux_handler env cs None r new_response s = Some (?w, s\<lparr>sv_broker := Some b'\<rparr>)"
    using assms(2-5,7) b'
    by (simp add: mux_handler_def route_ingest corsMiddleware_pass authMiddleware_bearer requireScope_def
        handleIngestEvent_def publish_to_def)
  have "sent_status ?w = 202" by (simp add: sent_status_def new_response_def)
  then show ?thesis using api_serve_result[OF assms(1), of env cs r] m b' by auto
qed


section \<open>A concrete server\<close>

definition sample_session :: claims where
  "sample_session =
     \<lparr>cl_id = ''u1'', cl_subject = ''alice'', cl_issued_at = 0, cl_expires_at = 3600 * 10 ^ 9, cl_username = ''alice'',
      cl_role = ''admin'', cl_scopes = login_scopes\<rparr>"

definition ingest_session :: claims where
  "ingest_session = sample_session\<lparr>cl_username := ''sidecar'', cl_scopes := [''events:write'']\<rparr>"

text \<open>A library that signs these two sessions only and checks the key.\<close>

definition sample_jwt :: jwt_lib where
  "sample_jwt =
     \<lparr>jl_numeric_date = (\<lambda>t. t),
      jl_sign = (\<lambda>key c. if c = sample_session then Inr (''a.'' @ key) else if c = ingest_session then Inr (''i.'' @ key)
                 else Inl ''unknown claims''),
      jl_parse = (\<lambda>now tok keyfunc. case keyfunc (SigningMethodHMAC ''HS256'') of
          Inl e \<Rightarrow> Inl e
        | Inr key \<Rightarrow>
            if 3600 * 10 ^ 9 \<le> now then Inl ''token is expired''
            else if tok = ''a.'' @ key then Inr (sample_session, True)
            else if tok = ''i.'' @ key then Inr (ingest_session, True) else Inl ''signature is invalid'')\<rparr>"

definition sample_secret :: string where "sample_secret = ''0123456789abcdef0123456789abcdef''"

definition sample_api_cfg :: Config where
  "sample_api_cfg = defaultConfig\<lparr>cf_api := \<lparr>ap_enabled = True, ap_listen = '':9090'', ap_allowed_origins = [],
     ap_auth = \<lparr>au_jwt_secret = sample_secret, au_token_ttl = 3600, au_oidc = [],
       au_users = [\<lparr>us_username = ''alice'', us_password_hash = ''h''\<rparr>]\<rparr>\<rparr>,
     cf_firewall := \<lparr>fw_enabled = True, fw_backend = ''nftables'', fw_default_in = [], fw_default_out = [],
       fw_managed_ports = [], fw_block_list = []\<rparr>\<rparr>"

definition sample_api_env :: "unit api_env" where
  "sample_api_env =
     \<lparr>en_now = 0, en_record_time = 0, en_audit_time = 0, en_publish_time = 7, en_uuid = ''u1'', en_jwt = sample_jwt,
      en_oidc = \<lparr>ol_discover = (\<lambda>_. None), ol_verify = (\<lambda>_ _ _. Inl []), ol_claims = (\<lambda>_. Inl [])\<rparr>,
      en_bcrypt = (\<lambda>h p. if p = ''pw'' then None else Some ''mismatch''), en_exec = (\<lambda>_. ([], None)),
      en_parse_time = atoi, en_rfc3339 = itoa, en_utc_seconds = itoa, en_float_text = (\<lambda>_. ''0''), en_is_upper = (\<lambda>r. 65 \<le> r \<and> r \<le> 90),
      en_lower = ascii_only_lower, en_yaml_config = (\<lambda>_. Inr []), en_yaml_map = (\<lambda>_. Inr ''merged''),
      en_yaml_to_map = (\<lambda>_. Inr []), en_yaml = (\<lambda>_ cfg. Inr cfg), en_write_file = (\<lambda>_ _. None),
      en_read_file = (\<lambda>_. None), en_embedded = (\<lambda>_. None), en_mime = (\<lambda>_. []), en_external = (\<lambda>_ _ w. w),
      en_registry = \<lparr>reg_plugins = [], reg_meta = []\<rparr>,
      en_runtime = \<lparr>rt_goroutines = 1, rt_alloc = 0, rt_total_alloc = 0, rt_heap_alloc = 0, rt_heap_inuse = 0,
        rt_stack_inuse = 0, rt_pause_ns = replicate 256 0, rt_num_gc = 0, rt_go_version = []\<rparr>,
      en_version = (''dev'', ''unknown'', ''unknown'')\<rparr>"

definition sample_api :: api where
  "sample_api =
     (case fst (NewServer sample_api_env False sample_api_cfg ''/etc/waffynx.yml'' ''/srv/ui'' []) of Inr s \<Rightarrow> s)"

lemma sample_api_starts:
  "\<exists>cl. NewServer sample_api_env False sample_api_cfg ''/etc/waffynx.yml'' ''/srv/ui'' [] = (Inr sample_api, cl)"
proof -
  have "\<not> insecure_secret (au_jwt_secret (ap_auth (cf_api sample_api_cfg)))"
    by (simp add: insecure_secret_def sample_api_cfg_def sample_secret_def)
  then show ?thesis by (simp add: sample_api_def NewServer_def Let_def split: prod.split)
qed

lemma sample_reachable: "api_reachable sample_api"
  using sample_api_starts reach_start by blast

lemma sample_api_inv: "api_inv sample_api"
  by (rule reachable_inv[OF sample_reachable])

lemma sample_api_fields:
  "sv_cfg sample_api = sample_api_cfg" "sv_auth sample_api = auth_of sample_api_cfg" "\<not> oidc_enabled (sv_oidc sample_api)"
  "sv_ui_dir sample_api = ''/srv/ui''" "sv_broker sample_api = Some NewBroker"
  "sv_store sample_api = seedMarketplace 0 NewInMemoryStore" "am_secret (sv_auth sample_api) = sample_secret"
  "am_ttl (sv_auth sample_api) = 3600 * 10 ^ 9"
  "sv_firewall sample_api = Some \<lparr>mg_backend = NFTablesBackend, mg_cfg = cf_firewall sample_api_cfg\<rparr>"
proof -
  have "\<not> insecure_secret (au_jwt_secret (ap_auth (cf_api sample_api_cfg)))"
    by (simp add: insecure_secret_def sample_api_cfg_def sample_secret_def)
  moreover have "au_oidc (ap_auth (cf_api sample_api_cfg)) = []" "fw_enabled (cf_firewall sample_api_cfg)"
    "fw_backend (cf_firewall sample_api_cfg) = ''nftables''"
    by (simp_all add: sample_api_cfg_def)
  ultimately have e: "sv_cfg sample_api = sample_api_cfg \<and> sv_auth sample_api = auth_of sample_api_cfg \<and>
      sv_oidc sample_api = NewOIDCManager \<and> sv_ui_dir sample_api = ''/srv/ui'' \<and> sv_broker sample_api = Some NewBroker \<and>
      sv_store sample_api = seedMarketplace 0 NewInMemoryStore \<and>
      sv_firewall sample_api = Some \<lparr>mg_backend = NFTablesBackend, mg_cfg = cf_firewall sample_api_cfg\<rparr>"
    by (simp add: sample_api_def NewServer_def start_firewall_def Firewall.NewManager_def auth_of_def Configure_def
        sample_api_env_def Let_def split_beta)
  then show "sv_cfg sample_api = sample_api_cfg" "sv_auth sample_api = auth_of sample_api_cfg"
    "\<not> oidc_enabled (sv_oidc sample_api)" "sv_ui_dir sample_api = ''/srv/ui''" "sv_broker sample_api = Some NewBroker"
    "sv_store sample_api = seedMarketplace 0 NewInMemoryStore" "am_secret (sv_auth sample_api) = sample_secret"
    "am_ttl (sv_auth sample_api) = 3600 * 10 ^ 9"
    "sv_firewall sample_api = Some \<lparr>mg_backend = NFTablesBackend, mg_cfg = cf_firewall sample_api_cfg\<rparr>"
    by (simp_all add: oidc_enabled_def NewOIDCManager_def auth_of_def Auth.NewManager_def sample_api_cfg_def)
qed

lemma sample_jwt_round_trip: "jwt_round_trip (en_jwt sample_api_env)"
  by (auto simp: jwt_round_trip_def sample_api_env_def sample_jwt_def ingest_session_def sample_session_def)

text \<open>A request with a token of the library.\<close>

definition sample_request :: "string \<Rightarrow> string \<Rightarrow> string \<Rightarrow> string \<Rightarrow> http_request" where
  "sample_request m path auth body =
     \<lparr>rq_method = m, rq_path = path, rq_query = [], rq_host = [],
      rq_headers = (if auth = [] then Map.empty else [''Authorization'' \<mapsto> [auth]]), rq_remote_addr = ''10.0.0.7:5000'',
      rq_content_length = int (length body), rq_body = body\<rparr>"

lemma sample_auth_header: "header_get (rq_headers (sample_request m path auth body)) ''Authorization'' = auth"
proof -
  have "canonical_key ''Authorization'' = ''Authorization''" by code_simp
  then show ?thesis by (simp add: sample_request_def header_get_def)
qed

definition admin_token :: string where "admin_token = ''Bearer a.'' @ sample_secret"
definition ingest_token :: string where "ingest_token = ''Bearer i.'' @ sample_secret"

lemma sample_bearer:
  "bearer sample_api_env (sample_request m path admin_token body) sample_api = Inr sample_session"
  "bearer sample_api_env (sample_request m path ingest_token body) sample_api = Inr ingest_session"
  "bearer sample_api_env (sample_request m path [] body) sample_api = Inl ''missing authorization header''"
proof -
  have t: "trim_prefix admin_token ''Bearer '' = ''a.'' @ sample_secret" "trim_prefix ingest_token ''Bearer '' = ''i.'' @ sample_secret"
    unfolding admin_token_def ingest_token_def sample_secret_def by code_simp+
  have n: "admin_token \<noteq> []" "ingest_token \<noteq> []" "''a.'' @ sample_secret \<noteq> admin_token" "''i.'' @ sample_secret \<noteq> ingest_token"
    by (simp_all add: admin_token_def ingest_token_def)
  have k: "signing_key (auth_of sample_api_cfg) (SigningMethodHMAC a) = Inr sample_secret" for a
    using sample_api_fields by (simp add: signing_key_def)
  have a: "authenticate sample_api_env (''a.'' @ sample_secret) sample_api = Inr sample_session"
    "authenticate sample_api_env (''i.'' @ sample_secret) sample_api = Inr ingest_session"
    using k by (simp_all add: authenticate_def ValidateToken_def sample_api_fields sample_api_env_def sample_jwt_def)
  show "bearer sample_api_env (sample_request m path admin_token body) sample_api = Inr sample_session"
    "bearer sample_api_env (sample_request m path ingest_token body) sample_api = Inr ingest_session"
    "bearer sample_api_env (sample_request m path [] body) sample_api = Inl ''missing authorization header''"
    using n a by (simp_all add: bearer_def sample_auth_header t Let_def)
qed

section \<open>The properties on it\<close>

lemma api_always_answers_witness:
  "\<exists>w s'. api_serve sample_api_env [StreamTick, StreamDone] (sample_request ''GET'' ''/api/v1/events'' admin_token []) sample_api =
     Some (w, s') \<and> api_reachable s'"
  using api_always_answers[OF sample_reachable] by blast

lemma route_config: "mux_find api_routes ''PUT'' ''/api/v1/config'' = Some (EpUpdateConfig, [])"
  by code_simp


lemma route_install:
  "mux_find api_routes ''POST'' ''/api/v1/marketplace/install/geo-block'' = Some (EpMarketInstall, [(''name'', ''geo-block'')])"
  by code_simp

lemma sample_install:
  "\<exists>w s'. api_serve sample_api_env [] (sample_request ''POST'' ''/api/v1/marketplace/install/geo-block'' admin_token []) sample_api =
     Some (w, s') \<and> control s' \<noteq> control sample_api"
proof -
  let ?r = "sample_request ''POST'' ''/api/v1/marketplace/install/geo-block'' admin_token []"
  obtain st where st: "install_package ''geo-block'' ''1.0.0'' (seedMarketplace 0 NewInMemoryStore) = Inr st"
      "st \<noteq> seedMarketplace 0 NewInMemoryStore"
  proof -
    have "\<exists>st. install_package ''geo-block'' ''1.0.0'' (seedMarketplace 0 NewInMemoryStore) = Inr st \<and>
        st \<noteq> seedMarketplace 0 NewInMemoryStore"
      by (simp add: install_package_def seedMarketplace_def NewInMemoryStore_def add_package_def sample_of_def)
    with that show thesis by blast
  qed
  have r: "rq_method ?r = ''POST''" "rq_path ?r = ''/api/v1/marketplace/install/geo-block''" "query_version ?r = ''1.0.0''"
    by (simp_all add: sample_request_def query_version_def query_get_def)
  have "\<exists>w. mux_handler sample_api_env [] None ?r new_response sample_api = Some (w, sample_api\<lparr>sv_store := st\<rparr>)"
    using st by (simp add: mux_handler_def r route_install corsMiddleware_pass authMiddleware_bearer sample_bearer
        requireRole_def handleMarketplaceInstall_def path_value_def sample_api_fields)
      (simp add: sample_session_def)
  then obtain w a where "api_serve sample_api_env [] ?r sample_api = Some (w, sample_api\<lparr>sv_store := st, sv_audit := a\<rparr>)"
    using api_serve_result[OF sample_api_inv, of sample_api_env "[]" ?r] by auto
  moreover have "control (sample_api\<lparr>sv_store := st, sv_audit := a\<rparr>) \<noteq> control sample_api"
    using st(2) by (simp add: control_def sample_api_fields)
  ultimately show ?thesis by blast
qed

lemma api_control_admin_witness:
  "\<exists>w s' c. api_serve sample_api_env [] (sample_request ''POST'' ''/api/v1/marketplace/install/geo-block'' admin_token []) sample_api =
     Some (w, s') \<and> control s' \<noteq> control sample_api \<and>
     bearer sample_api_env (sample_request ''POST'' ''/api/v1/marketplace/install/geo-block'' admin_token []) sample_api = Inr c \<and>
     cl_role c = ''admin''"
proof -
  obtain w s' where "api_serve sample_api_env [] (sample_request ''POST'' ''/api/v1/marketplace/install/geo-block'' admin_token []) sample_api =
     Some (w, s')" "control s' \<noteq> control sample_api"
    using sample_install by blast
  with api_control_admin[OF this] show ?thesis by blast
qed

lemma api_audits_witness:
  "\<exists>w s' a. api_serve sample_api_env [] (sample_request ''GET'' ''/api/v1/audit'' [] []) sample_api = Some (w, s') \<and>
     sv_audit s' = Some a \<and>
     ae_action (List.last (chronological (aud_pos a) (aud_events a))) = ''GET /api/v1/audit'' \<and>
     ae_actor (List.last (chronological (aud_pos a) (aud_events a))) = ''anonymous''"
proof -
  let ?r = "sample_request ''GET'' ''/api/v1/audit'' [] []"
  obtain w s' where s': "api_serve sample_api_env [] ?r sample_api = Some (w, s')"
    using api_serve_result[OF sample_api_inv, of sample_api_env "[]" ?r] by blast
  have r: "rq_method ?r = ''GET''" "rq_path ?r = ''/api/v1/audit''" by (simp_all add: sample_request_def)
  from api_audits[OF sample_api_inv s'] obtain a where a: "sv_audit s' = Some a"
    "List.last (chronological (aud_pos a) (aud_events a)) =
       empty_event\<lparr>ae_timestamp := en_audit_time sample_api_env, ae_actor := ''anonymous'', ae_actor_ip := rq_remote_addr ?r,
         ae_action := rq_method ?r @ '' '' @ rq_path ?r, ae_result := (if 400 \<le> sent_status w then ''blocked'' else ''allowed''),
         ae_details := ''HTTP '' @ itoa (int (sent_status w))\<rparr>" by blast
  have "ae_action (List.last (chronological (aud_pos a) (aud_events a))) = ''GET /api/v1/audit''"
    "ae_actor (List.last (chronological (aud_pos a) (aud_events a))) = ''anonymous''"
    unfolding a(2) r by simp_all
  with s' a(1) show ?thesis by blast
qed

lemma route_unblock:
  "mux_find api_routes ''DELETE'' ''/api/v1/firewall/unblock/10.0.0.9'' = Some (EpFirewallUnblock, [(''ip'', ''10.0.0.9'')])"
  by code_simp


lemma api_commands_addresses_witness:
  "\<exists>w s' ip. api_serve sample_api_env [] (sample_request ''DELETE'' ''/api/v1/firewall/unblock/10.0.0.9'' admin_token []) sample_api =
     Some (w, s') \<and> sv_commands s' \<noteq> sv_commands sample_api \<and> address_text ip"
proof -
  let ?r = "sample_request ''DELETE'' ''/api/v1/firewall/unblock/10.0.0.9'' admin_token []"
  let ?ip = "''10.0.0.9''"
  have p: "parse_ip ?ip \<noteq> None" by code_simp
  have r: "rq_method ?r = ''DELETE''" "rq_path ?r = ''/api/v1/firewall/unblock/10.0.0.9''" by (simp_all add: sample_request_def)
  obtain w s1 a where s1: "mux_handler sample_api_env [] None ?r new_response sample_api = Some (w, s1)"
    "api_serve sample_api_env [] ?r sample_api = Some (w, s1\<lparr>sv_audit := Some a\<rparr>)"
    using api_serve_result[OF sample_api_inv, of sample_api_env "[]" ?r] by blast
  have "handleFirewallUnblock sample_api_env ?ip (Some sample_session) ?r (cors_response ?r sample_api new_response) sample_api = Some (w, s1)"
    using s1(1) by (simp add: mux_handler_def r route_unblock corsMiddleware_pass authMiddleware_bearer sample_bearer
        requireRole_def path_value_def) (simp add: sample_session_def)
  then have "sv_commands s1 = snd (UnblockIP \<lparr>mg_backend = NFTablesBackend, mg_cfg = cf_firewall sample_api_cfg\<rparr> ?ip
      (en_exec sample_api_env) (sv_commands sample_api))"
    using p by (auto simp: handleFirewallUnblock_def Let_def audit_publish_commands run_firewall_commands sample_api_fields)
  then have "sv_commands (s1\<lparr>sv_audit := Some a\<rparr>) \<noteq> sv_commands sample_api"
    by (simp add: UnblockIP_def NFTablesBackend_def run_err_eq)
  with api_commands_addresses[OF s1(2) this] s1(2) show ?thesis by blast
qed

definition login_body :: string where "login_body = ''{\"username\":\"alice\",\"password\":\"pw\"}''"

lemma login_body_decodes: "decode_first decode_login login_body = Some (''alice'', ''pw'')"
  by code_simp

lemma sample_login:
  "handleLogin sample_api_env None (sample_request ''POST'' ''/api/v1/auth/login'' [] login_body) new_response sample_api =
     Some (writeJSON 200 (DMap [(''token'', DStr (''a.'' @ sample_secret))]) new_response, sample_api)"
proof -
  have c: "token_claims sample_jwt ''u1'' 0 ''alice'' ''admin'' login_scopes (auth_of sample_api_cfg) = sample_session"
    using sample_api_fields by (simp add: token_claims_def sample_session_def sample_jwt_def)
  have b: "rq_body (sample_request ''POST'' ''/api/v1/auth/login'' [] login_body) = login_body" by (simp add: sample_request_def)
  have u: "au_users (ap_auth (cf_api sample_api_cfg)) = [\<lparr>us_username = ''alice'', us_password_hash = ''h''\<rparr>]"
    by (simp add: sample_api_cfg_def)
  have e: "en_bcrypt sample_api_env h ''pw'' = None" "en_jwt sample_api_env = sample_jwt" "en_uuid sample_api_env = ''u1''"
    "en_now sample_api_env = 0" for h by (simp_all add: sample_api_env_def)
  have g: "GenerateToken sample_jwt ''u1'' 0 ''alice'' ''admin'' login_scopes (auth_of sample_api_cfg) = Inr (''a.'' @ sample_secret)"
    using sample_api_fields unfolding GenerateToken_def c by (simp add: sample_jwt_def)
  show ?thesis by (simp add: handleLogin_def b login_body_decodes sample_api_fields u e g)
qed

lemma login_session_witness:
  "\<exists>user token. user = ''alice'' \<and>
     (\<exists>c. bearer sample_api_env (sample_request ''GET'' ''/api/v1/status'' (bearer_prefix @ token) []) sample_api = Inr c \<and>
        cl_username c = user) \<and>
     (\<exists>w2 a. api_serve sample_api_env [] (sample_request ''POST'' ''/api/v1/events'' (bearer_prefix @ token) []) sample_api =
        Some (w2, sample_api\<lparr>sv_audit := a\<rparr>) \<and> sent_status w2 = 403)"
proof -
  let ?q = "sample_request ''POST'' ''/api/v1/auth/login'' [] login_body"
  have b: "rq_body ?q = login_body" by (simp add: sample_request_def)
  have "0 < jl_numeric_date (en_jwt sample_api_env) (en_now sample_api_env + am_ttl (sv_auth sample_api))"
    by (simp add: sample_api_fields(8) sample_api_env_def sample_jwt_def)
  then have "en_now sample_api_env < jl_numeric_date (en_jwt sample_api_env) (en_now sample_api_env + am_ttl (sv_auth sample_api))"
    by (simp add: sample_api_env_def)
  moreover have "rs_status (writeJSON 200 (DMap [(''token'', DStr (''a.'' @ sample_secret))]) new_response) = Some 200"
    by (simp add: new_response_def)
  moreover have "rs_status new_response = None" by (simp add: new_response_def)
  moreover have "rq_method (sample_request m p t x) = m" "rq_path (sample_request m p t x) = p" for m p t x
    by (simp_all add: sample_request_def)
  ultimately show ?thesis
    using login_session[OF sample_login _ _ sample_jwt_round_trip, where 'a = unit and cs = "[]"] sample_auth_header
      sample_api_fields(3) sample_api_inv b login_body_decodes by (metis option.inject prod.inject)
qed

definition update_body :: string where "update_body = ''{\"listen\":\":1\"}''"


end
