(* ===== verification/Pipeline.thy ===== *)
theory Pipeline
  imports AgentRuns ApiWitness
begin

text \<open>
  The way of an event between the programs: the publisher of the sidecar, the ingest of the
  management API behind its authentication, and the broker that the event streams read from.
\<close>

text \<open>The request that the publisher makes, as the API server receives it; the URL names the ingest.\<close>

definition event_request :: "publisher \<Rightarrow> waf_event \<Rightarrow> out_request" where
  "event_request p e =
     \<lparr>or_method = ''POST'', or_url = pb_url p,
      or_headers = header_set ''Content-Type'' ''application/json''
        (header_set ''Authorization'' (''Bearer '' @ pb_token p) Map.empty),
      or_body = e\<rparr>"

definition received_request :: "(int \<Rightarrow> string) \<Rightarrow> (float64 \<Rightarrow> string) \<Rightarrow> string \<Rightarrow> out_request \<Rightarrow> http_request" where
  "received_request ft fn path q =
     \<lparr>rq_method = or_method q, rq_path = path, rq_query = [], rq_host = [], rq_headers = or_headers q,
      rq_remote_addr = [], rq_content_length = int (length (event_text ft fn (or_body q))),
      rq_body = event_text ft fn (or_body q)\<rparr>"

text \<open>The HTTP client whose server is the management API.\<close>

definition api_client ::
    "'w api_env \<Rightarrow> stream_choice list \<Rightarrow> (int \<Rightarrow> string) \<Rightarrow> (float64 \<Rightarrow> string) \<Rightarrow> api \<Rightarrow> int \<Rightarrow> out_request \<Rightarrow> string + nat" where
  "api_client env cs ft fn s timeout q =
     (case api_serve env cs (received_request ft fn ''/api/v1/events'' q) s of
        None \<Rightarrow> Inl ''EOF'' | Some (w, _) \<Rightarrow> Inr (sent_status w))"

text \<open>The API takes in a valid event.\<close>

lemma report_ingested:
  assumes "api_inv api" "sv_broker api = Some ab" "bearer env (received_request ft fn ''/api/v1/events'' (event_request p e)) api = Inr c"
    and "''events:write'' \<in> set (cl_scopes c)" "en_parse_time env (ft (ev_timestamp e)) = Some (ev_timestamp e)"
    and "Validate e = Inr ()" "plain_event ft e" "length (event_text ft fn e) \<le> MaxEventBodyBytes"
  shows "\<exists>w x ab'. api_serve env cs (received_request ft fn ''/api/v1/events'' (event_request p e)) api =
       Some (w, api\<lparr>sv_broker := Some ab', sv_audit := x\<rparr>) \<and> sent_status w = 202 \<and>
     Publish (en_publish_time env) e ab = Some ab'"
proof -
  let ?r = "received_request ft fn ''/api/v1/events'' (event_request p e)"
  have r: "rq_method ?r = ''POST''" "rq_path ?r = ''/api/v1/events''" "rq_body ?r = event_text ft fn e"
    by (simp_all add: received_request_def event_request_def)
  have "ingest_event (en_parse_time env) (rq_body ?r) = Inr e" unfolding r(3) using assms by (intro ingest_plain)
  from ingest_runs[OF assms(1,2) r(1,2) assms(3,4) this] show ?thesis by blast
qed


definition sample_publisher :: publisher where
  "sample_publisher = NewPublisher ''http://api:9090/api/v1/events'' (''i.'' @ sample_secret) 0"

lemma sample_publisher_bearer:
  "bearer sample_api_env (received_request ft fn path (event_request sample_publisher e)) sample_api = Inr ingest_session"
proof -
  let ?r = "received_request ft fn path (event_request sample_publisher e)"
  have k: "canonical_key ''Authorization'' = ''Authorization''" "canonical_key ''Content-Type'' = ''Content-Type''"
    by code_simp+
  have h: "header_get (rq_headers ?r) ''Authorization'' = ingest_token"
    by (simp add: received_request_def event_request_def header_get_def header_set_def k sample_publisher_def NewPublisher_def
        ingest_token_def)
  have "bearer sample_api_env ?r sample_api = bearer sample_api_env (sample_request [] [] ingest_token []) sample_api"
    unfolding bearer_def sample_auth_header h ..
  then show ?thesis by (simp add: sample_bearer)
qed


end
