(* ===== verification/GoJsonRead.thy ===== *)
theory GoJsonRead
  imports GoJsonText
begin

text \<open>
  What the decoder of \<^theory_text>\<open>GoJson\<close> makes of encoded values of every kind: a text reads as a value
  if, wherever a value may stand, the machine consumes exactly this text and delivers the value.
\<close>

definition reads :: "string \<Rightarrow> dyn \<Rightarrow> bool" where
  "reads s v \<longleftrightarrow> (\<forall>c t m st st'. c \<in> {CHR '','', CHR ''}'', CHR '']''} \<longrightarrow> m \<in> {MValue, MFirst} \<longrightarrow> with_value v st = Some st' \<longrightarrow>
     json_run m st (json_tokens (s @ c # t)) = json_run MAfter st' (json_tokens (c # t)))"

lemma readsD:
  "reads s v \<Longrightarrow> c \<in> {CHR '','', CHR ''}'', CHR '']''} \<Longrightarrow> m \<in> {MValue, MFirst} \<Longrightarrow> with_value v st = Some st' \<Longrightarrow>
   json_run m st (json_tokens (s @ c # t)) = json_run MAfter st' (json_tokens (c # t))"
  unfolding reads_def by blast

lemma with_value_cons: "with_value v st = Some st' \<Longrightarrow> st \<noteq> []"
  by (auto simp: with_value_def)

lemma reads_token:
  assumes "\<And>c t. c \<in> {CHR '','', CHR ''}'', CHR '']''} \<Longrightarrow> json_tokens (s @ c # t) = tok # json_tokens (c # t)"
    and "tok = TVal v \<or> (\<exists>w. tok = TStr w \<and> v = DStr w)"
  shows "reads s v"
  unfolding reads_def
proof (intro allI impI)
  fix c t m st st'
  assume c: "c \<in> {CHR '','', CHR ''}'', CHR '']''}" and m: "m \<in> {MValue, MFirst}" and st: "with_value v st = Some st'"
  show "json_run m st (json_tokens (s @ c # t)) = json_run MAfter st' (json_tokens (c # t))"
    unfolding assms(1)[OF c] using assms(2) m st with_value_cons[OF st] by auto
qed

lemma reads_string: "ascii s \<Longrightarrow> reads (json_string s) (DStr s)"
  by (rule reads_token[of _ "TStr s"]) (simp_all add: json_tokens_string)

lemma reads_words: "reads ''true'' (DBool True)" "reads ''false'' (DBool False)" "reads ''null'' DNull"
  by (rule reads_token[of _ "TVal (DBool True)"] reads_token[of _ "TVal (DBool False)"] reads_token[of _ "TVal DNull"];
      simp add: json_tokens.simps(2) has_prefix_def)+

section \<open>Integers\<close>

lemma takeWhile_ends: "list_all P s \<Longrightarrow> \<not> P c \<Longrightarrow> takeWhile P (s @ c # t) = s \<and> dropWhile P (s @ c # t) = c # t"
  by (induction s) auto

lemma nat_digits_no_zero: "1 < length (nat_digits n) \<Longrightarrow> hd (nat_digits n) \<noteq> CHR ''0''"
proof (induction n rule: nat_digits.induct)
  case (1 n)
  have z: "char_of (48 + k) = CHR ''0'' \<Longrightarrow> k < 10 \<Longrightarrow> k = (0 :: nat)" for k
  proof -
    assume "char_of (48 + k) = CHR ''0''" "k < 10"
    then have "byte (char_of (48 + k)) = byte (CHR ''0'')" by simp
    with \<open>k < 10\<close> show "k = 0" by simp
  qed
  show ?case
  proof (cases "n < 10")
    case True
    with 1 show ?thesis by (simp add: nat_digits.simps[of n])
  next
    case False
    then have h: "hd (nat_digits n) = hd (nat_digits (n div 10))"
      by (simp add: nat_digits.simps[of n] nat_digits_nonempty)
    show ?thesis
    proof (cases "1 < length (nat_digits (n div 10))")
      case True
      with 1 False h show ?thesis by simp
    next
      case short: False
      then have "n div 10 < 10"
        by (cases "n div 10 < 10") (simp_all add: nat_digits.simps[of "n div 10"] nat_digits_nonempty)
      then have "nat_digits (n div 10) = [char_of (48 + n div 10)]" by (simp add: nat_digits.simps[of "n div 10"])
      moreover have "n div 10 \<noteq> 0" using False by simp
      ultimately show ?thesis using h z[of "n div 10"] \<open>n div 10 < 10\<close> by auto
    qed
  qed
qed

lemma split_nat_digits: "split_digits (nat_digits n) = (nat_digits n, [])"
  using nat_digits_is_digit[of n] by (simp add: split_digits_def list_all_iff takeWhile_eq_all_conv dropWhile_eq_Nil_conv)

lemma nat_digits_minus: "\<exists>c t. nat_digits n = c # t \<and> is_digit c"
  using nat_digits_hd[of n] nat_digits_nonempty[of n] by (cases "nat_digits n") auto

lemma digit_not_minus: "is_digit c \<Longrightarrow> c \<noteq> CHR ''-''"
  by (auto simp: is_digit_def)

lemma parse_itoa: "parse_number (itoa n) = Some (of_int n)"
proof -
  obtain c t where c: "nat_digits (nat n) = c # t" "is_digit c" using nat_digits_minus by blast
  note z = nat_digits_nonempty nat_digits_no_zero[simplified]
  show ?thesis
  proof (cases "n < 0")
    case True
    then show ?thesis
      by (simp add: parse_number_def itoa_def split_nat_digits z number_fraction_def number_exponent_def digits_value_nat_digits)
  next
    case False
    have neg: "(case itoa n of c # _ \<Rightarrow> c = CHR ''-'' | [] \<Rightarrow> False) = False"
      using False c digit_not_minus by (simp add: itoa_def)
    have "itoa n = nat_digits (nat n)" using False by (simp add: itoa_def)
    then show ?thesis using False neg
      by (simp add: parse_number_def split_nat_digits z number_fraction_def number_exponent_def digits_value_nat_digits)
  qed
qed

lemma itoa_chars: "list_all (\<lambda>c. is_digit c \<or> c = CHR ''-'') (itoa n)"
  using nat_digits_is_digit by (auto simp: itoa_def list_all_iff)

lemma max_float_large: "2 ^ 63 \<le> max_float"
proof -
  have "(2 :: rat) powi (- 52) \<le> 1" by (simp add: power_int_minus field_simps)
  then have "1 \<le> (2 :: rat) - 2 powi (- 52)" by simp
  then have "1 * (2 :: rat) powi 1023 \<le> (2 - 2 powi (- 52)) * 2 powi 1023" by (intro mult_right_mono) simp_all
  moreover have "(2 :: rat) ^ 63 \<le> 2 powi 1023"
    using power_increasing[of 63 1023 "2 :: rat"] by (simp only: power_int_numeral)
  ultimately show ?thesis by (simp add: max_float_def)
qed

lemma fl_int_bound: "\<bar>n\<bar> \<le> 2 ^ 63 \<Longrightarrow> \<bar>fl (of_int n)\<bar> \<le> max_float"
proof -
  assume n: "\<bar>n\<bar> \<le> 2 ^ 63"
  have "fl (2 ^ 63) = 2 ^ 63" "fl (- (2 ^ 63)) = - (2 ^ 63)" by code_simp+
  then have b: "fl (2 ^ 63) \<le> max_float" "- max_float \<le> fl (- (2 ^ 63))" using max_float_large by simp_all
  have "(of_int n :: rat) \<le> of_int (2 ^ 63)" "(of_int (- (2 ^ 63)) :: rat) \<le> of_int n"
    using n by (simp_all only: of_int_le_iff)
  then have "fl (of_int n) \<le> fl (2 ^ 63)" "fl (- (2 ^ 63)) \<le> fl (of_int n)"
    by (auto intro!: fl_mono)
  with b show "\<bar>fl (of_int n)\<bar> \<le> max_float" by linarith
qed

lemma number_token_itoa: "\<bar>n\<bar> \<le> 2 ^ 63 \<Longrightarrow> number_token (itoa n) = TVal (DInt n)"
  using fl_int_bound[of n] itoa_chars[of n] by (simp add: number_token_def parse_itoa is_int_literal_def)

lemma reads_number:
  assumes "number_token s = TVal v" "list_all is_number_byte s" "s = x # u" "is_digit x \<or> x = CHR ''-''"
  shows "reads s v"
proof (rule reads_token[of _ "TVal v"])
  fix c t
  assume c: "c \<in> {CHR '','', CHR ''}'', CHR '']''}"
  have ne: "x \<notin> {CHR 0x20, CHR 0x09, CHR 0x0A, CHR 0x0D, CHR ''{'', CHR ''}'', CHR ''['', CHR '']'', CHR '':'', CHR '','', CHR 0x22,
      CHR ''t'', CHR ''f'', CHR ''n''}"
    using assms(4) by (auto simp: is_digit_def)
  have d: "is_number_byte x" using assms(2,3) by simp
  have e: "\<not> is_number_byte c" using c by (auto simp: is_number_byte_def is_digit_def)
  note w = takeWhile_ends[OF assms(2) e, of t, THEN conjunct1] takeWhile_ends[OF assms(2) e, of t, THEN conjunct2]
  have "json_tokens (s @ c # t) =
      number_token (takeWhile is_number_byte (s @ c # t)) # json_tokens (dropWhile is_number_byte (u @ c # t))"
    unfolding assms(3) append_Cons json_tokens.simps(2)[of x] using ne d by (simp add: has_prefix_def)
  moreover have "dropWhile is_number_byte (u @ c # t) = c # t" using w(2) assms(3) d by simp
  ultimately show "json_tokens (s @ c # t) = TVal v # json_tokens (c # t)" using assms(1) w(1) by simp
qed simp

lemma reads_int:
  assumes "\<bar>n\<bar> \<le> 2 ^ 63"
  shows "reads (itoa n) (DInt n)"
proof -
  have d: "is_digit x \<or> x = CHR ''-'' \<Longrightarrow> is_number_byte x" for x by (auto simp: is_number_byte_def)
  have "itoa n \<noteq> []" by (simp add: itoa_def nat_digits_nonempty)
  then obtain x u where x: "itoa n = x # u" by (meson list.exhaust)
  have "list_all is_number_byte (itoa n)" using itoa_chars[of n] d unfolding list_all_iff by blast
  then show ?thesis
    using itoa_chars[of n] x by (intro reads_number[OF number_token_itoa[OF assms] _ x]) simp_all
qed

section \<open>Arrays and objects\<close>

definition json_list :: "string list \<Rightarrow> string" where
  "json_list ss = CHR ''['' # str_join '','' ss @ '']''"

lemma bracket_tokens:
  "json_tokens (CHR ''['' # s) = TOpenA # json_tokens s" "json_tokens (CHR '']'' # s) = TCloseA # json_tokens s"
  by (simp_all add: json_tokens.simps(2))

text \<open>How the machine goes on behind a value: it stops at the top, or takes the value in.\<close>

definition behind :: "dyn \<Rightarrow> jframe list \<Rightarrow> jtok list \<Rightarrow> (dyn \<times> jtok list) option" where
  "behind v st ts =
     (if st = [] then Some (v, ts) else case with_value v st of None \<Rightarrow> None | Some st' \<Rightarrow> json_run MAfter st' ts)"

lemma behind_with: "with_value v st = Some st' \<Longrightarrow> behind v st ts = json_run MAfter st' ts"
  using with_value_cons by (simp add: behind_def)

lemma run_after:
  "json_run MAfter (FArr vs # st) (TCloseA # ts) = behind (DList vs) st ts"
  "json_run MAfter (FArr vs # st) (TComma # ts) = json_run MValue (FArr vs # st) ts"
  "json_run MAfter (FObj ps # st) (TCloseO # ts) = behind (DMap ps) st ts"
  "json_run MAfter (FObj ps # st) (TComma # ts) = json_run MKey (FObj ps # st) ts"
  by (simp_all add: behind_def)

lemma run_items:
  assumes "list_all2 reads ss vs" "ss \<noteq> []" "m \<in> {MValue, MFirst}"
  shows "json_run m (FArr us # st) (json_tokens (str_join '','' ss @ CHR '']'' # t)) = behind (DList (us @ vs)) st (json_tokens t)"
  using assms
proof (induction ss arbitrary: vs us m)
  case (Cons s ss)
  obtain v vs' where v: "vs = v # vs'" "reads s v" "list_all2 reads ss vs'" using Cons.prems(1) by (auto simp: list_all2_Cons1)
  have w: "with_value v (FArr us # st) = Some (FArr (us @ [v]) # st)" by (simp add: with_value_def)
  show ?case
  proof (cases ss)
    case Nil
    then show ?thesis using v readsD[OF v(2) _ Cons.prems(3) w, of "CHR '']''" t]
      by (simp add: bracket_tokens run_after del: json_run.simps)
  next
    case (Cons s2 ss2)
    have "json_run m (FArr us # st) (json_tokens (s @ CHR '','' # (str_join '','' ss @ CHR '']'' # t))) =
        json_run MValue (FArr (us @ [v]) # st) (json_tokens (str_join '','' ss @ CHR '']'' # t))"
      using readsD[OF v(2) _ \<open>m \<in> {MValue, MFirst}\<close> w, of "CHR '',''"]
      by (simp add: punctuation_tokens run_after del: json_run.simps)
    then show ?thesis using Cons.IH[OF v(3), of MValue "us @ [v]"] Cons v(1) by simp
  qed
qed simp

lemma reads_list:
  assumes "list_all2 reads ss vs"
  shows "reads (json_list ss) (DList vs)"
  unfolding reads_def
proof (intro allI impI)
  fix c t m st st'
  assume m: "m \<in> {MValue, MFirst}" and st: "with_value (DList vs) st = Some st'"
  have open_a: "json_run m st (TOpenA # ts) = json_run MFirst (FArr [] # st) ts" for ts using m by auto
  have t: "json_list ss @ c # t = CHR ''['' # str_join '','' ss @ CHR '']'' # c # t" by (simp add: json_list_def)
  show "json_run m st (json_tokens (json_list ss @ c # t)) = json_run MAfter st' (json_tokens (c # t))"
  proof (cases "ss = []")
    case True
    then have "vs = []" using assms by simp
    then show ?thesis unfolding t bracket_tokens open_a using True st behind_with[OF st]
      by (auto simp: bracket_tokens behind_def split: if_splits option.splits)
  next
    case False
    have "json_run MFirst (FArr [] # st) (json_tokens (str_join '','' ss @ CHR '']'' # c # t)) =
        behind (DList ([] @ vs)) st (json_tokens (c # t))"
      by (rule run_items[OF assms False]) simp
    then show ?thesis unfolding t bracket_tokens open_a using behind_with[OF st] by simp
  qed
qed

definition reads_member :: "string \<times> string \<Rightarrow> string \<times> dyn \<Rightarrow> bool" where
  "reads_member x y = (fst x = fst y \<and> ascii (fst x) \<and> reads (snd x) (snd y))"

lemma run_object_members:
  assumes "list_all2 reads_member kvs ps" "kvs \<noteq> []" "m \<in> {MKey, MFirstKey}"
  shows "json_run m (FObj us # st) (json_tokens (str_join '','' (map json_member kvs) @ CHR ''}'' # t)) =
     behind (DMap (us @ ps)) st (json_tokens t)"
  using assms
proof (induction kvs arbitrary: ps us m)
  case (Cons kv kvs)
  obtain k s where kv: "kv = (k, s)" by (cases kv)
  obtain v ps' where p: "ps = (k, v) # ps'" "ascii k" "reads s v" "list_all2 reads_member kvs ps'"
  proof -
    obtain y ps' where y: "ps = y # ps'" "reads_member kv y" "list_all2 reads_member kvs ps'"
      using Cons.prems(1) by (auto simp: list_all2_Cons1)
    then show thesis using that[of "snd y" ps'] by (cases y) (simp add: reads_member_def kv)
  qed
  have w: "with_value v (FKey us k # st) = Some (FObj (us @ [(k, v)]) # st)" by (simp add: with_value_def)
  have key: "json_run m (FObj us # st) (json_tokens (json_member kv @ u)) = json_run MValue (FKey us k # st) (json_tokens (s @ u))" for u
    using Cons.prems(3) by (auto simp: json_member_def kv json_tokens_string[OF p(2)] punctuation_tokens)
  show ?case
  proof (cases kvs)
    case Nil
    then have "ps' = []" using p(4) by simp
    then show ?thesis using Nil p(1) key[of "CHR ''}'' # t"] readsD[OF p(3) _ _ w, of "CHR ''}''" MValue t]
      by (simp add: punctuation_tokens run_after del: json_run.simps)
  next
    case (Cons kv2 kvs2)
    let ?r = "str_join '','' (map json_member kvs) @ CHR ''}'' # t"
    have "json_run m (FObj us # st) (json_tokens (json_member kv @ CHR '','' # ?r)) = json_run MKey (FObj (us @ [(k, v)]) # st) (json_tokens ?r)"
      using key[of "CHR '','' # ?r"] readsD[OF p(3) _ _ w, of "CHR '',''" MValue ?r]
      by (simp add: punctuation_tokens run_after del: json_run.simps)
    moreover have "json_run MKey (FObj (us @ [(k, v)]) # st) (json_tokens ?r) = behind (DMap ((us @ [(k, v)]) @ ps')) st (json_tokens t)"
      by (rule Cons.IH[OF p(4)]) (use Cons in simp_all)
    ultimately show ?thesis using Cons p(1) by simp
  qed
qed simp

lemma run_json_object:
  assumes "list_all2 reads_member kvs ps" "m \<in> {MValue, MFirst}"
  shows "json_run m st (json_tokens (json_object kvs @ t)) = behind (DMap ps) st (json_tokens t)"
proof -
  have open_o: "json_run m st (TOpenO # ts) = json_run MFirstKey (FObj [] # st) ts" for ts using assms(2) by auto
  have t: "json_object kvs @ t = CHR ''{'' # str_join '','' (map json_member kvs) @ CHR ''}'' # t" by (simp add: json_object_def)
  show ?thesis
  proof (cases "kvs = []")
    case True
    then have "ps = []" using assms by simp
    then show ?thesis unfolding t punctuation_tokens open_o using True by (simp add: punctuation_tokens behind_def)
  next
    case False
    have "json_run MFirstKey (FObj [] # st) (json_tokens (str_join '','' (map json_member kvs) @ CHR ''}'' # t)) =
        behind (DMap ([] @ ps)) st (json_tokens t)"
      by (rule run_object_members[OF assms(1) False]) simp
    then show ?thesis unfolding t punctuation_tokens open_o by simp
  qed
qed

lemma reads_object: "list_all2 reads_member kvs ps \<Longrightarrow> reads (json_object kvs) (DMap ps)"
  unfolding reads_def using run_json_object behind_with by metis

text \<open>The first value of a body that starts with an encoded object.\<close>

theorem decode_object:
  assumes "list_all2 reads_member kvs ps"
  shows "decode_value (json_tokens (json_object kvs @ t)) = Decoded (DMap ps) (json_tokens t)"
proof -
  have r: "json_run MValue [] (json_tokens (json_object kvs @ t)) = Some (DMap ps, json_tokens t)"
    using run_json_object[OF assms, of MValue "[]" t] by (simp add: behind_def)
  then have "json_tokens (json_object kvs @ t) \<noteq> []" by auto
  with r show ?thesis by (simp add: decode_value_def)
qed

end
