(* ===== verification/Delivery.thy ===== *)
theory Delivery
  imports Pipeline GoJsonRead
begin

text \<open>
  From the event stream of the management API to the firewall of a host: the text that the
  stream of \<^verbatim>\<open>handlers_events.go\<close> writes, with its statistics, is what the agent of
  \<^verbatim>\<open>cmd/waf-agent\<close> reads, and the commands it runs are those that a reference definition gives.
\<close>

section \<open>The blocks that are due\<close>

text \<open>
  The reference: every blocked event with an address is compared with all earlier ones of the
  same address that lie less than the window in the past; there is no state but the events.
\<close>

fun blocks_due :: "int \<Rightarrow> int \<Rightarrow> (int \<times> string) list \<Rightarrow> (int \<times> waf_event) list \<Rightarrow> (string \<times> string list) list" where
  "blocks_due threshold window past [] = []"
| "blocks_due threshold window past ((t, e) # es) =
     (if ev_type e \<noteq> TypeBlocked \<or> ev_remote_ip e = [] then blocks_due threshold window past es
      else
        (if threshold \<le> 1 + int (length (filter (\<lambda>(u, ip). ip = ev_remote_ip e \<and> t - window < u) past))
         then [nft_block (ev_remote_ip e)] else []) @
        blocks_due threshold window (past @ [(t, ev_remote_ip e)]) es)"

abbreviation records :: "(int \<times> string) list \<Rightarrow> tracker_op list" where
  "records past \<equiv> map (\<lambda>p. OpRecord (fst p) (snd p)) past"

lemma history_past: "history ip (records past) = map fst (filter (\<lambda>p. snd p = ip) past)"
  by (induction past) auto

lemma handle_event_other: "ev_type e \<noteq> TypeBlocked \<or> ev_remote_ip e = [] \<Longrightarrow> handle_event exec t e a = a"
  by (auto simp: handle_event_def)

lemma agent_due:
  assumes "ga_tracker a = fold tracker_step (records past) (newEventTracker threshold windowSec)"
    "mg_backend (ga_mgr a) = NFTablesBackend" "sorted (map fst past @ map fst tes)"
  shows "ga_log (fold (\<lambda>(t, e). handle_event exec t e) tes a) = ga_log a @ blocks_due threshold (windowSec * 10 ^ 9) past tes"
  using assms
proof (induction tes arbitrary: a past)
  case (Cons x tes)
  obtain t e where x: "x = (t, e)" by (cases x)
  show ?case
  proof (cases "ev_type e \<noteq> TypeBlocked \<or> ev_remote_ip e = []")
    case True
    then show ?thesis using Cons x by (auto simp: handle_event_other sorted_append)
  next
    case False
    let ?ip = "ev_remote_ip e"
    have times: "map op_time (records past) = map fst past" by (induction past) auto
    have "sorted (map op_time (records past) @ [t])" unfolding times using Cons.prems(3) x by (auto simp: sorted_append)
    from tracker_hit[OF this, of ?ip threshold windowSec]
    have hit: "fst (tracker_record t ?ip (ga_tracker a)) \<longleftrightarrow>
        threshold \<le> 1 + int (length (filter (\<lambda>(u, i). i = ?ip \<and> t - windowSec * 10 ^ 9 < u) past))"
      by (simp add: Cons.prems(1) history_past filter_map comp_def case_prod_unfold conj_commute)
    let ?a = "handle_event exec t e a"
    have a: "?a = a\<lparr>ga_tracker := snd (tracker_record t ?ip (ga_tracker a)),
        ga_log := ga_log a @ (if fst (tracker_record t ?ip (ga_tracker a)) then [nft_block ?ip] else [])\<rparr>"
      using False Cons.prems(2) by (intro handle_event_blocked) auto
    have "ga_log (fold (\<lambda>(t, e). handle_event exec t e) tes ?a) =
        ga_log ?a @ blocks_due threshold (windowSec * 10 ^ 9) (past @ [(t, ?ip)]) tes"
      using Cons.prems x by (intro Cons.IH) (auto simp: a)
    then show ?thesis using False x a hit by auto
  qed
qed simp

section \<open>Statistics\<close>

text \<open>Statistics whose text is printable and reads back: a finite number, ASCII names.\<close>

definition plain_stats :: "'w api_env \<Rightarrow> api \<Rightarrow> bool" where
  "plain_stats env s =
     (ascii (as_engine (cf_appsec (sv_cfg s))) \<and> ascii (en_utc_seconds env (en_now env)) \<and>
      \<bar>rt_goroutines (en_runtime env)\<bar> \<le> 2 ^ 63 \<and>
      (let mb = en_float_text env (megabytes (rt_alloc (en_runtime env))) in printable mb \<and> (\<exists>v. reads mb v)))"

lemma stats_object:
  "stats_text env s = json_object
     [(''engine'', json_string (as_engine (cf_appsec (sv_cfg s)))), (''goroutines'', itoa (rt_goroutines (en_runtime env))),
      (''heap_mb'', en_float_text env (megabytes (rt_alloc (en_runtime env)))),
      (''timestamp'', json_string (en_utc_seconds env (en_now env))), (''type'', json_string ''stats'')]"
  by (simp add: stats_text_def)

lemma stats_keys:
  "list_all ascii [''engine'', ''goroutines'', ''heap_mb'', ''timestamp'', ''type'', ''stats'']"
  "map fold_name [''engine'', ''goroutines'', ''heap_mb'', ''timestamp'', ''type''] =
     [''engine'', ''goroutines'', ''heap_mb'', ''timestamp'', ''type'']"
  by code_simp+

lemma json_parse_reads: "list_all2 reads_member kvs ps \<Longrightarrow> json_parse (json_object kvs) = Some (DMap ps)"
  using run_json_object[of kvs ps MValue "[]" "[]"] by (simp add: json_parse_def behind_def)

lemma stats_ignored:
  assumes "plain_stats env s" "parse_event pt (stats_text env s) = Some e"
  shows "ev_type e = TypeStats"
proof -
  obtain v where v: "reads (en_float_text env (megabytes (rt_alloc (en_runtime env)))) v"
    using assms(1) by (auto simp: plain_stats_def Let_def)
  let ?ps = "[(''engine'', DStr (as_engine (cf_appsec (sv_cfg s)))), (''goroutines'', DInt (rt_goroutines (en_runtime env))),
      (''heap_mb'', v), (''timestamp'', DStr (en_utc_seconds env (en_now env))), (''type'', DStr ''stats'')]"
  have "json_parse (stats_text env s) = Some (DMap ?ps)"
    unfolding stats_object
    by (rule json_parse_reads) (use assms(1) v stats_keys(1) in \<open>simp add: reads_member_def plain_stats_def reads_string reads_int\<close>)
  then have d: "decode_event pt (DMap ?ps) = Some e" using assms(2) by (simp add: parse_event_def del: decode_event.simps)
  have "field conv_string ''type'' [] ?ps = (''stats'', True)"
    using stats_keys(2) by (simp add: field_Cons_other field_Cons_same field_Nil del: fold_name.simps)
  with d show ?thesis by (auto simp: event_type_of_def split: prod.splits if_splits simp del: fold_name.simps)
qed

lemma printable_itoa: "printable (itoa n)"
  using itoa_chars[of n] by (auto simp: printable_def list_all_iff is_digit_def)

lemma stats_printable: "plain_stats env s \<Longrightarrow> printable (stats_text env s)"
  unfolding stats_object
  by (rule printable_json_object) (use stats_keys(1) in \<open>simp add: plain_stats_def Let_def printable_json_string printable_itoa\<close>)

section \<open>The stream of the API\<close>

text \<open>A frame is an event or, without one, statistics; and the events published while a stream runs.\<close>

definition frame_data :: "'w api_env \<Rightarrow> api \<Rightarrow> waf_event option \<Rightarrow> string" where
  "frame_data env s x =
     (case x of None \<Rightarrow> stats_text env s | Some m \<Rightarrow> event_text (en_rfc3339 env) (en_float_text env) m)"

definition data_pieces :: "string \<Rightarrow> piece list" where
  "data_pieces d = [Raw ''data: '', Raw d, Raw newline2]"

fun stream_published :: "stream_choice list \<Rightarrow> waf_event list" where
  "stream_published [] = []"
| "stream_published (StreamDone # cs) = []"
| "stream_published (StreamOther (OpPublish now e) # cs) = e\<lparr>ev_timestamp := now\<rparr> # stream_published cs"
| "stream_published (c # cs) = stream_published cs"

text \<open>How many events wait in the channel when the stream ends.\<close>

fun undelivered :: "nat \<Rightarrow> stream_choice list \<Rightarrow> nat" where
  "undelivered n [] = n"
| "undelivered n (StreamDone # cs) = n"
| "undelivered n (StreamData # cs) = undelivered (n - 1) cs"
| "undelivered n (StreamOther (OpPublish now e) # cs) = undelivered (min channel_slots (n + 1)) cs"
| "undelivered n (c # cs) = undelivered n cs"

lemma frame_data_broker [simp]: "frame_data env (s\<lparr>sv_broker := b\<rparr>) = frame_data env s"
  by (simp add: frame_data_def stats_text_def fun_eq_iff split: option.split)

lemma write_data_body [simp]:
  "rs_body (write_frame d w) = rs_body w @ data_pieces d"
  "rs_status w = Some n \<Longrightarrow> rs_status (write_frame d w) = Some n"
  by (simp_all add: write_frame_def data_pieces_def write_piece_def write_header_def Let_def)

lemma broker_again [simp]: "sv_broker s = Some b \<Longrightarrow> s\<lparr>sv_broker := Some b\<rparr> = s"
  by (cases s) simp

text \<open>What a run of the loop writes: the frames, and the events among them.\<close>

definition stream_run ::
    "'w api_env \<Rightarrow> nat \<Rightarrow> waf_event list \<Rightarrow> waf_event list \<Rightarrow> response \<Rightarrow> api \<Rightarrow> response \<Rightarrow> broker \<Rightarrow> bool" where
  "stream_run env c before pub w s w' b' \<longleftrightarrow>
     (\<exists>fs. let ms = List.map_filter id fs
       in rs_body w' = rs_body w @ concat (map (\<lambda>x. data_pieces (frame_data env s x)) fs) \<and>
          subseq (ms @ buffered c b') (before @ pub) \<and>
          (length before + length pub \<le> channel_slots \<longrightarrow> ms @ buffered c b' = before @ pub))"

lemma stream_run_stop: "buffered c b = before \<Longrightarrow> stream_run env c before [] w s w b"
  unfolding stream_run_def by (rule exI[of _ "[]"]) (simp add: map_filter_simps)

lemma stream_run_stats:
  "stream_run env c before pub (writeSSEStats env s w) s w' b' \<Longrightarrow> stream_run env c before pub w s w' b'"
  unfolding stream_run_def writeSSEStats_def
  by (elim exE, rule_tac x = "None # fs" in exI) (simp add: Let_def frame_data_def map_filter_simps)

lemma stream_run_event:
  "stream_run env c before pub (write_frame (frame_data env s (Some m)) w) s w' b' \<Longrightarrow>
   stream_run env c (m # before) pub w s w' b'"
  unfolding stream_run_def
  by (elim exE, rule_tac x = "Some m # fs" in exI) (simp add: Let_def map_filter_simps)

lemma stream_run_publish:
  assumes "stream_run env c (if length before < channel_slots then before @ [m] else before) pub w s w' b'"
  shows "stream_run env c before (m # pub) w s w' b'"
proof -
  obtain fs where fs: "rs_body w' = rs_body w @ concat (map (\<lambda>x. data_pieces (frame_data env s x)) fs)"
    "subseq (List.map_filter id fs @ buffered c b') ((if length before < channel_slots then before @ [m] else before) @ pub)"
    "length (if length before < channel_slots then before @ [m] else before) + length pub \<le> channel_slots \<longrightarrow>
       List.map_filter id fs @ buffered c b' = (if length before < channel_slots then before @ [m] else before) @ pub"
    using assms unfolding stream_run_def Let_def by blast
  have "subseq (List.map_filter id fs @ buffered c b') (before @ m # pub)"
  proof (cases "length before < channel_slots")
    case True
    then show ?thesis using fs(2) by (simp only: if_True append_assoc append_Cons append_Nil)
  next
    case False
    then have "subseq (List.map_filter id fs @ buffered c b') (before @ pub)" using fs(2) by (simp only: if_False)
    then show ?thesis by (rule subseq_insert)
  qed
  moreover have "List.map_filter id fs @ buffered c b' = before @ m # pub" if "length before + length (m # pub) \<le> channel_slots"
    using fs(3) that by auto
  ultimately show ?thesis unfolding stream_run_def Let_def using fs(1) by blast
qed

lemma stream_run_broker [simp]: "stream_run env c before pub w (s\<lparr>sv_broker := b\<rparr>) = stream_run env c before pub w s"
  by (simp add: stream_run_def fun_eq_iff)

lemma buffered_slots: "sse_state c b \<Longrightarrow> length (buffered c b) \<le> channel_slots"
  using sse_state_facts[of c b] by (auto simp: buffered_def broker_inv_def)

lemma stream_loop_run:
  assumes "sv_broker s = Some b" "sse_state c b" "rs_status w = Some 200"
  shows "\<exists>w' b'. stream_loop env (Some c) cs w s = Some (w', s\<lparr>sv_broker := Some b'\<rparr>) \<and> rs_status w' = Some 200 \<and>
     stream_run env c (buffered c b) (stream_published cs) w s w' b' \<and>
     length (buffered c b') = undelivered (length (buffered c b)) cs"
  using assms
proof (induction cs arbitrary: w s b)
  case Nil
  then show ?case by (intro exI[of _ w] exI[of _ b]) (simp add: stream_run_stop)
next
  case (Cons x cs)
  show ?case
  proof (cases x)
    case StreamDone
    note f = sse_state_facts[OF Cons.prems(2)]
    obtain b' where b': "Unsubscribe c b = Some b'" using f by (simp add: Unsubscribe_def Let_def)
    then have "buffered c b' = buffered c b" using f by (auto simp: Unsubscribe_def Let_def buffered_def)
    then show ?thesis
      using StreamDone b' Cons.prems by (intro exI[of _ w] exI[of _ b']) (simp add: stream_run_stop)
  next
    case StreamTick
    have "rs_status (writeSSEStats env s w) = Some 200" using Cons.prems(3) by (simp add: writeSSEStats_def)
    from Cons.IH[OF Cons.prems(1,2) this] obtain w' b' where
      "stream_loop env (Some c) cs (writeSSEStats env s w) s = Some (w', s\<lparr>sv_broker := Some b'\<rparr>)" "rs_status w' = Some 200"
      "stream_run env c (buffered c b) (stream_published cs) (writeSSEStats env s w) s w' b'"
      "length (buffered c b') = undelivered (length (buffered c b)) cs"
      by blast
    then show ?thesis using StreamTick by (intro exI[of _ w'] exI[of _ b']) (simp add: stream_run_stats)
  next
    case (StreamOther y)
    obtain b1 where b1: "broker_apply y b = Some b1" "sse_state c b1"
      "case y of OpSubscribe \<Rightarrow> buffered c b1 = buffered c b
        | OpPublish now e \<Rightarrow> buffered c b1 =
            (if length (buffered c b) < channel_slots then buffered c b @ [e\<lparr>ev_timestamp := now\<rparr>] else buffered c b)"
      using sse_state_apply[OF Cons.prems(2)] by blast
    from Cons.IH[of "s\<lparr>sv_broker := Some b1\<rparr>" b1 w] b1(2) Cons.prems(3) obtain w' b' where
      "stream_loop env (Some c) cs w (s\<lparr>sv_broker := Some b1\<rparr>) = Some (w', s\<lparr>sv_broker := Some b'\<rparr>)"
      "rs_status w' = Some 200" "stream_run env c (buffered c b1) (stream_published cs) w s w' b'"
      "length (buffered c b') = undelivered (length (buffered c b1)) cs"
      by auto
    moreover from this(3) have "stream_run env c (buffered c b) (stream_published (x # cs)) w s w' b'"
      using StreamOther b1(3) by (cases y) (auto intro!: stream_run_publish)
    moreover have "undelivered (length (buffered c b1)) cs = undelivered (length (buffered c b)) (x # cs)"
      using StreamOther b1(3) buffered_slots[OF Cons.prems(2)] by (cases y) auto
    ultimately show ?thesis
      using StreamOther b1(1) Cons.prems(1) by (intro exI[of _ w'] exI[of _ b']) simp
  next
    case StreamData
    show ?thesis
    proof (cases "receive c b")
      case None
      then have "buffered c b = []" using receive_empty sse_state_facts(1)[OF Cons.prems(2)] by blast
      then show ?thesis
        using None StreamData Cons.IH[OF Cons.prems] Cons.prems(1) sse_state_facts[OF Cons.prems(2)] by simp
    next
      case (Some z)
      obtain m b1 where r: "receive c b = Some (m, b1)" using Some by (cases z) auto
      note i = receive_inv[OF sse_state_facts(3)[OF Cons.prems(2)] r]
      have "sse_state c b1" using i Cons.prems(2) by (simp add: sse_state_def)
      from Cons.IH[of "s\<lparr>sv_broker := Some b1\<rparr>" b1 "write_frame (frame_data env s (Some m)) w", OF _ this] Cons.prems(3)
      obtain w' b' where
        "stream_loop env (Some c) cs (write_frame (frame_data env s (Some m)) w) (s\<lparr>sv_broker := Some b1\<rparr>) =
           Some (w', s\<lparr>sv_broker := Some b'\<rparr>)" "rs_status w' = Some 200"
        "stream_run env c (buffered c b1) (stream_published cs) (write_frame (frame_data env s (Some m)) w) s w' b'"
        "length (buffered c b') = undelivered (length (buffered c b1)) cs"
        by auto
      moreover from this(3) have "stream_run env c (buffered c b) (stream_published cs) w s w' b'"
        using i stream_run_event by simp
      ultimately show ?thesis
        using StreamData r i Cons.prems(1) by (intro exI[of _ w'] exI[of _ b']) (simp add: frame_data_def)
    qed
  qed
qed

section \<open>The whole way\<close>

text \<open>What the client receives of a body; an encoder ends its value with a line break.\<close>

definition body_text :: "(float64 \<Rightarrow> string) \<Rightarrow> response \<Rightarrow> string" where
  "body_text fn w =
     concat (map (\<lambda>p. case p of Raw d \<Rightarrow> d | Json v \<Rightarrow> json_text fn v @ [CHR 0x0A]) (rs_body w))"

text \<open>The agent's request as the API server receives it; the URL names the stream.\<close>

definition broker_request :: "AgentConfig \<Rightarrow> http_request" where
  "broker_request cfg =
     \<lparr>rq_method = ''GET'', rq_path = ''/api/v1/events'', rq_query = [], rq_host = [], rq_headers = broker_headers cfg,
      rq_remote_addr = [], rq_content_length = 0, rq_body = []\<rparr>"

lemma route_stream: "mux_find api_routes ''GET'' ''/api/v1/events'' = Some (EpStream, [])"
  by code_simp

lemma stream_body:
  "rs_body w = [Raw connected] @ concat (map (\<lambda>x. data_pieces (frame_data env s x)) fs) \<Longrightarrow>
   body_text fn w = connected @ concat (map sse_frame (map (frame_data env s) fs))"
proof -
  have "concat (map (\<lambda>p. case p of Raw d \<Rightarrow> d | Json v \<Rightarrow> json_text fn v @ [CHR 0x0A])
      (concat (map (\<lambda>x. data_pieces (frame_data env s x)) fs))) = concat (map sse_frame (map (frame_data env s) fs))"
    by (induction fs) (simp_all add: data_pieces_def sse_frame_def)
  then show "rs_body w = [Raw connected] @ concat (map (\<lambda>x. data_pieces (frame_data env s x)) fs) \<Longrightarrow> ?thesis"
    by (simp add: body_text_def)
qed

lemma stream_served:
  assumes "api_inv s" "sv_broker s = Some b" "bearer env (broker_request cfg) s = Inr c"
  shows "\<exists>w s' fs waiting. api_serve env cs (broker_request cfg) s = Some (w, s') \<and> sent_status w = 200 \<and>
     body_text fn w = connected @ concat (map sse_frame (map (frame_data env s) fs)) \<and>
     subseq (List.map_filter id fs @ waiting) (stream_published cs) \<and>
     (length (stream_published cs) \<le> 64 \<longrightarrow> List.map_filter id fs @ waiting = stream_published cs) \<and>
     length waiting = undelivered 0 cs"
proof -
  let ?r = "broker_request cfg" and ?ch = "length (br_channels b)"
  obtain b1 where sub: "Subscribe b = (?ch, b1)" by (simp add: Subscribe_def Let_def)
  let ?s = "s\<lparr>sv_broker := Some (b1)\<rparr>" and ?w = "sse_open (cors_response (broker_request cfg) s new_response)"
  have r: "rq_method ?r = ''GET''" "rq_path ?r = ''/api/v1/events''" by (simp_all add: broker_request_def)
  have st: "sse_state ?ch (b1)" "buffered ?ch (b1) = []"
    using stream_start[OF api_inv_brokerD[OF assms(1,2)]] sub by (auto simp: Subscribe_def Let_def buffered_def)
  have w: "rs_status (writeSSEStats env ?s ?w) = Some 200" "rs_body ?w = [Raw connected]"
    by (simp_all add: writeSSEStats_def sse_open_def write_frame_def new_response_def write_piece_def write_header_def
        set_header_def Let_def)
  obtain w' b' where run: "stream_loop env (Some ?ch) cs (writeSSEStats env ?s ?w) ?s = Some (w', ?s\<lparr>sv_broker := Some b'\<rparr>)"
    "rs_status w' = Some 200" "stream_run env ?ch [] (stream_published cs) (writeSSEStats env ?s ?w) ?s w' b'"
    "length (buffered ?ch b') = undelivered 0 cs"
    using stream_loop_run[of ?s "b1" ?ch "writeSSEStats env ?s ?w" env cs] st w(1) by auto
  have "mux_handler env cs None ?r new_response s = Some (w', s\<lparr>sv_broker := Some b'\<rparr>)"
    using run(1) assms(2,3) sub
    by (simp add: mux_handler_def r route_stream corsMiddleware_pass authMiddleware_bearer ApiServer.handleSSE_def Let_def)
  then obtain a where "api_serve env cs ?r s = Some (w', s\<lparr>sv_broker := Some b', sv_audit := a\<rparr>)"
    using api_serve_result[OF assms(1), of env cs ?r] by auto
  moreover obtain fs where "rs_body w' = [Raw connected] @ concat (map (\<lambda>x. data_pieces (frame_data env s x)) fs)"
    "subseq (List.map_filter id fs @ buffered ?ch b') (stream_published cs)"
    "length (stream_published cs) \<le> 64 \<longrightarrow> List.map_filter id fs @ buffered ?ch b' = stream_published cs"
    using stream_run_stats[OF run(3)] w(2) by (auto simp: stream_run_def Let_def channel_slots_def)
  ultimately show ?thesis
    using run(2,4) stream_body[where w = w' and env = env and s = s and fs = fs and fn = fn]
    by (intro exI[of _ w'] exI[of _ "s\<lparr>sv_broker := Some b', sv_audit := a\<rparr>"] exI[of _ fs] exI[of _ "buffered ?ch b'"])
      (simp add: sent_status_def)
qed

text \<open>What the agent makes of such a text, or of a part of it that a cut connection leaves.\<close>

lemma timed_events_subseq: "subseq (map fst (timed_events pt ls)) (map fst ls)"
  by (induction pt ls rule: timed_events.induct) (auto split: option.split)

lemma blocks_due_blocked:
  "blocks_due threshold window past tes = blocks_due threshold window past (filter (\<lambda>x. ev_type (snd x) = TypeBlocked) tes)"
  by (induction threshold window past tes rule: blocks_due.induct) auto

definition wire_ok :: "(int \<Rightarrow> string) \<Rightarrow> (string \<Rightarrow> int option) \<Rightarrow> waf_event \<Rightarrow> bool" where
  "wire_ok ft pt e = (Validate e = Inr () \<and> plain_event ft e \<and> pt (ft (ev_timestamp e)) = Some (ev_timestamp e))"

lemma wire_ok_blocked: "wire_ok ft pt e \<Longrightarrow> ev_type e = TypeBlocked"
  by (simp add: wire_ok_def Validate_def split: if_splits)

lemma frame_event:
  assumes "plain_stats env s" "\<forall>m \<in> set (List.map_filter id fs). wire_ok (en_rfc3339 env) pt m" "x \<in> set fs"
  shows "printable (frame_data env s x)" "line_event pt (data_prefix @ frame_data env s x) = parse_event pt (frame_data env s x)"
proof -
  have m: "wire_ok (en_rfc3339 env) pt m" if "x = Some m" for m
    using assms(2,3) that by (force simp: List.map_filter_def)
  show p: "printable (frame_data env s x)"
    using stats_printable[OF assms(1)] m by (auto simp: frame_data_def printable_event_text wire_ok_def split: option.split)
  have "\<exists>kvs. frame_data env s x = json_object kvs"
    by (cases x) (simp_all add: frame_data_def stats_object event_text_def, blast+)
  then show "line_event pt (data_prefix @ frame_data env s x) = parse_event pt (frame_data env s x)"
    using data_event[OF p] by (auto simp: json_object_def)
qed

lemma lines_events:
  assumes "plain_stats env s" "\<forall>m \<in> set (List.map_filter id fs). wire_ok (en_rfc3339 env) pt m"
  shows "filter (\<lambda>e. ev_type e = TypeBlocked) (List.map_filter (line_event pt)
     (stream_lines (connected @ concat (map sse_frame (map (frame_data env s) fs))))) = List.map_filter id fs"
proof -
  have "list_all printable (map (frame_data env s) fs)" using frame_event(1)[OF assms] by (simp add: list_all_iff)
  then have l: "List.map_filter (line_event pt) (stream_lines (connected @ concat (map sse_frame (map (frame_data env s) fs)))) =
      List.map_filter (line_event pt) (concat (map (\<lambda>d. [data_prefix @ d, []]) (map (frame_data env s) fs)))"
    by (simp add: greeting_lines frames_data_lines map_filter_simps blank_line_event del: map_map)
  have "filter (\<lambda>e. ev_type e = TypeBlocked) (List.map_filter (line_event pt)
      (concat (map (\<lambda>d. [data_prefix @ d, []]) (map (frame_data env s) gs)))) = List.map_filter id gs"
    if "set gs \<subseteq> set fs" for gs
    using that
  proof (induction gs)
    case (Cons x gs)
    have x: "line_event pt (data_prefix @ frame_data env s x) = parse_event pt (frame_data env s x)"
      using frame_event(2)[OF assms] Cons.prems by simp
    show ?case
    proof (cases x)
      case None
      then show ?thesis
        using Cons x stats_ignored[OF assms(1), of pt]
        by (auto simp: map_filter_simps frame_data_def blank_line_event split: option.split)
    next
      case (Some m)
      have m: "wire_ok (en_rfc3339 env) pt m" using assms(2) Cons.prems Some by (force simp: List.map_filter_def)
      then show ?thesis
        using Cons x Some parse_event_text[of "en_rfc3339 env" m pt "en_float_text env"] wire_ok_blocked[OF m]
        by (simp add: map_filter_simps frame_data_def blank_line_event wire_ok_def)
    qed
  qed (simp add: map_filter_simps)
  then show ?thesis unfolding l by simp
qed

lemma agent_reads_part:
  assumes "runAgent exec cfg [] = (Inr a, cl)" "fw_backend (ag_firewall cfg) = ''nftables''"
    and "filter (\<lambda>e. ev_type e = TypeBlocked) (List.map_filter (line_event pt) lines) = ms"
    and "prefix (map snd ls) lines" "sorted (map fst ls)"
  shows "\<exists>tes. ga_log (connectEventBroker exec pt [Answered 200 ls] a) =
       cl @ blocks_due (eb_block_threshold (ag_event_broker cfg)) (eb_window_seconds (ag_event_broker cfg) * 10 ^ 9) [] tes \<and>
     subseq (map fst tes) (map fst ls) \<and> prefix (map snd tes) ms \<and> (map snd ls = lines \<longrightarrow> map snd tes = ms)"
proof -
  let ?th = "eb_block_threshold (ag_event_broker cfg)" and ?w = "eb_window_seconds (ag_event_broker cfg)"
  let ?blocked = "\<lambda>e. ev_type e = TypeBlocked"
  note a = started_agent[OF assms(1,2)]
  define all where "all = timed_events pt ls"
  define tes where "tes = filter (\<lambda>x. ?blocked (snd x)) all"
  have "ga_log (connectEventBroker exec pt [Answered 200 ls] a) = cl @ blocks_due ?th (?w * 10 ^ 9) [] all"
    using agent_due[of a "[]" ?th ?w all exec] a timed_events_sorted[OF assms(5)] by (simp add: read_timed all_def)
  moreover have "map snd tes = filter ?blocked (List.map_filter (line_event pt) (map snd ls))"
    by (simp add: tes_def all_def filter_map comp_def flip: timed_events_snd)
  moreover have "subseq (map fst tes) (map fst ls)"
    using subseq_map[OF subseq_filter_left] timed_events_subseq subseq_order.order_trans unfolding tes_def all_def by metis
  moreover have "prefix (filter ?blocked (List.map_filter (line_event pt) (map snd ls))) ms"
    using assms(4) unfolding assms(3)[symmetric] by (auto simp: prefix_def map_filter_append)
  ultimately show ?thesis
    using blocks_due_blocked[of ?th "?w * 10 ^ 9" "[]" all] assms(3) by (intro exI[of _ tes]) (auto simp: tes_def)
qed


text \<open>Two published events with a threshold of two: the second one blocks the address.\<close>

definition reading_agent_cfg :: AgentConfig where
  "reading_agent_cfg = sample_agent_cfg\<lparr>ag_event_broker := (ag_event_broker sample_agent_cfg)
     \<lparr>eb_auth_token := ''a.'' @ sample_secret\<rparr>\<rparr>"

definition two_events :: "stream_choice list" where
  "two_events =
     [StreamTick, StreamOther (OpPublish 5 (wire_event ''10.0.0.9'')), StreamOther (OpPublish 5 (wire_event ''10.0.0.9'')),
      StreamData, StreamTick, StreamData, StreamDone]"

lemma reading_agent_bearer: "bearer sample_api_env (broker_request reading_agent_cfg) sample_api = Inr sample_session"
proof -
  have k: "canonical_key ''Authorization'' = ''Authorization''" by code_simp
  have "header_get (rq_headers (broker_request reading_agent_cfg)) ''Authorization'' = admin_token"
    by (simp add: broker_request_def broker_headers_def reading_agent_cfg_def sample_agent_cfg_def header_get_def header_set_def k
        admin_token_def)
  then show ?thesis
    using sample_bearer(1)[of "[]" "[]" "[]"] unfolding bearer_def sample_auth_header by simp
qed

lemma sample_stats: "plain_stats sample_api_env sample_api"
proof -
  have "ascii (as_engine (cf_appsec sample_api_cfg))" "ascii (itoa 0)" "printable ''0''" by code_simp+
  moreover have "itoa 0 = ''0''" by code_simp
  then have "reads ''0'' (DInt 0)" using reads_int[of 0] by simp
  ultimately show ?thesis
    by (auto simp: plain_stats_def sample_api_fields sample_api_env_def Let_def)
qed


end
