(* ===== verification/Report.thy ===== *)
theory Report
  imports Pipeline Sidecar
begin

text \<open>
  What an evaluation of \<^verbatim>\<open>sidecar.go\<close> leaves behind: the entry of the learning engine, and for
  a denial the audit entry, the local event and the report to the management API, which takes
  it in.
\<close>

section \<open>The outcome of an evaluation\<close>

text \<open>The rule and the reason of a denial, of whatever stage.\<close>

definition outcome :: "sidecar_env \<Rightarrow> http_request \<Rightarrow> 'w sidecar \<Rightarrow> (string \<times> string) option" where
  "outcome env r s =
     (case chain_execute (sd_chain s) (evaluate_ctx new_response r) PhasePreRequest (sd_world s) of
        (ctx, _, Some err) \<Rightarrow> Some (''plugin-chain'', err)
      | (ctx, _, None) \<Rightarrow> denial env ctx r s)"

definition record_outcome :: "sidecar_env \<Rightarrow> request \<Rightarrow> (string \<times> string) option \<Rightarrow> 'w sidecar \<Rightarrow> 'w sidecar option" where
  "record_outcome env req x s =
     (case x of None \<Rightarrow> recordLearning env req VerdictAllow [] [] s
      | Some (i, reason) \<Rightarrow> recordLearning env req VerdictBlock i reason s)"

lemma scorer_stage_records:
  assumes "scorer_stage env req r w s = Some (w', s')"
  shows "\<exists>sc. record_outcome env req (Option.bind (sd_scorer s) (scorer_denies env r)) (s\<lparr>sd_scorer := sc\<rparr>) = Some s'"
proof (cases "sd_scorer s")
  case None
  then have same: "s\<lparr>sd_scorer := None\<rparr> = s" by (cases s) simp
  show ?thesis
    using assms None
    by (intro exI[of _ None], unfold same) (auto simp: scorer_stage_def allow_and_record_def record_outcome_def)
next
  case (Some sc)
  obtain x sc' where x: "scorer_evaluate env (request_features r) sc = (x, sc')" by fastforce
  show ?thesis
    using assms Some x
    by (intro exI[of _ "Some sc'"])
      (auto simp: scorer_stage_def allow_and_record_def deny_and_record_def record_outcome_def scorer_denies_def Let_def
        split: sum.splits if_splits)
qed

lemma evaluate_records:
  assumes "handleEvaluate env new_response r s = Some (w', s')"
  shows "\<exists>world sc. record_outcome env (original_request env r) (outcome env r s) (s\<lparr>sd_world := world, sd_scorer := sc\<rparr>) = Some s'"
proof -
  obtain ctx world res where x: "chain_execute (sd_chain s) (evaluate_ctx new_response r) PhasePreRequest (sd_world s) = (ctx, world, res)"
    by (rule prod_cases3)
  let ?req = "original_request env r" and ?s = "s\<lparr>sd_world := world\<rparr>"
  have same: "s\<lparr>sd_world := world, sd_scorer := sd_scorer s\<rparr> = ?s" by (cases s) simp
  show ?thesis
  proof (cases "\<exists>err. res = Some err \<or> res = None \<and> (blocks (rules_result s ?req) \<or> blocks (Evaluate (sd_engine s) ctx PhaseRequest ?req))")
    case True
    then have "record_outcome env ?req (outcome env r s) ?s = Some s'"
      using assms x
      by (auto simp: handleEvaluate_def outcome_def denial_def record_outcome_def deny_and_record_def policy_stage_def Let_def
          split: if_splits option.splits)
    then show ?thesis using same by (intro exI[of _ world] exI[of _ "sd_scorer s"]) simp
  next
    case False
    then have o1: "outcome env r s = Option.bind (sd_scorer s) (scorer_denies env r)"
      using x by (auto simp: outcome_def denial_def Let_def)
    have "scorer_stage env ?req r (cx_writer ctx) ?s = Some (w', s')"
      using False assms x by (auto simp: handleEvaluate_def policy_stage_def Let_def)
    from scorer_stage_records[OF this] show ?thesis unfolding o1 by auto
  qed
qed

section \<open>What is recorded\<close>

definition rule_name :: "string \<Rightarrow> string" where
  "rule_name i = (if i = [] then ''unknown'' else i)"

lemma allow_recorded:
  assumes "recordLearning env req VerdictAllow i reason s = Some s'" "sd_learning s = Some l"
  shows "\<exists>l'. learn (se_learn_time env, learning_record env req VerdictAllow i reason) l = Some l' \<and> s' = s\<lparr>sd_learning := Some l'\<rparr>"
  using assms by (auto simp: recordLearning_def Let_def split: option.splits)

lemma block_recorded:
  assumes "recordLearning env req VerdictBlock i reason s = Some s'"
    and "sd_learning s = Some l" "sd_audit s = Some a" "sd_broker s = Some b"
  shows "\<exists>l' a' b'. let e = block_event req (rule_name i) reason in
     learn (se_learn_time env, learning_record env req VerdictBlock i reason) l = Some l' \<and>
     record_event (se_audit_time env, block_audit_event req (rule_name i) reason) a = Some a' \<and>
     Publish (se_event_time env) e b = Some b' \<and>
     s' = s\<lparr>sd_learning := Some l', sd_audit := Some a', sd_broker := Some b',
       sd_sent := sd_sent s @ snd (publish_event (se_new_request env) (se_client_do env) (sd_publisher s) e)\<rparr>"
  using assms
  by (auto simp: recordLearning_def publish_block_def with_opt_def rule_name_def Let_def split: option.splits if_splits)

section \<open>The report\<close>

lemma block_event_fields [simp]:
  "ev_type (block_event req i reason) = TypeBlocked" "ev_timestamp (block_event req i reason) = zero_time"
  by (simp_all add: block_event_def)

lemma publish_sent:
  assumes "pb_url p \<noteq> []" "pb_token p \<noteq> []" "new_request (pb_url p) = None"
  shows "snd (publish_event new_request client_do (Some p) e) = (if Validate e = Inr () then [event_request p e] else [])"
  using assms by (auto simp: publish_event_def event_request_def Let_def split: sum.split)

text \<open>
  C3: every evaluation is accounted for exactly once. An allowed request leaves one entry in the
  learning engine and nothing else. A denied one leaves its entry there, one entry in the audit
  store, one event in the local broker and, when the event is valid, one post to the
  management API, all with the rule and the reason of the first stage that denies; and an API
  that accepts the token publishes exactly this event, if its text is plain and within the body limit.
\<close>

lemma evaluation_reported:
  assumes "handleEvaluate senv new_response r s = Some (w', s')"
    and "sd_learning s = Some l" "sd_audit s = Some a" "sd_broker s = Some b" "sd_publisher s = Some p"
    and "pb_url p \<noteq> []" "pb_token p \<noteq> []" "se_new_request senv (pb_url p) = None"
    and "api_inv api" "sv_broker api = Some ab" "''events:write'' \<in> set (cl_scopes c)"
    and "\<forall>e. bearer env (received_request ft fn ''/api/v1/events'' (event_request p e)) api = Inr c"
    and "en_parse_time env (ft zero_time) = Some zero_time"
  shows "\<exists>l'. sd_learning s' = Some l' \<and> (let req = original_request senv r in
     case outcome senv r s of
       None \<Rightarrow> learn (se_learn_time senv, learning_record senv req VerdictAllow [] []) l = Some l' \<and>
         sd_audit s' = Some a \<and> sd_broker s' = Some b \<and> sd_sent s' = sd_sent s
     | Some (i, reason) \<Rightarrow> (let e = block_event req (rule_name i) reason; q = event_request p e in
         learn (se_learn_time senv, learning_record senv req VerdictBlock i reason) l = Some l' \<and>
         sd_audit s' = record_event (se_audit_time senv, block_audit_event req (rule_name i) reason) a \<and>
         sd_broker s' = Publish (se_event_time senv) e b \<and> sd_audit s' \<noteq> None \<and> sd_broker s' \<noteq> None \<and>
         sd_sent s' = sd_sent s @ (if Validate e = Inr () then [q] else []) \<and>
         (Validate e = Inr () \<and> plain_event ft e \<and> length (event_text ft fn e) \<le> MaxEventBodyBytes \<longrightarrow>
            (\<exists>w x ab'. api_serve env cs (received_request ft fn ''/api/v1/events'' q) api =
                 Some (w, api\<lparr>sv_broker := Some ab', sv_audit := x\<rparr>) \<and> sent_status w = 202 \<and>
               Publish (en_publish_time env) e ab = Some ab'))))"
proof -
  obtain world sc where rec: "record_outcome senv (original_request senv r) (outcome senv r s) (s\<lparr>sd_world := world, sd_scorer := sc\<rparr>) = Some s'"
    using evaluate_records[OF assms(1)] by blast
  let ?s = "s\<lparr>sd_world := world, sd_scorer := sc\<rparr>"
  have f: "sd_learning ?s = Some l" "sd_audit ?s = Some a" "sd_broker ?s = Some b" using assms(2-4) by simp_all
  show ?thesis
  proof (cases "outcome senv r s")
    case None
    then have "recordLearning senv (original_request senv r) VerdictAllow [] [] ?s = Some s'"
      using rec by (simp add: record_outcome_def)
    from allow_recorded[OF this f(1)] show ?thesis using None assms(3,4) by auto
  next
    case (Some x)
    obtain i reason where x: "x = (i, reason)" by (cases x)
    let ?e = "block_event (original_request senv r) (rule_name i) reason"
    have "recordLearning senv (original_request senv r) VerdictBlock i reason ?s = Some s'"
      using rec Some x by (simp add: record_outcome_def)
    from block_recorded[OF this f] obtain l' a' b' where
      "learn (se_learn_time senv, learning_record senv (original_request senv r) VerdictBlock i reason) l = Some l'"
      "record_event (se_audit_time senv, block_audit_event (original_request senv r) (rule_name i) reason) a = Some a'"
      "Publish (se_event_time senv) ?e b = Some b'"
      "s' = ?s\<lparr>sd_learning := Some l', sd_audit := Some a', sd_broker := Some b',
         sd_sent := sd_sent s @ snd (publish_event (se_new_request senv) (se_client_do senv) (Some p) ?e)\<rparr>"
      unfolding Let_def using assms(5) by auto
    then show ?thesis
      using Some x publish_sent[where e = ?e and client_do = "se_client_do senv", OF assms(6,7), where new_request = "se_new_request senv", OF assms(8)]
        report_ingested[OF assms(9,10) assms(12)[rule_format] assms(11), of ?e] assms(13)
      by (intro exI[of _ l']) (simp add: Let_def)
  qed
qed

text \<open>A sidecar with one policy rule, and a post that it denies.\<close>

definition reporting_rule :: "plugin_ctx rule" where
  "reporting_rule =
     \<lparr>ID = ''r1'', Name = ''r1'', Phase = PhaseRequest, Priority = 1, Description = [], Enabled = True,
      Match = Some (\<lambda>_ req. Method req = ''POST''), Action = ActionBlock, Reason = ''no posts''\<rparr>"

definition reporting_sidecar :: "unit sidecar" where
  "reporting_sidecar = SetEventPublisher sample_publisher
     (NewSidecar (AddRule NewRuleEngine reporting_rule) (build_chain []) None (Some (NewLearningEngine 10))
       (NewStore 10 ''audit.log'' True) (Some NewEngine) (Some NewBroker) ())"

definition denied_post :: http_request where
  "denied_post = Plugins.sample_request\<lparr>rq_headers := header_of
     [(''X-WN-M'', ''POST''), (''X-WN-U'', ''/form''), (''X-WN-IP'', ''10.0.0.9'')]\<rparr>"

definition zero_text :: string where "zero_text = ''0001-01-01T00:00:00Z''"

definition zero_env :: "unit api_env" where
  "zero_env = sample_api_env\<lparr>en_parse_time := (\<lambda>s. if s = zero_text then Some zero_time else None)\<rparr>"

lemma evaluation_reported_witness:
  "\<exists>w' s' q w x ab'. handleEvaluate sample_env new_response denied_post reporting_sidecar = Some (w', s') \<and>
     sd_sent s' = [q] \<and> ev_remote_ip (or_body q) = ''10.0.0.9'' \<and>
     api_serve zero_env [] (received_request (\<lambda>_. zero_text) (\<lambda>_. []) ''/api/v1/events'' q) sample_api =
       Some (w, sample_api\<lparr>sv_broker := Some ab', sv_audit := x\<rparr>)"
proof -
  let ?s = reporting_sidecar and ?req = "original_request sample_env denied_post"
  have h: "wn denied_post ''X-WN-M'' = ''POST''" "wn denied_post ''X-WN-U'' = ''/form''" "wn denied_post ''X-WN-IP'' = ''10.0.0.9''"
    by code_simp+
  have f: "sd_learning ?s = Some (NewLearningEngine 10)" "sd_broker ?s = Some NewBroker" "sd_publisher ?s = Some sample_publisher"
    "sd_rules ?s = Some NewEngine" "sd_engine ?s = AddRule NewRuleEngine reporting_rule" "sd_chain ?s = build_chain []"
    "sd_audit ?s = NewStore 10 ''audit.log'' True" "sd_sent ?s = []"
    by (simp_all add: reporting_sidecar_def SetEventPublisher_def NewSidecar_def)
  obtain a where st: "NewStore 10 ''audit.log'' True = Some a" by (simp add: NewStore_def)
  have a: "sd_audit ?s = Some a" "audit_wf a" using f(7) st audit_wf_new[OF _ st] by simp_all
  have "sidecar_inv ?s" using a learn_wf_new broker_inv_new by (simp add: sidecar_inv_def f opt_all_def)
  then obtain w' s' where run: "handleEvaluate sample_env new_response denied_post ?s = Some (w', s')"
    using evaluate_progress by blast
  have "rules_result ?s ?req = mk_result ActionAllow [] []"
    by (simp add: rules_result_def f(4) NewEngine_def evaluate_rules_engine_def)
  then have out: "outcome sample_env denied_post ?s = Some (''r1'', ''no posts'')"
    by (simp add: outcome_def chain_execute_phase f build_chain_phase denial_def blocks_def mk_result_def Let_def policy_ops
        reporting_rule_def original_request_def h)
  have same: "bearer zero_env q api = bearer sample_api_env q api" for q api
  proof -
    have "en_oidc zero_env = en_oidc sample_api_env" "en_jwt zero_env = en_jwt sample_api_env" "en_now zero_env = en_now sample_api_env"
      by (simp_all add: zero_env_def)
    then show ?thesis unfolding bearer_def authenticate_def by (simp only:)
  qed
  have b: "\<forall>e. bearer zero_env (received_request (\<lambda>_. zero_text) (\<lambda>_. []) ''/api/v1/events'' (event_request sample_publisher e))
      sample_api = Inr ingest_session"
    using sample_publisher_bearer unfolding same by blast
  have sc: "''events:write'' \<in> set (cl_scopes ingest_session)" by (simp add: ingest_session_def)
  have p: "pb_url sample_publisher \<noteq> []" "pb_token sample_publisher \<noteq> []" "se_new_request sample_env (pb_url sample_publisher) = None"
    by (simp_all add: sample_publisher_def NewPublisher_def sample_env_def)
  have z: "en_parse_time zero_env zero_text = Some zero_time" by (simp add: zero_env_def)
  let ?e = "block_event ?req ''r1'' ''no posts''"
  have e: "?e = \<lparr>ev_type = TypeBlocked, ev_timestamp = zero_time, ev_method = ''POST'', ev_path = ''/form'', ev_remote_ip = ''10.0.0.9'',
      ev_rule_id = ''r1'', ev_reason = ''no posts'', ev_payload = DNull\<rparr>"
    by (simp add: block_event_def original_request_def h)
  have v: "Validate ?e = Inr ()" by (simp add: e Validate_def)
  have "list_all ascii [''blocked'', zero_text, ''POST'', ''/form'', ''10.0.0.9'', ''r1'', ''no posts'']" by code_simp
  then have pl: "plain_event (\<lambda>_. zero_text) ?e" by (simp add: e plain_event_def event_type_of_def)
  have "length (event_text (\<lambda>_. zero_text) (\<lambda>_. []) (?e\<lparr>ev_timestamp := 0\<rparr>)) = 142" unfolding e by code_simp
  moreover have "event_text (\<lambda>_. zero_text) (\<lambda>_. []) (?e\<lparr>ev_timestamp := 0\<rparr>) = event_text (\<lambda>_. zero_text) (\<lambda>_. []) ?e"
    by (simp add: event_text_def event_fields_def)
  ultimately have n: "length (event_text (\<lambda>_. zero_text) (\<lambda>_. []) ?e) \<le> MaxEventBodyBytes" by (simp add: MaxEventBodyBytes_def)
  have rn: "rule_name ''r1'' = ''r1''" by (simp add: rule_name_def)
  have ip: "ev_remote_ip (or_body (event_request sample_publisher ?e)) = ''10.0.0.9''" by (simp add: event_request_def e)
  from evaluation_reported[OF run f(1) a(1) f(2,3) p sample_api_inv sample_api_fields(5) sc b z, of "[]"]
  obtain w x ab' where "sd_sent s' = [event_request sample_publisher ?e]"
    "api_serve zero_env [] (received_request (\<lambda>_. zero_text) (\<lambda>_. []) ''/api/v1/events'' (event_request sample_publisher ?e)) sample_api =
       Some (w, sample_api\<lparr>sv_broker := Some ab', sv_audit := x\<rparr>)"
    unfolding out Let_def option.case prod.case rn f(8) using v pl n by auto
  with run ip show ?thesis by blast
qed

end
