(* ===== verification/Router.thy ===== *)
theory Router
  imports Config Interfaces
begin

text \<open>
  \<^verbatim>\<open>internal/gateway/router.go\<close>: the routes of the gateway. A host or path of a route is
  turned into a regular expression; the ones that arise from hosts without regexp operators and
  from all paths are sequences of characters and two kinds of wildcards, matched here on code
  points as \<^verbatim>\<open>regexp\<close> does. A host that uses other operators is left to the argument \<^verbatim>\<open>regexp\<close>.
\<close>

section \<open>Patterns\<close>

text \<open>A code point; \<^verbatim>\<open>[^.]+\<close>; \<^verbatim>\<open>.*\<close>, which does not pass a newline.\<close>

datatype ptok = PChar nat | PLabel | PAny

definition dot :: nat where "dot = 46"
definition star :: nat where "star = 42"
definition newline_rune :: nat where "newline_rune = 10"

function pat_match :: "ptok list \<Rightarrow> nat list \<Rightarrow> bool" where
  "pat_match [] s = (s = [])"
| "pat_match (PChar c # ts) s = (case s of [] \<Rightarrow> False | x # s' \<Rightarrow> x = c \<and> pat_match ts s')"
| "pat_match (PLabel # ts) s =
     (case s of [] \<Rightarrow> False | x # s' \<Rightarrow> x \<noteq> dot \<and> (pat_match ts s' \<or> pat_match (PLabel # ts) s'))"
| "pat_match (PAny # ts) s =
     (pat_match ts s \<or> (case s of [] \<Rightarrow> False | x # s' \<Rightarrow> x \<noteq> newline_rune \<and> pat_match (PAny # ts) s'))"
  by pat_completeness auto
termination
  by (relation "measure (\<lambda>(ts, s). length ts + length s)") auto

declare pat_match.simps [simp del]

text \<open>A string that \<^verbatim>\<open>regexp.Compile\<close> accepts as a pattern: valid UTF-8.\<close>

definition utf8_ok :: "string \<Rightarrow> bool" where
  "utf8_ok s = list_all (\<lambda>(r, b). r = rune_error \<longrightarrow> length b = 3) (chunks s)"

lemma utf8_ok_ascii: "ascii s \<Longrightarrow> utf8_ok s"
  by (induction s) (auto simp: utf8_ok_def ascii_def chunks_ascii_Cons rune_error_def)

definition host_tokens :: "string \<Rightarrow> ptok list" where
  "host_tokens host = map (\<lambda>r. if r = star then PLabel else PChar r) (runes host)"

definition path_tokens :: "string \<Rightarrow> ptok list" where
  "path_tokens path = map (\<lambda>r. if r = star then PAny else PChar r) (runes path)"

text \<open>The regexp operators that \<^verbatim>\<open>AddRoute\<close> leaves unescaped in a host.\<close>

definition plain_host :: "string \<Rightarrow> bool" where
  "plain_host host =
     list_all (\<lambda>c. c \<notin> {CHR 0x5C, CHR ''+'', CHR ''?'', CHR ''('', CHR '')'', CHR ''|'', CHR ''['', CHR '']'',
       CHR ''{'', CHR ''}'', CHR ''^'', CHR ''$''}) host"

definition host_expr :: "string \<Rightarrow> string" where
  "host_expr host =
     ''^'' @ replace_byte (CHR ''*'') ''[^.]+'' (replace_byte (CHR ''.'') [CHR 0x5C, CHR ''.''] host) @ ''$''"

definition compile_host :: "(string \<Rightarrow> (string \<Rightarrow> bool) option) \<Rightarrow> string \<Rightarrow> (string \<Rightarrow> bool) option" where
  "compile_host regexp host =
     (if \<not> plain_host host then regexp (host_expr host)
      else if utf8_ok host then Some (\<lambda>s. pat_match (host_tokens host) (runes s)) else None)"

definition compile_path :: "string \<Rightarrow> (string \<Rightarrow> bool) option" where
  "compile_path path = (if utf8_ok path then Some (\<lambda>s. pat_match (path_tokens path) (runes s)) else None)"

section \<open>Routes\<close>

record gw_route =
  gr_name :: string
  gr_host :: string
  gr_path :: string
  gr_methods :: "string list"
  gr_upstream :: string
  gr_tls :: "TLSConfig option"
  gr_plugins :: "string list"
  gr_headers :: "(string \<times> string) list"
  gr_host_pattern :: "string \<Rightarrow> bool"
  gr_path_pattern :: "string \<Rightarrow> bool"

text \<open>The errors, without the text of the regexp library. The upper-case table is an argument.\<close>

datatype route_error = InvalidHostPattern string | InvalidPathPattern string

definition NewRouter :: "gw_route list" where "NewRouter = []"

definition AddRoute ::
    "(nat \<Rightarrow> nat) \<Rightarrow> (string \<Rightarrow> (string \<Rightarrow> bool) option) \<Rightarrow> RouteConfig \<Rightarrow> gw_route list \<Rightarrow> route_error + gw_route list" where
  "AddRoute uu regexp cfg rs =
     (case compile_host regexp (rt_host cfg) of
        None \<Rightarrow> Inl (InvalidHostPattern (rt_host cfg))
      | Some hp \<Rightarrow>
         (case compile_path (rt_path cfg) of
            None \<Rightarrow> Inl (InvalidPathPattern (rt_path cfg))
          | Some pp \<Rightarrow>
              Inr (rs @
                [\<lparr>gr_name = rt_name cfg, gr_host = rt_host cfg, gr_path = rt_path cfg,
                  gr_methods = map (to_upper uu) (rt_methods cfg), gr_upstream = rt_upstream cfg, gr_tls = rt_tls cfg,
                  gr_plugins = rt_plugins cfg, gr_headers = rt_headers cfg, gr_host_pattern = hp, gr_path_pattern = pp\<rparr>])))"

text \<open>The path pattern has no groups, so the only parameter is the path itself.\<close>

fun Match ::
    "(nat \<Rightarrow> nat) \<Rightarrow> gw_route list \<Rightarrow> string \<times> string \<times> string \<Rightarrow> (gw_route \<times> (string \<times> string) list) option" where
  "Match uu [] (host, path, method) = None"
| "Match uu (route # rs) (host, path, method) =
     (if \<not> gr_host_pattern route host then Match uu rs (host, path, method)
      else if gr_path_pattern route path
      then if gr_methods route \<noteq> [] \<and> to_upper uu method \<notin> set (gr_methods route) then Match uu rs (host, path, method)
           else Some (route, [(''path'', path)])
      else Match uu rs (host, path, method))"

section \<open>What a pattern matches\<close>

text \<open>The reference: the set of strings of a pattern.\<close>

fun pat_lang :: "ptok list \<Rightarrow> nat list set" where
  "pat_lang [] = {[]}"
| "pat_lang (PChar c # ts) = {c # s | s. s \<in> pat_lang ts}"
| "pat_lang (PLabel # ts) = {u @ s | u s. u \<noteq> [] \<and> dot \<notin> set u \<and> s \<in> pat_lang ts}"
| "pat_lang (PAny # ts) = {u @ s | u s. newline_rune \<notin> set u \<and> s \<in> pat_lang ts}"

lemma pat_lang_label:
  "s \<in> pat_lang (PLabel # ts) \<longleftrightarrow>
   (\<exists>x s'. s = x # s' \<and> x \<noteq> dot \<and> (s' \<in> pat_lang ts \<or> s' \<in> pat_lang (PLabel # ts)))"
proof
  assume "s \<in> pat_lang (PLabel # ts)"
  then obtain u v where s: "s = u @ v" "u \<noteq> []" "dot \<notin> set u" "v \<in> pat_lang ts" by auto
  then obtain x u' where u: "u = x # u'" by (cases u) auto
  show "\<exists>x s'. s = x # s' \<and> x \<noteq> dot \<and> (s' \<in> pat_lang ts \<or> s' \<in> pat_lang (PLabel # ts))"
  proof (cases "u' = []")
    case True
    with s u show ?thesis by auto
  next
    case False
    then have "u' @ v \<in> pat_lang (PLabel # ts)" using s u by auto
    with s u show ?thesis by auto
  qed
next
  assume "\<exists>x s'. s = x # s' \<and> x \<noteq> dot \<and> (s' \<in> pat_lang ts \<or> s' \<in> pat_lang (PLabel # ts))"
  then obtain x s' where s: "s = x # s'" "x \<noteq> dot" "s' \<in> pat_lang ts \<or> s' \<in> pat_lang (PLabel # ts)" by blast
  from s(3) obtain u v where "s' = u @ v" "dot \<notin> set u" "v \<in> pat_lang ts" by fastforce
  with s have "s = (x # u) @ v" "x # u \<noteq> []" "dot \<notin> set (x # u)" by auto
  with \<open>v \<in> pat_lang ts\<close> show "s \<in> pat_lang (PLabel # ts)" unfolding pat_lang.simps by blast
qed

lemma pat_lang_any:
  "s \<in> pat_lang (PAny # ts) \<longleftrightarrow>
   s \<in> pat_lang ts \<or> (\<exists>x s'. s = x # s' \<and> x \<noteq> newline_rune \<and> s' \<in> pat_lang (PAny # ts))"
proof
  assume "s \<in> pat_lang (PAny # ts)"
  then obtain u v where s: "s = u @ v" "newline_rune \<notin> set u" "v \<in> pat_lang ts" by auto
  show "s \<in> pat_lang ts \<or> (\<exists>x s'. s = x # s' \<and> x \<noteq> newline_rune \<and> s' \<in> pat_lang (PAny # ts))"
    using s by (cases u) auto
next
  assume "s \<in> pat_lang ts \<or> (\<exists>x s'. s = x # s' \<and> x \<noteq> newline_rune \<and> s' \<in> pat_lang (PAny # ts))"
  then show "s \<in> pat_lang (PAny # ts)"
  proof
    assume "s \<in> pat_lang ts"
    then show ?thesis by force
  next
    assume "\<exists>x s'. s = x # s' \<and> x \<noteq> newline_rune \<and> s' \<in> pat_lang (PAny # ts)"
    then obtain x u v where "s = (x # u) @ v" "newline_rune \<notin> set (x # u)" "v \<in> pat_lang ts" by auto
    then show ?thesis unfolding pat_lang.simps by blast
  qed
qed

lemma pat_lang_Nil_Cons:
  "[] \<notin> pat_lang (PLabel # ts)"
  "x # s \<in> pat_lang (PLabel # ts) \<longleftrightarrow> x \<noteq> dot \<and> (s \<in> pat_lang ts \<or> s \<in> pat_lang (PLabel # ts))"
  "[] \<in> pat_lang (PAny # ts) \<longleftrightarrow> [] \<in> pat_lang ts"
  "x # s \<in> pat_lang (PAny # ts) \<longleftrightarrow> x # s \<in> pat_lang ts \<or> x \<noteq> newline_rune \<and> s \<in> pat_lang (PAny # ts)"
  using pat_lang_label[of "[]" ts] pat_lang_label[of "x # s" ts] pat_lang_any[of "[]" ts] pat_lang_any[of "x # s" ts]
  by (simp_all del: pat_lang.simps)

lemma pat_match_Nil_Cons:
  "pat_match (PLabel # ts) [] = False"
  "pat_match (PLabel # ts) (x # s) = (x \<noteq> dot \<and> (pat_match ts s \<or> pat_match (PLabel # ts) s))"
  "pat_match (PAny # ts) [] = pat_match ts []"
  "pat_match (PAny # ts) (x # s) = (pat_match ts (x # s) \<or> x \<noteq> newline_rune \<and> pat_match (PAny # ts) s)"
  "pat_match (PChar c # ts) [] = False"
  "pat_match (PChar c # ts) (x # s) = (x = c \<and> pat_match ts s)"
  "pat_match [] s = (s = [])"
  by (subst pat_match.simps; simp)+

lemma pat_match_lang: "pat_match ts s \<longleftrightarrow> s \<in> pat_lang ts"
proof (induction ts s rule: pat_match.induct)
  case (2 c ts s)
  then show ?case by (cases s) (auto simp: pat_match_Nil_Cons)
next
  case (3 ts s)
  then show ?case by (cases s) (auto simp: pat_match_Nil_Cons pat_lang_Nil_Cons simp del: pat_lang.simps)
next
  case (4 ts s)
  then show ?case by (cases s) (auto simp: pat_match_Nil_Cons pat_lang_Nil_Cons simp del: pat_lang.simps)
qed (simp add: pat_match_Nil_Cons)

text \<open>A wildcard of a host stays inside one label: it never matches a dot.\<close>

lemma host_lang_dots:
  "s \<in> pat_lang ts \<Longrightarrow> PAny \<notin> set ts \<Longrightarrow> count_list s dot = count_list ts (PChar dot)"
proof (induction ts arbitrary: s)
  case (Cons t ts)
  have z: "count_list u dot = 0" if "dot \<notin> set u" for u using that by (induction u) auto
  show ?case
  proof (cases t)
    case (PChar c)
    then show ?thesis using Cons by auto
  next
    case PLabel
    then show ?thesis using Cons z by auto
  next
    case PAny
    then show ?thesis using Cons by simp
  qed
qed simp

lemma host_labels:
  assumes "pat_match (host_tokens host) s"
  shows "count_list s dot = count_list (runes host) dot"
proof -
  have "count_list (map (\<lambda>r. if r = star then PLabel else PChar r) rs) (PChar dot) = count_list rs dot" for rs
    by (induction rs) (auto simp: dot_def star_def)
  moreover have "PAny \<notin> set (host_tokens host)" by (auto simp: host_tokens_def)
  moreover have "s \<in> pat_lang (host_tokens host)" using assms by (simp add: pat_match_lang)
  ultimately show ?thesis using host_lang_dots[of s "host_tokens host"] by (simp add: host_tokens_def)
qed

section \<open>Which route is taken\<close>

definition route_applies :: "(nat \<Rightarrow> nat) \<Rightarrow> gw_route \<Rightarrow> string \<times> string \<times> string \<Rightarrow> bool" where
  "route_applies uu route q = (case q of (host, path, method) \<Rightarrow>
     gr_host_pattern route host \<and> gr_path_pattern route path \<and>
     (gr_methods route = [] \<or> to_upper uu method \<in> set (gr_methods route)))"

fun route_verdict :: "gw_route \<Rightarrow> gw_route option" where
  "route_verdict r = Some r"

definition match_route :: "(nat \<Rightarrow> nat) \<Rightarrow> gw_route list \<Rightarrow> string \<times> string \<times> string \<Rightarrow> gw_route option" where
  "match_route uu rs q = map_option fst (Match uu rs q)"

interpretation routes: first_match "match_route uu" "route_applies uu" route_verdict None for uu
  by unfold_locales (auto simp: match_route_def route_applies_def split: if_splits)

lemma Match_params: "Match uu rs (h, p, m) = map_option (\<lambda>r. (r, [(''path'', p)])) (match_route uu rs (h, p, m))"
  unfolding match_route_def by (induction uu rs "(h, p, m)" rule: Match.induct) auto

text \<open>What a configured route serves, by the reference patterns.\<close>

definition serves_request :: "(nat \<Rightarrow> nat) \<Rightarrow> RouteConfig \<Rightarrow> string \<times> string \<times> string \<Rightarrow> bool" where
  "serves_request uu c q = (case q of (host, path, method) \<Rightarrow>
     runes host \<in> pat_lang (host_tokens (rt_host c)) \<and> runes path \<in> pat_lang (path_tokens (rt_path c)) \<and>
     (rt_methods c = [] \<or> to_upper uu method \<in> set (map (to_upper uu) (rt_methods c))))"

fun add_routes ::
    "(nat \<Rightarrow> nat) \<Rightarrow> (string \<Rightarrow> (string \<Rightarrow> bool) option) \<Rightarrow> RouteConfig list \<Rightarrow> gw_route list \<Rightarrow> (string \<times> route_error) option \<times> gw_route list" where
  "add_routes uu regexp [] rs = (None, rs)"
| "add_routes uu regexp (c # cs) rs =
     (case AddRoute uu regexp c rs of
        Inl e \<Rightarrow> (Some (rt_name c, e), rs)
      | Inr rs' \<Rightarrow> add_routes uu regexp cs rs')"

definition is_route :: "(nat \<Rightarrow> nat) \<Rightarrow> RouteConfig \<Rightarrow> gw_route \<Rightarrow> bool" where
  "is_route uu c r \<longleftrightarrow> gr_name r = rt_name c \<and> gr_upstream r = rt_upstream c \<and> gr_plugins r = rt_plugins c \<and>
     (\<forall>q. route_applies uu r q = serves_request uu c q)"

lemma AddRoute_plain:
  assumes "AddRoute uu regexp c rs = Inr rs'" "plain_host (rt_host c)"
  shows "\<exists>r. rs' = rs @ [r] \<and> is_route uu c r"
  using assms
  by (auto simp: AddRoute_def compile_host_def compile_path_def is_route_def route_applies_def serves_request_def
      pat_match_lang split: if_splits)

lemma add_routes_plain:
  assumes "add_routes uu regexp cs rs = (None, rs')" "list_all (\<lambda>c. plain_host (rt_host c)) cs"
  shows "\<exists>us. rs' = rs @ us \<and> list_all2 (is_route uu) cs us"
  using assms
proof (induction cs arbitrary: rs)
  case (Cons c cs)
  then obtain r1 where r1: "AddRoute uu regexp c rs = Inr r1" "add_routes uu regexp cs r1 = (None, rs')"
    by (auto split: sum.splits)
  with Cons.prems(2) obtain r where "r1 = rs @ [r]" "is_route uu c r" using AddRoute_plain by fastforce
  with Cons.IH[OF r1(2)] Cons.prems(2) show ?case by fastforce
qed simp

lemma find_all2:
  assumes "list_all2 P cs us" "\<And>c u. P c u \<Longrightarrow> f c = g u"
  shows "rel_option P (find f cs) (find g us)"
  using assms(1) by (induction rule: list_all2_induct) (auto simp: assms(2))

lemma Match_configured:
  assumes "add_routes uu regexp cs NewRouter = (None, rs)" "list_all (\<lambda>c. plain_host (rt_host c)) cs"
  shows "case find (\<lambda>c. serves_request uu c (host, path, method)) cs of
       None \<Rightarrow> Match uu rs (host, path, method) = None
     | Some c \<Rightarrow> \<exists>r. Match uu rs (host, path, method) = Some (r, [(''path'', path)]) \<and>
         gr_name r = rt_name c \<and> gr_upstream r = rt_upstream c"
proof -
  have "list_all2 (is_route uu) cs rs" using add_routes_plain[OF assms] by (simp add: NewRouter_def)
  then have "rel_option (is_route uu) (find (\<lambda>c. serves_request uu c (host, path, method)) cs)
      (find (\<lambda>r. route_applies uu r (host, path, method)) rs)"
    by (rule find_all2) (simp add: is_route_def)
  then show ?thesis
    by (cases "find (\<lambda>c. serves_request uu c (host, path, method)) cs")
      (auto simp: Match_params routes.eval_find is_route_def option_rel_Some1)
qed

text \<open>
  C14: the router answers as its routes are written: for routes whose hosts use no regexp
  operator, the route taken is the first configured one whose host and path, with a host star
  standing for one or more characters other than a dot and a path star for any characters but a
  newline, describe the request, and which lists its method or lists none; the host then has
  exactly as many dots as the route's.
\<close>

lemma router_matches:
  assumes "add_routes uu regexp cs NewRouter = (None, rs)" "list_all (\<lambda>c. plain_host (rt_host c)) cs"
  shows "case find (\<lambda>c. serves_request uu c (host, path, method)) cs of
       None \<Rightarrow> Match uu rs (host, path, method) = None
     | Some c \<Rightarrow> count_list (runes host) dot = count_list (runes (rt_host c)) dot \<and>
         (\<exists>r. Match uu rs (host, path, method) = Some (r, [(''path'', path)]) \<and>
           gr_name r = rt_name c \<and> gr_upstream r = rt_upstream c)"
proof -
  show ?thesis
  proof (cases "find (\<lambda>c. serves_request uu c (host, path, method)) cs")
    case (Some c)
    then have "serves_request uu c (host, path, method)" by (auto simp: find_Some_iff)
    then have "count_list (runes host) dot = count_list (runes (rt_host c)) dot"
      by (intro host_labels) (simp add: serves_request_def pat_match_lang)
    with Match_configured[OF assms, of host path "method"] Some show ?thesis by simp
  qed (use Match_configured[OF assms, of host path "method"] in simp)
qed

definition sample_route :: "string \<Rightarrow> string \<Rightarrow> string \<Rightarrow> string list \<Rightarrow> string \<Rightarrow> RouteConfig" where
  "sample_route name host path methods up =
     \<lparr>rt_name = name, rt_host = host, rt_path = path, rt_methods = methods, rt_upstream = up, rt_tls = None,
      rt_plugins = [], rt_headers = []\<rparr>"

definition sample_routes :: "RouteConfig list" where
  "sample_routes =
     [sample_route ''apex'' ''example.com'' ''/*'' [] ''http://a:80'',
      sample_route ''post'' ''*.example.com'' ''/static/*'' [''post''] ''http://b:80'',
      sample_route ''cdn'' ''*.example.com'' ''/static/*'' [''get'', ''HEAD''] ''http://c:80'']"

definition no_regexp :: "string \<Rightarrow> (string \<Rightarrow> bool) option" where "no_regexp e = None"

lemma serves_request_match:
  "serves_request uu c (host, path, method) =
     (pat_match (host_tokens (rt_host c)) (runes host) \<and> pat_match (path_tokens (rt_path c)) (runes path) \<and>
      (rt_methods c = [] \<or> to_upper uu method \<in> set (map (to_upper uu) (rt_methods c))))"
  by (simp add: serves_request_def pat_match_lang)

lemma sample_routes_plain:
  "fst (add_routes id no_regexp sample_routes NewRouter) = None" "list_all (\<lambda>c. plain_host (rt_host c)) sample_routes"
proof -
  have "list_all (\<lambda>c. plain_host (rt_host c) \<and> ascii (rt_host c) \<and> ascii (rt_path c)) sample_routes" by code_simp
  then show "fst (add_routes id no_regexp sample_routes NewRouter) = None" "list_all (\<lambda>c. plain_host (rt_host c)) sample_routes"
    by (simp_all add: sample_routes_def AddRoute_def compile_host_def compile_path_def utf8_ok_ascii)
qed

lemma sample_routes_find:
  assumes "pat_match (path_tokens ''/static/*'') (runes path)"
  shows "find (\<lambda>c. serves_request id c (''img.example.com'', path, ''GET'')) sample_routes =
     Some (sample_route ''cdn'' ''*.example.com'' ''/static/*'' [''get'', ''HEAD''] ''http://c:80'')"
proof -
  have "to_upper id ''GET'' \<notin> set (map (to_upper id) [''post''])"
    "to_upper id ''GET'' \<in> set (map (to_upper id) [''get'', ''HEAD''])"
    by code_simp+
  moreover have "\<not> pat_match (host_tokens ''example.com'') (runes ''img.example.com'')"
    "pat_match (host_tokens ''*.example.com'') (runes ''img.example.com'')"
    by (simp_all add: host_tokens_def star_def dot_def pat_match_Nil_Cons)
  ultimately show ?thesis
    using assms by (simp add: sample_routes_def serves_request_match sample_route_def)
qed

lemma router_matches_witness:
  "\<exists>r. Match id (snd (add_routes id no_regexp sample_routes NewRouter))
       (''img.example.com'', ''/static/js/app.js'', ''GET'') = Some (r, [(''path'', ''/static/js/app.js'')]) \<and>
     gr_name r = ''cdn''"
proof -
  have a: "add_routes id no_regexp sample_routes NewRouter = (None, snd (add_routes id no_regexp sample_routes NewRouter))"
    using sample_routes_plain(1) by (metis prod.collapse)
  have "pat_match (path_tokens ''/static/*'') (runes ''/static/js/app.js'')"
    by (simp add: path_tokens_def star_def newline_rune_def pat_match_Nil_Cons)
  from sample_routes_find[OF this] router_matches[OF a sample_routes_plain(2), of "''img.example.com''" "''/static/js/app.js''" "''GET''"]
  show ?thesis by (auto simp: sample_route_def)
qed

end
