(* ===== verification/Upstream.thy ===== *)
theory Upstream
  imports GoNet "HOL-Library.Word" "HOL-Library.Signed_Division"
begin

text \<open>
  \<^verbatim>\<open>internal/upstream\<close>: the pool of upstream targets, its three balancing strategies and the
  health checker. A target is named by its index, targets are never removed. The URL parser
  and the outcome of a health request are arguments. \<^verbatim>\<open>None\<close> is a run-time panic.
\<close>

unbundle bit_operations_syntax

section \<open>Pool\<close>

record url =
  url_scheme :: string
  url_host :: string
  url_string :: string

record target =
  tg_active :: "64 word"
  tg_failures :: "64 word"
  tg_healthy :: bool
  tg_url :: url
  tg_weight :: int
  tg_max_conns :: int

record pool =
  po_index :: "64 word"
  po_targets :: "target list"
  po_lb :: string

definition NewPool :: "string \<Rightarrow> pool" where
  "NewPool lb = \<lparr>po_index = 0, po_targets = [], po_lb = lb\<rparr>"

definition new_target :: "url \<Rightarrow> int \<Rightarrow> target" where
  "new_target u weight =
     \<lparr>tg_active = 0, tg_failures = 0, tg_healthy = True, tg_url = u, tg_weight = weight, tg_max_conns = 0\<rparr>"

definition AddTarget :: "(string \<Rightarrow> string + url) \<Rightarrow> string \<Rightarrow> int \<Rightarrow> pool \<Rightarrow> (string + unit) \<times> pool" where
  "AddTarget url_parse addr weight p =
     (case url_parse addr of
        Inl err \<Rightarrow> (Inl err, p)
      | Inr u \<Rightarrow> (Inr (), p\<lparr>po_targets := po_targets p @ [new_target u weight]\<rparr>))"

section \<open>Balancing\<close>

text \<open>The probe sequence that two strategies share, from a start index around the list.\<close>

definition probe :: "target list \<Rightarrow> nat \<Rightarrow> nat option" where
  "probe ts idx = find (\<lambda>j. tg_healthy (ts ! j)) (map (\<lambda>i. (idx + i) mod length ts) [0..<length ts])"

text \<open>
  The counter is unsigned, but \<^verbatim>\<open>int(n)\<close> is signed and \<^verbatim>\<open>%\<close> keeps the sign of its left operand:
  a negative index panics.
\<close>

definition roundRobin :: "pool \<Rightarrow> (nat option \<times> pool) option" where
  "roundRobin p =
     (let ts = po_targets p
      in if ts = [] then Some (None, p)
         else
           let n = po_index p + 1;
               idx = sint n smod int (length ts);
               p' = p\<lparr>po_index := n\<rparr>
           in if idx < 0 then None else Some (probe ts (nat idx), p'))"

fun least_conn_from :: "nat \<Rightarrow> target list \<Rightarrow> int \<times> nat option \<Rightarrow> int \<times> nat option" where
  "least_conn_from i [] acc = acc"
| "least_conn_from i (t # ts) (minConns, best) =
     (if \<not> tg_healthy t then least_conn_from (Suc i) ts (minConns, best)
      else if sint (tg_active t) < minConns then least_conn_from (Suc i) ts (sint (tg_active t), Some i)
      else least_conn_from (Suc i) ts (minConns, best))"

definition leastConn :: "pool \<Rightarrow> nat option" where
  "leastConn p = snd (least_conn_from 0 (po_targets p) (2 ^ 63 - 1, None))"

text \<open>\<^verbatim>\<open>hash/fnv\<close>: the 32-bit FNV-1a hash.\<close>

definition fnv32a :: "string \<Rightarrow> 32 word" where
  "fnv32a s = foldl (\<lambda>h c. (h XOR word_of_nat (byte c)) * 16777619) 2166136261 s"

definition remote_host :: "string \<Rightarrow> string" where
  "remote_host addr = (case split_host_port addr of Some (host, _) \<Rightarrow> host | None \<Rightarrow> addr)"

definition ipHash :: "string \<Rightarrow> pool \<Rightarrow> nat option" where
  "ipHash remoteAddr p =
     (let ts = po_targets p
      in if ts = [] then None
         else
           let idx = unat (fnv32a (remote_host remoteAddr) mod word_of_nat (length ts))
           in case probe ts idx of Some j \<Rightarrow> Some j | None \<Rightarrow> Some idx)"

definition Next :: "string \<Rightarrow> pool \<Rightarrow> (nat option \<times> pool) option" where
  "Next remoteAddr p =
     (if po_targets p = [] then Some (None, p)
      else if po_lb p = ''least_conn'' then Some (leastConn p, p)
      else if po_lb p = ''ip_hash'' then Some (ipHash remoteAddr p, p)
      else roundRobin p)"

section \<open>Reverse proxy\<close>

record proxy_request =
  px_remote_addr :: string
  px_scheme :: string
  px_url_host :: string
  px_host :: string

definition update_target :: "nat \<Rightarrow> (target \<Rightarrow> target) \<Rightarrow> pool \<Rightarrow> pool" where
  "update_target i f p = p\<lparr>po_targets := (po_targets p)[i := f (po_targets p ! i)]\<rparr>"

text \<open>The director; the target it chose is decremented when the request's context is done.\<close>

definition Director :: "proxy_request \<Rightarrow> pool \<Rightarrow> (proxy_request \<times> nat option \<times> pool) option" where
  "Director req p =
     (case Next (px_remote_addr req) p of
        None \<Rightarrow> None
      | Some (None, p') \<Rightarrow> Some (req, None, p')
      | Some (Some i, p') \<Rightarrow>
          let p'' = update_target i (\<lambda>t. t\<lparr>tg_active := tg_active t + 1\<rparr>) p';
              u = tg_url (po_targets p' ! i)
          in Some (req\<lparr>px_scheme := url_scheme u, px_url_host := url_host u, px_host := url_host u\<rparr>, Some i, p''))"

definition request_done :: "nat option \<Rightarrow> pool \<Rightarrow> pool" where
  "request_done i p =
     (case i of None \<Rightarrow> p | Some i \<Rightarrow> update_target i (\<lambda>t. t\<lparr>tg_active := tg_active t - 1\<rparr>) p)"

section \<open>Health checks\<close>

definition check_target :: "(string \<Rightarrow> string + nat) \<Rightarrow> string \<Rightarrow> target \<Rightarrow> target" where
  "check_target http_get path t =
     (let failed = (case http_get (url_string (tg_url t) @ path) of Inl _ \<Rightarrow> True | Inr status \<Rightarrow> 500 \<le> status)
      in if failed
         then let t' = t\<lparr>tg_failures := tg_failures t + 1\<rparr>
              in if 3 \<le> sint (tg_failures t') then t'\<lparr>tg_healthy := False\<rparr> else t'
         else t\<lparr>tg_failures := 0, tg_healthy := True\<rparr>)"

definition checkAll :: "(string \<Rightarrow> string + nat) \<Rightarrow> string \<Rightarrow> pool \<Rightarrow> pool" where
  "checkAll http_get path p = p\<lparr>po_targets := map (check_target http_get path) (po_targets p)\<rparr>"

text \<open>The loop over the ticks until the context is done.\<close>

definition HealthCheck :: "(string \<Rightarrow> string + nat) list \<Rightarrow> string \<Rightarrow> pool \<Rightarrow> pool" where
  "HealthCheck ticks path p = fold (\<lambda>get. checkAll get path) ticks p"

section \<open>Choice of a target\<close>

lemma probe_range:
  "idx < n \<Longrightarrow> set (map (\<lambda>i. (idx + i) mod n) [0..<n]) = {0..<n}"
proof -
  assume idx: "idx < n"
  have "j \<in> (\<lambda>i. (idx + i) mod n) ` {0..<n}" if "j < n" for j
  proof (cases "idx \<le> j")
    case True
    then show ?thesis using that by (intro image_eqI[of _ _ "j - idx"]) auto
  next
    case False
    then have "idx + (n + j - idx) = n + j" "n + j - idx < n" using idx by auto
    then show ?thesis using that by (intro image_eqI[of _ _ "n + j - idx"]) auto
  qed
  then show ?thesis using idx by auto
qed

lemma probe_Some: "probe ts idx = Some j \<Longrightarrow> j < length ts \<and> tg_healthy (ts ! j)"
  unfolding probe_def by (drule find_SomeD) (auto intro!: mod_less_divisor)

lemma probe_None: "idx < length ts \<Longrightarrow> probe ts idx = None \<longleftrightarrow> (\<forall>j < length ts. \<not> tg_healthy (ts ! j))"
  unfolding probe_def find_None_iff probe_range by auto

lemma probe_first: "idx < length ts \<Longrightarrow> tg_healthy (ts ! idx) \<Longrightarrow> probe ts idx = Some idx"
  by (cases ts) (simp_all add: probe_def upt_rec)

lemma least_conn_from_spec:
  fixes m0 :: int
  assumes "least_conn_from k ts (m0, b0) = (m, b)"
  shows "m \<le> m0 \<and> (\<forall>t \<in> set ts. tg_healthy t \<longrightarrow> m \<le> sint (tg_active t)) \<and>
     ((b = b0 \<and> m = m0) \<or>
      (\<exists>j < length ts. b = Some (k + j) \<and> tg_healthy (ts ! j) \<and> m = sint (tg_active (ts ! j)) \<and> m < m0))"
  using assms
proof (induction ts arbitrary: k m0 b0)
  case (Cons t ts)
  show ?case
  proof (cases "tg_healthy t \<and> sint (tg_active t) < m0")
    case True
    then have "least_conn_from (Suc k) ts (sint (tg_active t), Some k) = (m, b)" using Cons.prems by simp
    from Cons.IH[OF this] True show ?thesis by (fastforce simp: nth_Cons')
  next
    case False
    then have "least_conn_from (Suc k) ts (m0, b0) = (m, b)" using Cons.prems by (auto split: if_splits)
    from Cons.IH[OF this] False show ?thesis by (fastforce simp: nth_Cons')
  qed
qed simp

lemma sint_smod_nonneg: "0 \<le> sint n \<Longrightarrow> 0 < l \<Longrightarrow> sint (n::64 word) smod int l = int (nat (sint n) mod l)"
  by (simp add: signed_modulo_int_def sgn_if zmod_int nat_mod_distrib)

lemma sint_of_small: "unat (n :: 64 word) < 2 ^ 63 \<Longrightarrow> sint n = int (unat n)"
proof -
  assume "unat n < 2 ^ 63"
  then have "int (unat n) < int (2 ^ 63)" by (simp only: of_nat_less_iff)
  then have u: "uint n < 2 ^ 63" by simp
  have "- (2 ^ 63) \<le> uint n" by (rule order_trans[OF _ uint_ge_0]) simp
  then have "signed_take_bit 63 (uint n) = uint n" using u by (rule signed_take_bit_int_eq_self)
  then show ?thesis by (simp add: sint_uint)
qed

lemma unat_succ: "unat (n :: 64 word) + 1 < 2 ^ 64 \<Longrightarrow> unat (n + 1) = unat n + 1"
  by (simp add: unat_word_ariths)

lemma roundRobin_small:
  assumes "unat (po_index p) + 1 < 2 ^ 63" "po_targets p \<noteq> []"
  shows "roundRobin p =
     Some (probe (po_targets p) ((unat (po_index p) + 1) mod length (po_targets p)), p\<lparr>po_index := po_index p + 1\<rparr>)"
proof -
  have u: "unat (po_index p + 1) = unat (po_index p) + 1" using assms(1) by (intro unat_succ) simp
  then have s: "sint (po_index p + 1) = int (unat (po_index p) + 1)"
    using assms(1) sint_of_small[of "po_index p + 1"] by simp
  have "sint (po_index p + 1) smod int (length (po_targets p)) = int ((unat (po_index p) + 1) mod length (po_targets p))"
  proof -
    have "0 \<le> sint (po_index p + 1)" unfolding s by (rule of_nat_0_le_iff)
    moreover have "0 < length (po_targets p)" using assms(2) by simp
    ultimately have "sint (po_index p + 1) smod int (length (po_targets p)) =
        int (nat (sint (po_index p + 1)) mod length (po_targets p))" by (rule sint_smod_nonneg)
    then show ?thesis unfolding s by (simp only: nat_int)
  qed
  then show ?thesis using assms(2) by (simp add: roundRobin_def Let_def)
qed

fun pick_n :: "nat \<Rightarrow> string \<Rightarrow> pool \<Rightarrow> (nat option list \<times> pool) option" where
  "pick_n 0 addr p = Some ([], p)"
| "pick_n (Suc k) addr p =
     (case Next addr p of
        None \<Rightarrow> None
      | Some (t, p') \<Rightarrow> (case pick_n k addr p' of None \<Rightarrow> None | Some (us, p'') \<Rightarrow> Some (t # us, p'')))"

lemma pick_n_round_robin:
  assumes "po_lb p \<notin> {''least_conn'', ''ip_hash''}" "po_targets p \<noteq> []"
    and "list_all tg_healthy (po_targets p)" "unat (po_index p) + k < 2 ^ 63"
  shows "\<exists>p'. pick_n k addr p =
     Some (map (\<lambda>i. Some ((unat (po_index p) + i + 1) mod length (po_targets p))) [0..<k], p')"
  using assms
proof (induction k arbitrary: p)
  case (Suc k)
  define p1 where "p1 = p\<lparr>po_index := po_index p + 1\<rparr>"
  define l where "l = length (po_targets p)"
  have l: "0 < l" using Suc.prems by (simp add: l_def)
  have u: "unat (po_index p + 1) = unat (po_index p) + 1" using Suc.prems by (intro unat_succ) simp
  have "probe (po_targets p) ((unat (po_index p) + 1) mod l) = Some ((unat (po_index p) + 1) mod l)"
    using Suc.prems l by (intro probe_first) (auto simp: list_all_length l_def)
  then have step: "Next addr p = Some (Some ((unat (po_index p) + 1) mod l), p1)"
    using Suc.prems roundRobin_small[of p] by (simp add: Next_def p1_def l_def)
  obtain p' where "pick_n k addr p1 = Some (map (\<lambda>i. Some ((unat (po_index p1) + i + 1) mod l)) [0..<k], p')"
    using Suc.IH[of p1] Suc.prems u by (auto simp: p1_def l_def)
  then have "pick_n (Suc k) addr p =
      Some (Some ((unat (po_index p) + 1) mod l) # map (\<lambda>i. Some ((unat (po_index p) + i + 2) mod l)) [0..<k], p')"
    using step u by (simp add: p1_def)
  moreover have "map (\<lambda>i. Some ((unat (po_index p) + i + 1) mod l)) [0..<Suc k] =
      Some ((unat (po_index p) + 1) mod l) # map (\<lambda>i. Some ((unat (po_index p) + i + 2) mod l)) [0..<k]"
    by (simp add: upt_conv_Cons map_Suc_upt[symmetric] comp_def del: upt_Suc)
  ultimately show ?case by (simp only: l_def) blast
qed simp

text \<open>
  C32: round robin is fair: while every target is healthy and the counter is below 2^63, \<open>k\<close>
  calls in a row walk through the targets in a cycle, so each window of as many calls as there
  are targets chooses every target exactly once.
\<close>

lemma round_robin_fair:
  assumes "po_lb p \<notin> {''least_conn'', ''ip_hash''}" "po_targets p \<noteq> []"
    and "list_all tg_healthy (po_targets p)" "unat (po_index p) + length (po_targets p) < 2 ^ 63"
  shows "\<exists>ts p'. pick_n (length (po_targets p)) addr p = Some (map Some ts, p') \<and>
     distinct ts \<and> set ts = {0..<length (po_targets p)}"
proof -
  define l where "l = length (po_targets p)"
  define k where "k = unat (po_index p) + 1"
  have l: "0 < l" using assms(2) by (simp add: l_def)
  define ts where "ts = map (\<lambda>i. (k mod l + i) mod l) [0..<l]"
  obtain p' where "pick_n l addr p = Some (map (\<lambda>i. Some ((unat (po_index p) + i + 1) mod l)) [0..<l], p')"
    using pick_n_round_robin[OF assms(1-3), of l addr] assms(4) by (auto simp: l_def)
  moreover have "map (\<lambda>i. Some ((unat (po_index p) + i + 1) mod l)) [0..<l] = map Some ts"
    unfolding ts_def k_def by (simp only: mod_add_left_eq map_map comp_def) (simp add: ac_simps)
  moreover have st: "set ts = {0..<l}" unfolding ts_def by (rule probe_range) (use l in simp)
  moreover have "distinct ts"
    by (rule card_distinct) (simp only: st, simp add: ts_def)
  ultimately show ?thesis by (auto simp: l_def)
qed

definition sample_url :: "string \<Rightarrow> url" where
  "sample_url h = \<lparr>url_scheme = ''http'', url_host = h, url_string = ''http://'' @ h\<rparr>"

definition sample_pool :: "string \<Rightarrow> pool" where
  "sample_pool lb = \<lparr>po_index = 0, po_targets = map (\<lambda>h. new_target (sample_url h) 1) [''a'', ''b'', ''c''], po_lb = lb\<rparr>"

lemma round_robin_fair_witness:
  "\<exists>ts p'. pick_n 3 ''10.0.0.9:80'' (sample_pool ''round_robin'') = Some (map Some ts, p') \<and>
     distinct ts \<and> set ts = {0..<3}"
proof -
  have l: "length (po_targets (sample_pool ''round_robin'')) = 3" by (simp add: sample_pool_def)
  have "po_lb (sample_pool ''round_robin'') \<notin> {''least_conn'', ''ip_hash''}"
    "po_targets (sample_pool ''round_robin'') \<noteq> []"
    "list_all tg_healthy (po_targets (sample_pool ''round_robin''))"
    "unat (po_index (sample_pool ''round_robin'')) + length (po_targets (sample_pool ''round_robin'')) < 2 ^ 63"
    by (simp_all add: sample_pool_def new_target_def)
  then show ?thesis using round_robin_fair[of "sample_pool ''round_robin''" "''10.0.0.9:80''"] unfolding l by blast
qed

text \<open>
  C33: as long as the counter is below 2^63, choosing a target never panics and returns only
  healthy targets, except for IP hashing when no target is healthy: round robin and IP
  hashing return a healthy target whenever there is one.
\<close>

lemma Next_healthy:
  assumes "unat (po_index p) + 1 < 2 ^ 63" "length (po_targets p) < 2 ^ 32"
  shows "\<exists>t p'. Next addr p = Some (t, p') \<and> po_targets p' = po_targets p \<and>
     (case t of
        None \<Rightarrow> po_lb p = ''least_conn'' \<or> list_all (\<lambda>t. \<not> tg_healthy t) (po_targets p)
      | Some j \<Rightarrow> j < length (po_targets p) \<and>
          (tg_healthy (po_targets p ! j) \<or>
           po_lb p = ''ip_hash'' \<and> list_all (\<lambda>t. \<not> tg_healthy t) (po_targets p)))"
proof (cases "po_targets p = []")
  case False
  define l where "l = length (po_targets p)"
  have l: "0 < l" using False by (simp add: l_def)
  consider "po_lb p = ''least_conn''" | "po_lb p = ''ip_hash''" | "po_lb p \<notin> {''least_conn'', ''ip_hash''}" by blast
  then show ?thesis
  proof cases
    case 1
    obtain m b where "least_conn_from 0 (po_targets p) (2 ^ 63 - 1, None) = (m, b)" by fastforce
    from least_conn_from_spec[OF this] this 1 False show ?thesis
      by (auto simp: Next_def leastConn_def split: option.splits)
  next
    case 2
    define i where "i = unat (fnv32a (remote_host addr) mod word_of_nat l)"
    have "unat (word_of_nat l :: 32 word) = l" using assms(2) by (simp add: unat_of_nat l_def take_bit_nat_eq_self)
    then have i: "i < length (po_targets p)"
      using l by (simp add: i_def unat_mod l_def)
    have "Next addr p = Some (Some (case probe (po_targets p) i of Some j \<Rightarrow> j | None \<Rightarrow> i), p)"
      using 2 False by (simp add: Next_def ipHash_def Let_def i_def l_def split: option.splits)
    then show ?thesis
      using probe_Some[of "po_targets p" i] probe_None[OF i] i 2
      by (auto simp: list_all_length split: option.splits)
  next
    case 3
    have "(unat (po_index p) + 1) mod l < length (po_targets p)" using l by (simp add: l_def)
    from probe_None[OF this] show ?thesis
      using roundRobin_small[OF assms(1) False] 3 False probe_Some[of "po_targets p"]
      by (auto simp: Next_def l_def list_all_length split: option.splits)
  qed
qed (simp add: Next_def)

lemma Next_healthy_witness: "\<exists>t p'. Next ''10.0.0.9:80'' (sample_pool ''ip_hash'') = Some (t, p')"
  using Next_healthy[of "sample_pool ''ip_hash''" "''10.0.0.9:80''"] by (auto simp: sample_pool_def)

text \<open>Once the counter passes 2^63 the signed conversion is negative and the next call panics.\<close>

lemma roundRobin_panics:
  "roundRobin ((sample_pool ''round_robin'')\<lparr>po_index := 2 ^ 63\<rparr>) = None"
  by code_simp

text \<open>
  the least-connections strategy returns a healthy target with the fewest active connections
  among the healthy ones, and none only if every healthy target has 2^63 - 1 of them.
\<close>

lemma leastConn_minimal:
  "case leastConn p of
     None \<Rightarrow> list_all (\<lambda>t. sint (tg_active t) = 2 ^ 63 - 1) (filter tg_healthy (po_targets p))
   | Some j \<Rightarrow> j < length (po_targets p) \<and> tg_healthy (po_targets p ! j) \<and>
       list_all (\<lambda>t. sint (tg_active (po_targets p ! j)) \<le> sint (tg_active t)) (filter tg_healthy (po_targets p))"
proof -
  obtain m b where mb: "least_conn_from 0 (po_targets p) (2 ^ 63 - 1, None) = (m, b)" by fastforce
  have top: "sint x \<le> 2 ^ 63 - 1" for x :: "64 word"
    using sint_lt[of x] by simp
  show ?thesis
    using least_conn_from_spec[OF mb] mb top
    by (auto simp: leastConn_def list_all_iff split: option.splits intro: antisym)
qed

section \<open>Balance of connections\<close>

text \<open>
  the active-connection counters balance: whatever target the director chooses, finishing
  the request restores every target of the pool, and a request without a target is passed on
  unchanged.
\<close>

lemma Director_balances:
  "case Director req p of
     None \<Rightarrow> Next (px_remote_addr req) p = None
   | Some (req', i, p') \<Rightarrow>
       po_targets (request_done i p') = po_targets p \<and>
       (case i of None \<Rightarrow> req' = req \<and> po_targets p' = po_targets p
        | Some i \<Rightarrow> px_host req' = url_host (tg_url (po_targets p ! i)) \<and> px_url_host req' = px_host req' \<and>
            px_scheme req' = url_scheme (tg_url (po_targets p ! i)) \<and> px_remote_addr req' = px_remote_addr req)"
proof (cases "Next (px_remote_addr req) p")
  case (Some tp)
  obtain t p' where tp: "tp = (t, p')" by force
  have ts: "po_targets p' = po_targets p"
    using Some tp by (auto simp: Next_def roundRobin_def Let_def split: if_splits)
  show ?thesis
  proof (cases t)
    case (Some i)
    then show ?thesis
      using \<open>Next (px_remote_addr req) p = Some tp\<close> tp ts
      by (cases "i < length (po_targets p)")
        (simp_all add: Director_def request_done_def update_target_def Let_def list_update_beyond)
  qed (use Some tp ts in \<open>simp add: Director_def request_done_def\<close>)
qed (simp add: Director_def)

section \<open>Health state machine\<close>

text \<open>The outcome of a target's check in one round, and the failures at the end of a run.\<close>

definition check_fails :: "string \<Rightarrow> target \<Rightarrow> (string \<Rightarrow> string + nat) \<Rightarrow> bool" where
  "check_fails path t get = (case get (url_string (tg_url t) @ path) of Inl _ \<Rightarrow> True | Inr status \<Rightarrow> 500 \<le> status)"

definition trailing :: "bool list \<Rightarrow> nat" where
  "trailing bs = length (takeWhile id (rev bs))"

lemma trailing_snoc [simp]: "trailing (bs @ [b]) = (if b then Suc (trailing bs) else 0)"
  by (simp add: trailing_def)

lemma trailing_Nil [simp]: "trailing [] = 0"
  by (simp add: trailing_def)

lemma trailing_le: "trailing bs \<le> length bs"
  using length_takeWhile_le[of id "rev bs"] by (simp add: trailing_def)

lemma check_target_url [simp]: "tg_url (check_target get path t) = tg_url t"
  by (simp add: check_target_def Let_def split: sum.splits)

lemma check_fold_url [simp]: "tg_url (fold (\<lambda>get. check_target get path) ticks t) = tg_url t"
  by (induction ticks arbitrary: t) auto

lemma check_target_state:
  assumes "unat (tg_failures t) + 1 < 2 ^ 63"
  shows "unat (tg_failures (check_target get path t)) = (if check_fails path t get then unat (tg_failures t) + 1 else 0)"
    and "tg_healthy (check_target get path t) =
       (if check_fails path t get then tg_healthy t \<and> unat (tg_failures t) + 1 < 3 else True)"
proof -
  have u: "unat (tg_failures t + 1) = unat (tg_failures t) + 1" using assms by (intro unat_succ) simp
  then have s: "sint (tg_failures t + 1) = int (unat (tg_failures t) + 1)"
    using assms sint_of_small[of "tg_failures t + 1"] by simp
  have s3: "(3 \<le> sint (tg_failures t + 1)) = (\<not> unat (tg_failures t) + 1 < 3)" unfolding s by linarith
  show "unat (tg_failures (check_target get path t)) = (if check_fails path t get then unat (tg_failures t) + 1 else 0)"
    by (auto simp: check_target_def check_fails_def Let_def u split: sum.splits)
  show "tg_healthy (check_target get path t) =
       (if check_fails path t get then tg_healthy t \<and> unat (tg_failures t) + 1 < 3 else True)"
    by (auto simp: check_target_def check_fails_def Let_def s3 split: sum.splits)
qed

text \<open>
  after any run of health rounds a target that was added fresh counts exactly its failures
  since the last success, and is unhealthy if and only if these are at least three: one success
  restores it, and two failures do not remove it.
\<close>

lemma health_state:
  assumes "length ticks < 2 ^ 63 - 1"
  shows "let t = fold (\<lambda>get. check_target get path) ticks (new_target u weight);
             failed = map (check_fails path (new_target u weight)) ticks
         in unat (tg_failures t) = trailing failed \<and> (tg_healthy t \<longleftrightarrow> trailing failed < 3)"
  using assms
proof (induction ticks rule: rev_induct)
  case (snoc get ticks)
  define t where "t = fold (\<lambda>get. check_target get path) ticks (new_target u weight)"
  define failed where "failed = map (check_fails path (new_target u weight)) ticks"
  have ih: "unat (tg_failures t) = trailing failed" "tg_healthy t \<longleftrightarrow> trailing failed < 3"
    using snoc by (simp_all add: Let_def t_def failed_def)
  have "trailing failed \<le> length ticks" using trailing_le[of failed] by (simp add: failed_def)
  then have small: "unat (tg_failures t) + 1 < 2 ^ 63" using snoc.prems ih by simp
  have same: "check_fails path t get = check_fails path (new_target u weight) get"
    by (simp add: check_fails_def t_def)
  show ?case
    using check_target_state[OF small, of get path] ih
    by (auto simp: Let_def same simp flip: t_def failed_def)
qed (simp add: new_target_def Let_def)

lemma health_state_witness:
  "\<not> tg_healthy (fold (\<lambda>get. check_target get ''/health'') (replicate 3 (\<lambda>_. Inr 503)) (new_target (sample_url ''a'') 1))"
  using health_state[of "replicate 3 (\<lambda>_. Inr 503)" "''/health''" "sample_url ''a''" 1]
  by (simp add: Let_def check_fails_def trailing_def numeral_3_eq_3)

lemma HealthCheck_targets:
  "po_targets (HealthCheck ticks path p) = map (fold (\<lambda>get. check_target get path) ticks) (po_targets p)"
  unfolding HealthCheck_def
  by (induction ticks arbitrary: p) (simp_all add: checkAll_def comp_def)

end
