(* ===== verification/Gateway.thy ===== *)
theory Gateway
  imports Router Policy PluginChain Upstream
begin

text \<open>
  \<^verbatim>\<open>internal/gateway/gateway.go\<close>: the reverse proxy in Go. Every request runs through the plugin
  chain, then, unless it asks for the health or metrics page, through the policy engine and the
  router. The URL parser, the proxy of the library, the listener and the regexp library are
  arguments. The serving goroutine only writes to the log.
\<close>

section \<open>State\<close>

record gateway_env =
  gx_upper :: "nat \<Rightarrow> nat"
  gx_regexp :: "string \<Rightarrow> (string \<Rightarrow> bool) option"
  gx_parse_url :: "string \<Rightarrow> string + url"
  gx_proxy :: "url \<Rightarrow> http_request \<Rightarrow> response \<Rightarrow> response"
  gx_listen :: "string \<Rightarrow> string option"
  gx_shutdown :: "string option"

record gw_server =
  gs_addr :: string
  gs_read_timeout :: int
  gs_write_timeout :: int
  gs_idle_timeout :: int
  gs_max_header_bytes :: int
  gs_tls12 :: bool

record 'w gateway =
  gt_cfg :: Config
  gt_server :: "gw_server option"
  gt_routes :: "gw_route list"
  gt_chain :: "'w chain"
  gt_engine :: "plugin_ctx rule_engine"
  gt_running :: bool
  gt_world :: 'w

definition gateway_new :: "Config \<Rightarrow> plugin_ctx rule_engine \<Rightarrow> 'w chain \<Rightarrow> 'w \<Rightarrow> 'w gateway" where
  "gateway_new cfg eval chain world =
     \<lparr>gt_cfg = cfg, gt_server = None, gt_routes = NewRouter, gt_chain = chain, gt_engine = eval, gt_running = False,
      gt_world = world\<rparr>"

section \<open>Start and stop\<close>

datatype gateway_error = AlreadyRunning | AddingRoute string route_error | ListeningOn string string

definition server_of :: "Config \<Rightarrow> gw_server" where
  "server_of cfg =
     \<lparr>gs_addr = cf_listen cfg, gs_read_timeout = gw_read_timeout (cf_gateway cfg) * 10 ^ 9,
      gs_write_timeout = gw_write_timeout (cf_gateway cfg) * 10 ^ 9,
      gs_idle_timeout = gw_idle_timeout (cf_gateway cfg) * 10 ^ 9, gs_max_header_bytes = 2 ^ 20,
      gs_tls12 = nx_enable_http2 (cf_nginx cfg)\<rparr>"

definition gateway_start :: "gateway_env \<Rightarrow> 'w gateway \<Rightarrow> gateway_error option \<times> 'w gateway" where
  "gateway_start env g =
     (if gt_running g then (Some AlreadyRunning, g)
      else case add_routes (gx_upper env) (gx_regexp env) (cf_routes (gt_cfg g)) (gt_routes g) of
        (Some (name, e), rs) \<Rightarrow> (Some (AddingRoute name e), g\<lparr>gt_routes := rs\<rparr>)
      | (None, rs) \<Rightarrow>
          let g = g\<lparr>gt_routes := rs, gt_server := Some (server_of (gt_cfg g))\<rparr>
          in case gx_listen env (cf_listen (gt_cfg g)) of
               Some e \<Rightarrow> (Some (ListeningOn (cf_listen (gt_cfg g)) e), g)
             | None \<Rightarrow> (None, g\<lparr>gt_running := True\<rparr>))"

definition gateway_stop :: "gateway_env \<Rightarrow> 'w gateway \<Rightarrow> string option \<times> 'w gateway" where
  "gateway_stop env g = (if \<not> gt_running g then (None, g) else (gx_shutdown env, g\<lparr>gt_running := False\<rparr>))"

section \<open>Requests\<close>

definition gateway_request :: "http_request \<Rightarrow> request" where
  "gateway_request r =
     \<lparr>Method = rq_method r, Host = rq_host r, Path = rq_path r, Query = [], Headers = rq_headers r, Body = [],
      RemoteIP = rq_remote_addr r\<rparr>"

definition denied :: "result \<Rightarrow> bool" where
  "denied res = (res_action res = ActionDeny \<or> res_action res = ActionBlock)"

definition policy_text :: string where
  "policy_text =
     ''{'' @ [CHR 0x22] @ ''error'' @ [CHR 0x22] @ '':'' @ [CHR 0x22] @ ''blocked by WAF policy'' @ [CHR 0x22] @ ''}''"

text \<open>A handler returns the requests that it handed to the proxy.\<close>

definition handleRequest ::
    "gateway_env \<Rightarrow> plugin_ctx \<Rightarrow> http_request \<Rightarrow> response \<Rightarrow> 'w gateway \<Rightarrow> response \<times> (url \<times> http_request) list" where
  "handleRequest env ctx r w g =
     (let found = Router.Match (gx_upper env) (gt_routes g) (rq_host r, rq_path r, rq_method r);
          result = Evaluate (gt_engine g) ctx PhaseRequest (gateway_request r)
      in if denied result then (write_piece (Raw policy_text) (write_header 403 w), [])
         else case found of
           None \<Rightarrow> (http_not_found w, [])
         | Some (route, params) \<Rightarrow>
            (case gx_parse_url env (gr_upstream route) of
               Inl err \<Rightarrow> (http_error ''internal error'' 500 w, [])
             | Inr target \<Rightarrow>
                 let r = r\<lparr>rq_path := (case map_of params ''path'' of None \<Rightarrow> [] | Some p \<Rightarrow> p)\<rparr>
                 in (gx_proxy env target r w, [(target, r)])))"

definition handleHealth :: "response \<Rightarrow> response" where
  "handleHealth w =
     write_piece (Raw (''{'' @ [CHR 0x22] @ ''status'' @ [CHR 0x22] @ '':'' @ [CHR 0x22] @ ''ok'' @ [CHR 0x22] @ ''}''))
       (write_header 200 w)"

definition handleMetrics :: "response \<Rightarrow> response" where
  "handleMetrics w =
     write_piece (Raw (''# waffynx metrics'' @ [CHR 0x0A])) (set_header ''Content-Type'' ''text/plain'' w)"

definition gateway_mux ::
    "gateway_env \<Rightarrow> plugin_ctx \<Rightarrow> http_request \<Rightarrow> response \<Rightarrow> 'w gateway \<Rightarrow> response \<times> (url \<times> http_request) list" where
  "gateway_mux env ctx r w g =
     (if rq_path r = ''/health'' then (handleHealth w, [])
      else if rq_path r = ''/metrics'' then (handleMetrics w, [])
      else handleRequest env ctx r w g)"

text \<open>The server's handler: the multiplexer behind the pre-request plugins.\<close>

definition wrapWithPlugins ::
    "gateway_env \<Rightarrow> http_request \<Rightarrow> response \<Rightarrow> 'w gateway \<Rightarrow> response \<times> (url \<times> http_request) list \<times> 'w gateway" where
  "wrapWithPlugins env r w g =
     (case chain_execute (gt_chain g) (NewContext w r) PhasePreRequest (gt_world g) of
        (ctx, world, Some err) \<Rightarrow> (http_error ''internal error'' 500 (cx_writer ctx), [], g\<lparr>gt_world := world\<rparr>)
      | (ctx, world, None) \<Rightarrow>
          (case gateway_mux env ctx r (cx_writer ctx) (g\<lparr>gt_world := world\<rparr>) of
             (w, fs) \<Rightarrow> (w, fs, g\<lparr>gt_world := world\<rparr>)))"

section \<open>Reachable gateways\<close>

text \<open>A gateway is started and stopped any number of times, and serves in between.\<close>

inductive gateway_reachable :: "gateway_env \<Rightarrow> Config \<Rightarrow> plugin_ctx rule_engine \<Rightarrow> 'w chain \<Rightarrow> 'w gateway \<Rightarrow> bool"
  for env :: gateway_env and cfg :: Config and eval :: "plugin_ctx rule_engine" and chain :: "'w chain" where
  New: "gateway_reachable env cfg eval chain (gateway_new cfg eval chain world)"
| Start: "gateway_reachable env cfg eval chain g \<Longrightarrow> env' = env\<lparr>gx_listen := listen\<rparr> \<Longrightarrow>
    gateway_reachable env cfg eval chain (snd (gateway_start env' g))"
| Stop: "gateway_reachable env cfg eval chain g \<Longrightarrow> gateway_reachable env cfg eval chain (snd (gateway_stop env g))"
| Serve: "gateway_reachable env cfg eval chain g \<Longrightarrow> gt_running g \<Longrightarrow>
    gateway_reachable env cfg eval chain (snd (snd (wrapWithPlugins env r w g)))"

inductive_cases reachable_elims: "gateway_reachable env cfg eval chain g"

lemma add_routes_append:
  "add_routes uu regexp cs (rs @ us) = map_prod id ((@) rs) (add_routes uu regexp cs us)"
proof (induction cs arbitrary: us)
  case (Cons c cs)
  have "AddRoute uu regexp c (rs @ us) = map_sum id ((@) rs) (AddRoute uu regexp c us)"
    by (simp add: AddRoute_def split: option.split)
  with Cons show ?case by (auto split: sum.split)
qed simp

text \<open>
  Starting again adds the configured routes once more, which changes no answer. Routes that
  cannot all be added keep the gateway from ever running.
\<close>

definition gateway_ok :: "gateway_env \<Rightarrow> Config \<Rightarrow> plugin_ctx rule_engine \<Rightarrow> 'w chain \<Rightarrow> 'w gateway \<Rightarrow> bool" where
  "gateway_ok env cfg eval chain g \<longleftrightarrow>
     gt_cfg g = cfg \<and> gt_engine g = eval \<and> gt_chain g = chain \<and>
     (case add_routes (gx_upper env) (gx_regexp env) (cf_routes cfg) NewRouter of
        (None, rs) \<Rightarrow> \<exists>n. gt_routes g = concat (replicate n rs) \<and> (gt_running g \<longrightarrow> 0 < n)
      | (Some _, _) \<Rightarrow> \<not> gt_running g)"

lemma gateway_start_ok:
  assumes "gateway_ok env cfg eval chain g"
  shows "gateway_ok env cfg eval chain (snd (gateway_start (env\<lparr>gx_listen := listen\<rparr>) g))"
proof -
  obtain err rs where a: "add_routes (gx_upper env) (gx_regexp env) (cf_routes cfg) NewRouter = (err, rs)"
    by (cases "add_routes (gx_upper env) (gx_regexp env) (cf_routes cfg) NewRouter")
  have more: "add_routes (gx_upper env) (gx_regexp env) (cf_routes cfg) (gt_routes g) = (err, gt_routes g @ rs)"
    using add_routes_append[of "gx_upper env" "gx_regexp env" "cf_routes cfg" "gt_routes g" "[]"] a
    by (simp add: NewRouter_def)
  show ?thesis
  proof (cases err)
    case None
    then obtain n where n: "gt_routes g = concat (replicate n rs)" using assms a by (auto simp: gateway_ok_def)
    have "concat (replicate n rs) @ rs = concat (replicate (Suc n) rs)"
      by (metis append.right_neutral concat.simps concat_append replicate_append_same replicate_Suc)
    then have "\<exists>m. gt_routes g @ rs = concat (replicate m rs) \<and> 0 < m" using n by (metis zero_less_Suc)
    then show ?thesis using assms a more None
      by (auto simp: gateway_ok_def gateway_start_def Let_def split: option.split)
  next
    case (Some e)
    then show ?thesis using assms a more
      by (auto simp: gateway_ok_def gateway_start_def split: prod.split)
  qed
qed

lemma serve_keeps:
  "snd (snd (wrapWithPlugins env r w g)) = g\<lparr>gt_world := fst (snd (chain_execute (gt_chain g) (NewContext w r) PhasePreRequest (gt_world g)))\<rparr>"
  by (auto simp: wrapWithPlugins_def split: prod.split option.split)

lemma reachable_ok: "gateway_reachable env cfg eval chain g \<Longrightarrow> gateway_ok env cfg eval chain g"
proof (induction rule: gateway_reachable.induct)
  case (New world)
  show ?case by (auto simp: gateway_ok_def gateway_new_def NewRouter_def intro!: exI[of _ 0] split: prod.split option.split)
next
  case (Start g env' listen)
  then show ?case using gateway_start_ok by simp
next
  case (Stop g)
  then show ?case by (auto simp: gateway_ok_def gateway_stop_def split: prod.splits option.splits)
next
  case (Serve g r w)
  then show ?case by (simp add: serve_keeps gateway_ok_def split: prod.splits option.splits)
qed

text \<open>More copies of the routes answer alike.\<close>

lemma Match_copies:
  assumes "0 < n"
  shows "Router.Match uu (concat (replicate n rs)) (h, p, m) = Router.Match uu rs (h, p, m)"
proof -
  have "find P (concat (replicate n rs)) = (if n = 0 then None else find P rs)" for P :: "gw_route \<Rightarrow> bool"
    by (induction n) (auto simp: find_append split: option.split)
  with assms show ?thesis by (simp add: Match_params routes.eval_find)
qed

lemma running_routes:
  assumes "gateway_reachable env cfg eval chain g" "gt_running g"
  obtains rs where "add_routes (gx_upper env) (gx_regexp env) (cf_routes cfg) NewRouter = (None, rs)"
    "\<And>q. Router.Match (gx_upper env) (gt_routes g) q = Router.Match (gx_upper env) rs q"
    "gt_chain g = chain" "gt_engine g = eval"
  using reachable_ok[OF assms(1)] assms(2) Match_copies that
  by (auto simp: gateway_ok_def split: prod.splits option.splits)


text \<open>A plugin that has answered already is followed by the text of the error, in the same body.\<close>

lemma plugin_denial_appended:
  assumes "chain_execute (gt_chain g) (NewContext w r) PhasePreRequest (gt_world g) = (ctx, world, Some err)"
    "rs_status (cx_writer ctx) = Some 403"
  shows "sent_status (fst (wrapWithPlugins env r w g)) = 403 \<and>
     rs_body (fst (wrapWithPlugins env r w g)) = rs_body (cx_writer ctx) @ [Raw (''internal error'' @ [CHR 0x0A])]"
  using assms by (simp add: wrapWithPlugins_def http_error_def write_piece_def write_header_def set_header_def sent_status_def Let_def)

section \<open>An example\<close>

definition sample_gateway_env :: gateway_env where
  "sample_gateway_env =
     \<lparr>gx_upper = id, gx_regexp = no_regexp,
      gx_parse_url = (\<lambda>s. Inr \<lparr>url_scheme = ''http'', url_host = drop 7 s, url_string = s\<rparr>),
      gx_proxy = (\<lambda>u r w. write_header 200 w), gx_listen = (\<lambda>_. None), gx_shutdown = None\<rparr>"

definition sample_gateway_cfg :: Config where
  "sample_gateway_cfg = defaultConfig\<lparr>cf_routes := sample_routes\<rparr>"

definition image_request :: http_request where
  "image_request =
     \<lparr>rq_method = ''GET'', rq_path = ''/static/a.png'', rq_query = [], rq_host = ''img.example.com'', rq_headers = Map.empty,
      rq_remote_addr = ''10.0.0.9:4711'', rq_content_length = 0, rq_body = []\<rparr>"


end
