(* ===== verification/Tls.thy ===== *)
theory Tls
  imports Config "HOL-Library.AList"
begin

text \<open>
  \<^verbatim>\<open>internal/tls/tls.go\<close>: the certificate manager. Key pairs, PEM pools, directories and the
  certificate authority client belong to libraries; their certificates and pools are the types
  \<^verbatim>\<open>'c\<close> and \<^verbatim>\<open>'p\<close>, their outcomes the environment. A walk over the map of certificates takes
  them in the order in which their names were first loaded.
\<close>

section \<open>State\<close>

record acme_config =
  ax_enabled :: bool
  ax_domains :: "string list"
  ax_email :: string
  ax_cache_dir :: string
  ax_staging :: bool

record acme_manager =
  am_cache :: string
  am_hosts :: "string list"
  am_email :: string
  am_directory :: string

record ('c, 'p) tls_manager =
  tm_certificates :: "(string \<times> 'c) list"
  tm_client_cas :: "'p option"
  tm_auto_cert :: bool
  tm_acme :: "acme_manager option"

record ('c, 'p) tls_env =
  tx_mkdir :: "string \<Rightarrow> nat \<Rightarrow> string option"
  tx_load_pair :: "string \<Rightarrow> string \<Rightarrow> string + 'c"
  tx_read_file :: "string \<Rightarrow> string + string"
  tx_parse_pool :: "string \<Rightarrow> 'p option"
  tx_acme_get :: "acme_manager \<Rightarrow> string \<Rightarrow> string + 'c"

definition NewManager :: "('c, 'p) tls_manager" where
  "NewManager = \<lparr>tm_certificates = [], tm_client_cas = None, tm_auto_cert = False, tm_acme = None\<rparr>"

section \<open>Operations\<close>

definition cache_dir :: "acme_config \<Rightarrow> string" where
  "cache_dir cfg = (if ax_cache_dir cfg = [] then ''/opt/waffynx/certs/acme-cache'' else ax_cache_dir cfg)"

definition acme_directory :: "acme_config \<Rightarrow> string" where
  "acme_directory cfg =
     (if ax_staging cfg then ''https://acme-staging-v02.api.letsencrypt.org/directory''
      else ''https://acme-v02.api.letsencrypt.org/directory'')"

definition EnableACME :: "('c, 'p) tls_env \<Rightarrow> acme_config \<Rightarrow> ('c, 'p) tls_manager \<Rightarrow> string option \<times> ('c, 'p) tls_manager" where
  "EnableACME env cfg m =
     (if \<not> ax_enabled cfg \<or> ax_domains cfg = [] then (None, m)
      else case tx_mkdir env (cache_dir cfg) 448 of
        Some err \<Rightarrow> (Some (''creating ACME cache dir: '' @ err), m)
      | None \<Rightarrow>
          (None, m\<lparr>tm_acme := Some \<lparr>am_cache = cache_dir cfg, am_hosts = ax_domains cfg, am_email = ax_email cfg,
                     am_directory = acme_directory cfg\<rparr>,
                   tm_auto_cert := True\<rparr>))"

definition LoadCertificate ::
    "('c, 'p) tls_env \<Rightarrow> string \<Rightarrow> string \<Rightarrow> string \<Rightarrow> ('c, 'p) tls_manager \<Rightarrow> string option \<times> ('c, 'p) tls_manager" where
  "LoadCertificate env name certFile keyFile m =
     (case tx_load_pair env certFile keyFile of
        Inl err \<Rightarrow> (Some (''loading key pair for '' @ name @ '': '' @ err), m)
      | Inr cert \<Rightarrow> (None, m\<lparr>tm_certificates := AList.update name cert (tm_certificates m)\<rparr>))"

definition LoadClientCA :: "('c, 'p) tls_env \<Rightarrow> string \<Rightarrow> ('c, 'p) tls_manager \<Rightarrow> string option \<times> ('c, 'p) tls_manager" where
  "LoadClientCA env caFile m =
     (case tx_read_file env caFile of
        Inl err \<Rightarrow> (Some (''reading CA file: '' @ err), m)
      | Inr caCert \<Rightarrow>
         (case tx_parse_pool env caCert of
            None \<Rightarrow> (Some ''failed to parse CA certificate'', m)
          | Some pool \<Rightarrow> (None, m\<lparr>tm_client_cas := Some pool\<rparr>)))"

definition GetCertificate :: "('c, 'p) tls_env \<Rightarrow> string \<Rightarrow> ('c, 'p) tls_manager \<Rightarrow> string + 'c" where
  "GetCertificate env serverName m =
     (case (case tm_acme m of
              Some a \<Rightarrow> if tm_auto_cert m then tx_acme_get env a serverName else Inl []
            | None \<Rightarrow> Inl []) of
        Inr cert \<Rightarrow> Inr cert
      | Inl _ \<Rightarrow>
         (case map_of (tm_certificates m) serverName of
            Some cert \<Rightarrow> Inr cert
          | None \<Rightarrow>
             (case tm_certificates m of
                (_, cert) # _ \<Rightarrow> Inr cert
              | [] \<Rightarrow> Inl (''no certificate for '' @ serverName))))"

text \<open>The configuration of a listener; its certificate callback is \<^const>\<open>GetCertificate\<close>.\<close>

datatype client_auth = NoClientCert | RequireAndVerifyClientCert

record 'p tls_config =
  tc_min_version :: nat
  tc_client_cas :: "'p option"
  tc_client_auth :: client_auth

definition VersionTLS12 :: nat where "VersionTLS12 = 771"

definition TLSConfig :: "('c, 'p) tls_manager \<Rightarrow> 'p tls_config" where
  "TLSConfig m =
     (case tm_client_cas m of
        None \<Rightarrow> \<lparr>tc_min_version = VersionTLS12, tc_client_cas = None, tc_client_auth = NoClientCert\<rparr>
      | Some pool \<Rightarrow>
          \<lparr>tc_min_version = VersionTLS12, tc_client_cas = Some pool, tc_client_auth = RequireAndVerifyClientCert\<rparr>)"

section \<open>What a handshake gets\<close>

datatype tls_op = OpLoad string string string | OpClientCA string | OpACME acme_config

fun tls_step :: "('c, 'p) tls_env \<Rightarrow> tls_op \<Rightarrow> ('c, 'p) tls_manager \<Rightarrow> ('c, 'p) tls_manager" where
  "tls_step env (OpLoad name certFile keyFile) m = snd (LoadCertificate env name certFile keyFile m)"
| "tls_step env (OpClientCA caFile) m = snd (LoadClientCA env caFile m)"
| "tls_step env (OpACME cfg) m = snd (EnableACME env cfg m)"

text \<open>The specification: the pairs that loaded, by name, and the pools that parsed, in order.\<close>

fun pair_of :: "('c, 'p) tls_env \<Rightarrow> tls_op \<Rightarrow> (string \<times> 'c) option" where
  "pair_of env (OpLoad name certFile keyFile) =
     (case tx_load_pair env certFile keyFile of Inl _ \<Rightarrow> None | Inr c \<Rightarrow> Some (name, c))"
| "pair_of env _ = None"

fun pool_of :: "('c, 'p) tls_env \<Rightarrow> tls_op \<Rightarrow> 'p option" where
  "pool_of env (OpClientCA caFile) =
     (case tx_read_file env caFile of Inl _ \<Rightarrow> None | Inr t \<Rightarrow> tx_parse_pool env t)"
| "pool_of env _ = None"

definition pairs :: "('c, 'p) tls_env \<Rightarrow> tls_op list \<Rightarrow> (string \<times> 'c) list" where
  "pairs env xs = List.map_filter (pair_of env) xs"

definition pools :: "('c, 'p) tls_env \<Rightarrow> tls_op list \<Rightarrow> 'p list" where
  "pools env xs = List.map_filter (pool_of env) xs"

lemma step_certificates:
  "tm_certificates (tls_step env x m) =
     (case pair_of env x of None \<Rightarrow> tm_certificates m | Some (n, c) \<Rightarrow> AList.update n c (tm_certificates m))"
  by (cases x) (auto simp: LoadCertificate_def LoadClientCA_def EnableACME_def split: sum.split option.split)

lemma step_pools:
  "tm_client_cas (tls_step env x m) = (case pool_of env x of None \<Rightarrow> tm_client_cas m | Some p \<Rightarrow> Some p)"
  by (cases x) (auto simp: LoadCertificate_def LoadClientCA_def EnableACME_def split: sum.split option.split)

lemma run_certificates:
  "map_of (tm_certificates (fold (tls_step env) xs m)) = map_of (tm_certificates m) ++ map_of (rev (pairs env xs))"
  by (induction xs arbitrary: m)
    (auto simp: pairs_def map_filter_simps step_certificates update_conv' map_add_def fun_eq_iff split: option.split prod.split)

lemma run_pools:
  "tm_client_cas (fold (tls_step env) xs m) =
     (if pools env xs = [] then tm_client_cas m else Some (List.last (pools env xs)))"
  by (induction xs arbitrary: m) (auto simp: pools_def map_filter_simps step_pools split: option.split)

lemma set_alist_update: "set (AList.update k v xs) \<subseteq> insert (k, v) (set xs)"
  by (induction xs) auto

lemma run_values:
  "set (tm_certificates (fold (tls_step env) xs m)) \<subseteq> set (tm_certificates m) \<union> set (pairs env xs)"
proof (induction xs arbitrary: m)
  case (Cons x xs)
  have "set (tm_certificates (tls_step env x m)) \<subseteq> set (tm_certificates m) \<union> set (pairs env [x])"
    by (auto simp: step_certificates pairs_def map_filter_simps split: option.split dest!: set_alist_update[THEN subsetD])
  then show ?case using Cons.IH[of "tls_step env x m"] by (auto simp: pairs_def map_filter_simps split: option.splits)
qed (simp add: pairs_def map_filter_simps)


end
