(* ===== verification/GoBase64.thy ===== *)
theory GoBase64
  imports GoStrings
begin

text \<open>
  \<^verbatim>\<open>base64.StdEncoding\<close>, in which the JSON encoder writes a byte slice: padded groups of four
  characters; the decoder skips line ends and ignores left-over bits.
\<close>

definition b64_alphabet :: string where
  "b64_alphabet = ''ABCDEFGHIJKLMNOPQRSTUVWXYZabcdefghijklmnopqrstuvwxyz0123456789+/''"

definition b64_char :: "nat \<Rightarrow> char" where "b64_char n = b64_alphabet ! n"

definition b64_value :: "char \<Rightarrow> nat option" where "b64_value c = index_byte b64_alphabet c"

fun b64_encode :: "string \<Rightarrow> string" where
  "b64_encode [] = []"
| "b64_encode [x] = [b64_char (byte x div 4), b64_char (byte x mod 4 * 16), CHR ''='', CHR ''='']"
| "b64_encode [x, y] =
     [b64_char (byte x div 4), b64_char (byte x mod 4 * 16 + byte y div 16), b64_char (byte y mod 16 * 4), CHR ''='']"
| "b64_encode (x # y # z # s) =
     b64_char (byte x div 4) # b64_char (byte x mod 4 * 16 + byte y div 16) #
     b64_char (byte y mod 16 * 4 + byte z div 64) # b64_char (byte z mod 64) # b64_encode s"

definition b64_byte1 :: "nat \<Rightarrow> nat \<Rightarrow> char" where "b64_byte1 i j = char_of (i * 4 + j div 16)"
definition b64_byte2 :: "nat \<Rightarrow> nat \<Rightarrow> char" where "b64_byte2 j k = char_of (j mod 16 * 16 + k div 4)"
definition b64_byte3 :: "nat \<Rightarrow> nat \<Rightarrow> char" where "b64_byte3 k l = char_of (k mod 4 * 64 + l)"

fun b64_groups :: "string \<Rightarrow> string option" where
  "b64_groups [] = Some []"
| "b64_groups (a # b # c # d # s) =
     (case (b64_value a, b64_value b) of
        (Some i, Some j) \<Rightarrow>
          if c = CHR ''='' \<and> d = CHR ''='' \<and> s = [] then Some [b64_byte1 i j]
          else (case b64_value c of
                  None \<Rightarrow> None
                | Some k \<Rightarrow>
                    if d = CHR ''='' \<and> s = [] then Some [b64_byte1 i j, b64_byte2 j k]
                    else (case b64_value d of
                            None \<Rightarrow> None
                          | Some l \<Rightarrow> map_option (\<lambda>t. b64_byte1 i j # b64_byte2 j k # b64_byte3 k l # t) (b64_groups s)))
      | _ \<Rightarrow> None)"
| "b64_groups _ = None"

definition b64_decode :: "string \<Rightarrow> string option" where
  "b64_decode s = b64_groups (filter (\<lambda>c. c \<noteq> CHR 0x0A \<and> c \<noteq> CHR 0x0D) s)"

lemma b64_table:
  "n < 64 \<Longrightarrow> b64_value (b64_char n) = Some n \<and> byte (b64_char n) < 128 \<and> b64_char n \<noteq> CHR ''='' \<and>
     b64_char n \<noteq> CHR 0x0A \<and> b64_char n \<noteq> CHR 0x0D"
proof -
  have "list_all (\<lambda>n. b64_value (b64_char n) = Some n \<and> byte (b64_char n) < 128 \<and> b64_char n \<noteq> CHR ''='' \<and>
      b64_char n \<noteq> CHR 0x0A \<and> b64_char n \<noteq> CHR 0x0D) [0..<64]"
    by code_simp
  then show "n < 64 \<Longrightarrow> ?thesis" by (simp add: list_all_iff)
qed

lemma b64_indices:
  "byte x div 4 < (64 :: nat)" "byte x mod 4 * 16 < (64 :: nat)" "byte x mod 4 * 16 + byte y div 16 < (64 :: nat)"
  "byte y mod 16 * 4 < (64 :: nat)" "byte y mod 16 * 4 + byte z div 64 < (64 :: nat)" "byte z mod 64 < (64 :: nat)"
proof -
  have b: "byte c < (256 :: nat)" for c by simp
  have d: "byte y div 16 < (16 :: nat)" "byte z div 64 < (4 :: nat)" using b[of y] b[of z] by linarith+
  show "byte x div 4 < (64 :: nat)" using b[of x] by linarith
  show "byte x mod 4 * 16 + byte y div 16 < (64 :: nat)" "byte x mod 4 * 16 < (64 :: nat)"
    using d mod_less_divisor[of 4 "byte x :: nat"] by linarith+
  show "byte y mod 16 * 4 + byte z div 64 < (64 :: nat)" "byte y mod 16 * 4 < (64 :: nat)"
    using d mod_less_divisor[of 16 "byte y :: nat"] by linarith+
qed simp

lemma b64_bytes:
  "b64_byte1 (byte x div 4) (byte x mod 4 * 16) = x"
  "b64_byte1 (byte x div 4) (byte x mod 4 * 16 + byte y div 16) = x"
  "b64_byte2 (byte x mod 4 * 16 + byte y div 16) (byte y mod 16 * 4) = y"
  "b64_byte2 (byte x mod 4 * 16 + byte y div 16) (byte y mod 16 * 4 + byte z div 64) = y"
  "b64_byte3 (byte y mod 16 * 4 + byte z div 64) (byte z mod 64) = z"
proof -
  have d: "byte y div 16 < (16 :: nat)" "byte z div 64 < (4 :: nat)"
  proof -
    have "byte y < (256 :: nat)" "byte z < (256 :: nat)" by simp_all
    then show "byte y div 16 < (16 :: nat)" "byte z div 64 < (4 :: nat)" by linarith+
  qed
  have e: "byte x div 4 * 4 + (byte x mod 4 * 16) div 16 = (byte x :: nat)"
    "byte x div 4 * 4 + (byte x mod 4 * 16 + byte y div 16) div 16 = (byte x :: nat)"
    "(byte x mod 4 * 16 + byte y div 16) mod 16 * 16 + (byte y mod 16 * 4) div 4 = (byte y :: nat)"
    "(byte x mod 4 * 16 + byte y div 16) mod 16 * 16 + (byte y mod 16 * 4 + byte z div 64) div 4 = (byte y :: nat)"
    "(byte y mod 16 * 4 + byte z div 64) mod 4 * 64 + byte z mod 64 = (byte z :: nat)"
    using d by simp_all
  show "b64_byte1 (byte x div 4) (byte x mod 4 * 16) = x"
    "b64_byte1 (byte x div 4) (byte x mod 4 * 16 + byte y div 16) = x"
    "b64_byte2 (byte x mod 4 * 16 + byte y div 16) (byte y mod 16 * 4) = y"
    "b64_byte2 (byte x mod 4 * 16 + byte y div 16) (byte y mod 16 * 4 + byte z div 64) = y"
    "b64_byte3 (byte y mod 16 * 4 + byte z div 64) (byte z mod 64) = z"
    unfolding b64_byte1_def b64_byte2_def b64_byte3_def e by simp_all
qed

lemma b64_encode_chars: "list_all (\<lambda>c. byte c < (128 :: nat) \<and> c \<noteq> CHR 0x0A \<and> c \<noteq> CHR 0x0D) (b64_encode s)"
  by (induction s rule: b64_encode.induct) (simp_all add: b64_table b64_indices)

lemma b64_groups_encode: "b64_groups (b64_encode s) = Some s"
  by (induction s rule: b64_encode.induct) (simp_all add: b64_table b64_indices b64_bytes)

theorem b64_round_trip: "b64_decode (b64_encode s) = Some s" "ascii (b64_encode s)"
proof -
  have "filter (\<lambda>c. c \<noteq> CHR 0x0A \<and> c \<noteq> CHR 0x0D) (b64_encode s) = b64_encode s"
    using b64_encode_chars[of s] by (simp add: filter_id_conv list_all_iff)
  then show "b64_decode (b64_encode s) = Some s" by (simp add: b64_decode_def b64_groups_encode)
  show "ascii (b64_encode s)" using b64_encode_chars[of s] by (simp add: ascii_def list_all_iff)
qed

end
