(* ===== verification/BridgeDaemon.thy ===== *)
theory BridgeDaemon
  imports GoBase64 GoJsonRead EngineRun
begin

text \<open>
  \<^verbatim>\<open>cmd/appsec-bridge\<close>: the daemon that answers the bridge client of \<^verbatim>\<open>internal/appsec/bridge.go\<close>
  with the scorer written in Go, and the JSON that the two exchange. The text of floating-point
  numbers and of decoding errors is an argument.
\<close>

section \<open>The request\<close>

text \<open>
  \<^verbatim>\<open>json.Marshal(features)\<close>: the struct has no tags, so its members have the names of the fields;
  the body is base64, the map of parameters is written by key.
\<close>

definition feature_members :: "features \<Rightarrow> (string \<times> string) list" where
  "feature_members f =
     [(''Method'', json_string (ft_method f)), (''URI'', json_string (ft_uri f)), (''Host'', json_string (ft_host f)),
      (''ClientIP'', json_string (ft_client_ip f)), (''UserAgent'', json_string (ft_user_agent f)),
      (''ContentType'', json_string (ft_content_type f)), (''Referer'', json_string (ft_referer f)),
      (''Body'', json_string (b64_encode (ft_body f))), (''HeadersCount'', itoa (ft_headers_count f)),
      (''URILength'', itoa (ft_uri_length f)),
      (''QueryParams'', json_object (string_members (sort_key fst (ft_query_params f)))),
      (''HasPayload'', if ft_has_payload f then ''true'' else ''false''), (''PayloadSize'', itoa (ft_payload_size f))]"

definition features_text :: "features \<Rightarrow> string" where
  "features_text f = json_object (feature_members f)"

text \<open>Decoding into \<^verbatim>\<open>[]byte\<close> and \<^verbatim>\<open>map[string]string\<close>; \<^verbatim>\<open>None\<close> is a nil map.\<close>

fun byte_items :: "dyn list \<Rightarrow> string option" where
  "byte_items [] = Some []"
| "byte_items (DInt n # vs) = (if 0 \<le> n \<and> n < 256 then map_option ((#) (char_of (nat n))) (byte_items vs) else None)"
| "byte_items (DNull # vs) = map_option ((#) (CHR 0x00)) (byte_items vs)"
| "byte_items (_ # vs) = None"

fun conv_bytes :: "dyn \<Rightarrow> string \<Rightarrow> string option" where
  "conv_bytes (DStr s) _ = b64_decode s"
| "conv_bytes (DList vs) _ = byte_items vs"
| "conv_bytes DNull _ = Some []"
| "conv_bytes _ _ = None"

fun string_entries :: "(string \<times> dyn) list \<Rightarrow> (string \<times> string) list option" where
  "string_entries [] = Some []"
| "string_entries ((k, DStr s) # ps) = map_option ((#) (k, s)) (string_entries ps)"
| "string_entries ((k, DNull) # ps) = map_option ((#) (k, [])) (string_entries ps)"
| "string_entries (_ # ps) = None"

fun conv_string_map :: "dyn \<Rightarrow> (string \<times> string) list option \<Rightarrow> (string \<times> string) list option option" where
  "conv_string_map (DMap ps) m =
     map_option (\<lambda>kvs. Some (fold (\<lambda>(k, v). AList.update k v) kvs (case m of None \<Rightarrow> [] | Some m \<Rightarrow> m))) (string_entries ps)"
| "conv_string_map DNull _ = Some None"
| "conv_string_map _ _ = None"

definition zero_features :: features where
  "zero_features =
     \<lparr>ft_method = [], ft_uri = [], ft_host = [], ft_client_ip = [], ft_user_agent = [], ft_content_type = [],
      ft_referer = [], ft_body = [], ft_headers_count = 0, ft_uri_length = 0, ft_query_params = [],
      ft_has_payload = False, ft_payload_size = 0\<rparr>"

text \<open>The decoded struct, its parameters apart.\<close>

fun decode_features :: "dyn \<Rightarrow> (features \<times> (string \<times> string) list option) option" where
  "decode_features (DMap ps) =
     (let (m, g1) = field conv_string ''Method'' [] ps;
          (u, g2) = field conv_string ''URI'' [] ps;
          (h, g3) = field conv_string ''Host'' [] ps;
          (ip, g4) = field conv_string ''ClientIP'' [] ps;
          (ua, g5) = field conv_string ''UserAgent'' [] ps;
          (ct, g6) = field conv_string ''ContentType'' [] ps;
          (rf, g7) = field conv_string ''Referer'' [] ps;
          (b, g8) = field conv_bytes ''Body'' [] ps;
          (hc, g9) = field conv_int ''HeadersCount'' 0 ps;
          (ul, g10) = field conv_int ''URILength'' 0 ps;
          (qp, g11) = field conv_string_map ''QueryParams'' None ps;
          (hp, g12) = field conv_bool ''HasPayload'' False ps;
          (sz, g13) = field conv_int ''PayloadSize'' 0 ps
      in if list_all id [g1, g2, g3, g4, g5, g6, g7, g8, g9, g10, g11, g12, g13]
         then Some (\<lparr>ft_method = m, ft_uri = u, ft_host = h, ft_client_ip = ip, ft_user_agent = ua, ft_content_type = ct,
                     ft_referer = rf, ft_body = b, ft_headers_count = hc, ft_uri_length = ul, ft_query_params = [],
                     ft_has_payload = hp, ft_payload_size = sz\<rparr>, qp)
         else None)"
| "decode_features DNull = Some (zero_features, None)"
| "decode_features _ = None"

section \<open>The daemon\<close>

record daemon_env =
  de_scoring :: sidecar_env
  de_float_text :: "float64 \<Rightarrow> string"
  de_json_error :: "string \<Rightarrow> string"

definition strings_text :: "string list \<Rightarrow> string" where
  "strings_text ss = (if ss = [] then ''null'' else json_list (map json_string ss))"

definition result_members :: "(float64 \<Rightarrow> string) \<Rightarrow> scorer_result \<Rightarrow> (string \<times> string) list" where
  "result_members fn r =
     [(''verdict'', json_string (sr_verdict r)), (''score'', fn (sr_score r)), (''confidence'', fn (sr_confidence r)),
      (''reasons'', strings_text (sr_reasons r)), (''anomalies'', strings_text (sr_anomalies r)),
      (''model_name'', json_string (sr_model r))]"

definition result_text :: "(float64 \<Rightarrow> string) \<Rightarrow> scorer_result \<Rightarrow> string" where
  "result_text fn r = json_object (result_members fn r)"

definition error_text :: "string \<Rightarrow> string" where
  "error_text msg = ''{'' @ [CHR 0x22] @ ''error'' @ [CHR 0x22] @ '':'' @ [CHR 0x22] @ msg @ [CHR 0x22] @ ''}''"

text \<open>The same code as in the sidecar.\<close>

definition parseQueryParams :: "string \<Rightarrow> (string \<times> string) list" where
  "parseQueryParams rawURI = Sidecar.parseQueryParams rawURI"

definition complete_features :: "features \<times> (string \<times> string) list option \<Rightarrow> features" where
  "complete_features x =
     (case x of (f, qp) \<Rightarrow>
        let f = f\<lparr>ft_query_params := (case qp of None \<Rightarrow> parseQueryParams (ft_uri f) | Some ps \<Rightarrow> ps)\<rparr>
        in if ft_uri_length f = 0 then f\<lparr>ft_uri_length := int (length (ft_uri f))\<rparr> else f)"

definition handleEvaluate :: "daemon_env \<Rightarrow> http_request \<Rightarrow> response \<Rightarrow> scorer \<Rightarrow> response \<times> scorer" where
  "handleEvaluate env r w sc =
     (if rq_method r \<noteq> ''POST'' then (http_error (error_text ''method not allowed'') 405 w, sc)
      else case decode_first decode_features (rq_body r) of
        None \<Rightarrow> (http_error (error_text (''invalid json: '' @ de_json_error env (rq_body r))) 400 w, sc)
      | Some x \<Rightarrow>
         (case scorer_evaluate (de_scoring env) (complete_features x) sc of
            (Inl err, sc) \<Rightarrow> (http_error (error_text ''internal error'') 500 w, sc)
          | (Inr res, sc) \<Rightarrow>
              (write_piece (Raw (result_text (de_float_text env) res @ [CHR 0x0A]))
                 (set_header ''Content-Type'' ''application/json'' w), sc)))"

fun scorer_name :: "scorer \<Rightarrow> string" where
  "scorer_name (ScorerBasic b) = basic_name"
| "scorer_name (ScorerBridge b) = bridge_name"
| "scorer_name ScorerStub = stub_name"

definition health_text :: "string \<Rightarrow> string" where
  "health_text name =
     (let q = [CHR 0x22] in
      ''{'' @ q @ ''status'' @ q @ '':'' @ q @ ''ok'' @ q @ '','' @ q @ ''service'' @ q @ '':'' @ q @ ''appsec-bridge'' @ q @ '','' @
      q @ ''scorer'' @ q @ '':'' @ q @ name @ q @ ''}'')"

definition daemon_serve :: "daemon_env \<Rightarrow> http_request \<Rightarrow> response \<Rightarrow> scorer \<Rightarrow> response \<times> scorer" where
  "daemon_serve env r w sc =
     (if rq_path r = ''/health''
      then (write_piece (Raw (health_text (scorer_name sc))) (set_header ''Content-Type'' ''application/json'' w), sc)
      else if rq_path r = ''/evaluate'' then handleEvaluate env r w sc
      else (http_not_found w, sc))"

text \<open>The life of the daemon until the first signal, as actions; the listener is closed on every way out.\<close>

definition daemon_run :: "sys_env \<Rightarrow> string \<Rightarrow> string option \<times> sys_action list" where
  "daemon_run os path =
     (case ox_remove os path of
        Some err \<Rightarrow> (Some (''remove old socket: '' @ err), [RemoveFile path])
      | None \<Rightarrow>
         (case ox_listen os path of
            Some err \<Rightarrow> (Some (''listen on '' @ path @ '': '' @ err), [RemoveFile path, ListenUnix path])
          | None \<Rightarrow>
             (case ox_chmod os path mode_0600 of
                Some err \<Rightarrow>
                  (Some (''chmod: '' @ err), [RemoveFile path, ListenUnix path, Chmod path mode_0600, CloseListener path])
              | None \<Rightarrow>
                  (None, [RemoveFile path, ListenUnix path, Chmod path mode_0600, ServeOn path, CloseServer,
                          RemoveFile path, CloseListener path]))))"

section \<open>The client's end\<close>

text \<open>The request that the bridge client posts, and the body that it reads.\<close>

definition bridge_request :: "features \<Rightarrow> http_request" where
  "bridge_request f =
     \<lparr>rq_method = ''POST'', rq_path = ''/evaluate'', rq_query = [], rq_host = ''unix'',
      rq_headers = header_set ''Content-Type'' ''application/json'' Map.empty, rq_remote_addr = [],
      rq_content_length = int (length (features_text f)), rq_body = features_text f\<rparr>"

fun piece_text :: "piece \<Rightarrow> string" where
  "piece_text (Raw s) = s"
| "piece_text (Json v) = []"

definition bridge_client :: "daemon_env \<Rightarrow> scorer \<Rightarrow> features \<Rightarrow> string + string" where
  "bridge_client env sc f =
     Inr (concat (map piece_text (rs_body (fst (daemon_serve env (bridge_request f) new_response sc)))))"

end
