(* ===== verification/BridgeRuns.thy ===== *)
theory BridgeRuns
  imports BridgeDaemon
begin

text \<open>
  The bridge end to end: what the daemon of \<^verbatim>\<open>cmd/appsec-bridge\<close> reads from a posted request,
  what the client reads from its answer, and that the two together are the scorer itself.
\<close>

section \<open>Reading struct members\<close>

lemma field_missing: "\<forall>p \<in> set ps. fold_name (fst p) \<noteq> fold_name n \<Longrightarrow> field conv n d ps = (d, True)"
  by (induction ps) (auto simp: field_Nil field_Cons_other)

lemma field_lookup:
  assumes "(k, v) \<in> set ps" "distinct (map (\<lambda>p. fold_name (fst p)) ps)" "fold_name k = fold_name n" "conv v d = Some y"
  shows "field conv n d ps = (y, True)"
  using assms(1,2)
proof (induction ps)
  case (Cons p ps)
  obtain k' v' where p: "p = (k', v')" by (cases p)
  show ?case
  proof (cases "p = (k, v)")
    case True
    have "field conv n y ps = (y, True)"
      by (rule field_missing) (use Cons.prems(2) True assms(3) in force)
    then show ?thesis using True assms(3,4) by (simp add: field_Cons_same)
  next
    case False
    then have i: "(k, v) \<in> set ps" using Cons.prems(1) by auto
    then have "fold_name k' \<noteq> fold_name n" using Cons.prems(2) assms(3) p by force
    then show ?thesis using Cons.IH[OF i] Cons.prems(2) p by (simp add: field_Cons_other)
  qed
qed simp

section \<open>The request arrives\<close>

definition feature_values :: "features \<Rightarrow> (string \<times> dyn) list" where
  "feature_values f =
     [(''Method'', DStr (ft_method f)), (''URI'', DStr (ft_uri f)), (''Host'', DStr (ft_host f)),
      (''ClientIP'', DStr (ft_client_ip f)), (''UserAgent'', DStr (ft_user_agent f)),
      (''ContentType'', DStr (ft_content_type f)), (''Referer'', DStr (ft_referer f)),
      (''Body'', DStr (b64_encode (ft_body f))), (''HeadersCount'', DInt (ft_headers_count f)),
      (''URILength'', DInt (ft_uri_length f)),
      (''QueryParams'', DMap (map (\<lambda>(k, v). (k, DStr v)) (sort_key fst (ft_query_params f)))),
      (''HasPayload'', DBool (ft_has_payload f)), (''PayloadSize'', DInt (ft_payload_size f))]"

text \<open>Features whose text the wire carries: ASCII but for the body, integers of Go.\<close>

definition wire_features :: "features \<Rightarrow> bool" where
  "wire_features f =
     (list_all ascii [ft_method f, ft_uri f, ft_host f, ft_client_ip f, ft_user_agent f, ft_content_type f, ft_referer f] \<and>
      list_all (\<lambda>(k, v). ascii k \<and> ascii v) (ft_query_params f) \<and> distinct (map fst (ft_query_params f)) \<and>
      list_all (\<lambda>n. - (2 ^ 63) \<le> n \<and> n < 2 ^ 63) [ft_headers_count f, ft_uri_length f, ft_payload_size f] \<and>
      ft_uri_length f = int (length (ft_uri f)))"

lemma reads_members:
  "list_all (\<lambda>(k, v). ascii k \<and> ascii v) kvs \<Longrightarrow>
   list_all2 reads_member (string_members kvs) (map (\<lambda>(k, v). (k, DStr v)) kvs)"
  by (induction kvs) (auto simp: string_members_def reads_member_def reads_string)

lemma feature_names_ascii:
  "list_all ascii [''Method'', ''URI'', ''Host'', ''ClientIP'', ''UserAgent'', ''ContentType'', ''Referer'', ''Body'',
     ''HeadersCount'', ''URILength'', ''QueryParams'', ''HasPayload'', ''PayloadSize'']"
  by code_simp

lemma feature_names_distinct: "distinct (map (\<lambda>p. fold_name (fst p)) (feature_values f))"
proof -
  have "distinct (map fold_name [''Method'', ''URI'', ''Host'', ''ClientIP'', ''UserAgent'', ''ContentType'', ''Referer'', ''Body'',
     ''HeadersCount'', ''URILength'', ''QueryParams'', ''HasPayload'', ''PayloadSize''])"
    by code_simp
  then show ?thesis by (simp add: feature_values_def del: fold_name.simps)
qed

lemma feature_members_read:
  assumes "wire_features f"
  shows "list_all2 reads_member (feature_members f) (feature_values f)"
proof -
  have p: "list_all (\<lambda>(k, v). ascii k \<and> ascii v) (sort_key fst (ft_query_params f))"
    using assms by (simp add: wire_features_def list_all_iff)
  have i: "reads (itoa n) (DInt n)" if "- (2 ^ 63) \<le> n" "n < 2 ^ 63" for n
    by (rule reads_int) (use that in linarith)
  show ?thesis
    using assms feature_names_ascii reads_object[OF reads_members[OF p]] i
    by (simp add: feature_members_def feature_values_def reads_member_def reads_string reads_words b64_round_trip wire_features_def)
qed

lemma string_entries_map: "string_entries (map (\<lambda>(k, v). (k, DStr v)) kvs) = Some kvs"
  by (induction kvs) auto

lemma updates_fresh:
  "distinct (map fst (us @ kvs)) \<Longrightarrow> fold (\<lambda>(k, v). AList.update k v) kvs us = us @ kvs"
proof (induction kvs arbitrary: us)
  case (Cons x kvs)
  have "AList.update (fst x) (snd x) us = us @ [x]"
    using Cons.prems by (induction us) auto
  with Cons show ?case by (cases x) auto
qed simp

lemma decode_feature_values:
  assumes "wire_features f"
  shows "decode_features (DMap (feature_values f)) =
     Some (f\<lparr>ft_query_params := []\<rparr>, Some (sort_key fst (ft_query_params f)))"
proof -
  let ?ps = "feature_values f"
  have "distinct (map fst (sort_key fst (ft_query_params f)))"
    using assms by (simp add: wire_features_def distinct_map)
  then have params: "fold (\<lambda>(k, v). AList.update k v) (sort_key fst (ft_query_params f)) [] = sort_key fst (ft_query_params f)"
    using updates_fresh[of "[]" "sort_key fst (ft_query_params f)"] by simp
  have "(''Method'', DStr (ft_method f)) \<in> set ?ps" "(''URI'', DStr (ft_uri f)) \<in> set ?ps" "(''Host'', DStr (ft_host f)) \<in> set ?ps"
    "(''ClientIP'', DStr (ft_client_ip f)) \<in> set ?ps" "(''UserAgent'', DStr (ft_user_agent f)) \<in> set ?ps"
    "(''ContentType'', DStr (ft_content_type f)) \<in> set ?ps" "(''Referer'', DStr (ft_referer f)) \<in> set ?ps"
    "(''Body'', DStr (b64_encode (ft_body f))) \<in> set ?ps" "(''HeadersCount'', DInt (ft_headers_count f)) \<in> set ?ps"
    "(''URILength'', DInt (ft_uri_length f)) \<in> set ?ps"
    "(''QueryParams'', DMap (map (\<lambda>(k, v). (k, DStr v)) (sort_key fst (ft_query_params f)))) \<in> set ?ps"
    "(''HasPayload'', DBool (ft_has_payload f)) \<in> set ?ps" "(''PayloadSize'', DInt (ft_payload_size f)) \<in> set ?ps"
    by (simp_all add: feature_values_def)
  note look = this[THEN field_lookup, OF feature_names_distinct refl]
  have "field conv_string ''Method'' [] ?ps = (ft_method f, True)" "field conv_string ''URI'' [] ?ps = (ft_uri f, True)"
    "field conv_string ''Host'' [] ?ps = (ft_host f, True)" "field conv_string ''ClientIP'' [] ?ps = (ft_client_ip f, True)"
    "field conv_string ''UserAgent'' [] ?ps = (ft_user_agent f, True)"
    "field conv_string ''ContentType'' [] ?ps = (ft_content_type f, True)"
    "field conv_string ''Referer'' [] ?ps = (ft_referer f, True)" "field conv_bytes ''Body'' [] ?ps = (ft_body f, True)"
    "field conv_int ''HeadersCount'' 0 ?ps = (ft_headers_count f, True)"
    "field conv_int ''URILength'' 0 ?ps = (ft_uri_length f, True)"
    "field conv_string_map ''QueryParams'' None ?ps = (Some (sort_key fst (ft_query_params f)), True)"
    "field conv_bool ''HasPayload'' False ?ps = (ft_has_payload f, True)"
    "field conv_int ''PayloadSize'' 0 ?ps = (ft_payload_size f, True)"
    by (rule look; use assms params in \<open>simp add: b64_round_trip wire_features_def string_entries_map del: fold_name.simps\<close>)+
  then show ?thesis by (simp del: fold_name.simps)
qed

lemma features_arrive:
  assumes "wire_features f"
  shows "decode_first decode_features (features_text f) =
     Some (f\<lparr>ft_query_params := []\<rparr>, Some (sort_key fst (ft_query_params f)))"
  using decode_object[OF feature_members_read[OF assms], of "[]"] decode_feature_values[OF assms]
  by (simp add: decode_first_def features_text_def del: decode_features.simps)

lemma complete_arrived:
  assumes "wire_features f"
  shows "complete_features (f\<lparr>ft_query_params := []\<rparr>, Some ps) = f\<lparr>ft_query_params := ps\<rparr>"
  using assms by (auto simp: complete_features_def wire_features_def Let_def)

section \<open>The scorer\<close>

text \<open>The scorer does not depend on the order of the parameters, and its texts are ASCII.\<close>

lemma pattern_hits_set: "set ps = set qs \<Longrightarrow> pattern_hits ul u ps b = pattern_hits ul u qs b"
  by (simp add: fun_eq_iff pattern_hits_def list_ex_iff)

lemma checkPatterns_set: "set ps = set qs \<Longrightarrow> checkPatterns ul u ps b pats = checkPatterns ul u qs b pats"
  unfolding checkPatterns_def using pattern_hits_set[of ps qs ul u b] by simp

lemma EvaluateBasic_params:
  assumes "set ps = set (ft_query_params f)"
  shows "EvaluateBasic ul log2 now (f\<lparr>ft_query_params := ps\<rparr>) b = EvaluateBasic ul log2 now f b"
proof -
  have "pattern_step ul (f\<lparr>ft_query_params := ps\<rparr>) = pattern_step ul f"
    by (simp add: fun_eq_iff pattern_step_def checkPatterns_set[OF assms])
  then have p: "pattern_scoring ul b (f\<lparr>ft_query_params := ps\<rparr>) = pattern_scoring ul b f"
    by (simp add: pattern_scoring_def)
  have eqs: "entropy_step log2 (f\<lparr>ft_query_params := ps\<rparr>) = entropy_step log2 f"
    "char_step (f\<lparr>ft_query_params := ps\<rparr>) = char_step f" "header_step ul (f\<lparr>ft_query_params := ps\<rparr>) = header_step ul f"
    "rate_step rs (f\<lparr>ft_query_params := ps\<rparr>) = rate_step rs f" "length_step (f\<lparr>ft_query_params := ps\<rparr>) = length_step f"
    "ft_client_ip (f\<lparr>ft_query_params := ps\<rparr>) = ft_client_ip f" for rs
    by (simp_all add: fun_eq_iff entropy_step_def char_step_def header_step_def analyzeHeaders_def
        rate_step_def length_step_def Let_def)
  show ?thesis unfolding EvaluateBasic_def p eqs ..
qed

definition ascii_scoring :: "scoring \<Rightarrow> bool" where
  "ascii_scoring sc = (list_all ascii (fst (snd sc)) \<and> list_all ascii (snd (snd sc)))"

definition ascii_scorer :: "BasicScorer \<Rightarrow> bool" where
  "ascii_scorer b =
     (list_all ascii (bs_sqli b) \<and> list_all ascii (bs_xss b) \<and> list_all ascii (bs_path_traversal b) \<and>
      list_all ascii (bs_cmd_injection b))"

lemma itoa_ascii: "ascii (itoa n)"
  using itoa_chars[of n] by (auto simp: ascii_def list_all_iff is_digit_def)

lemma checkPatterns_ascii: "list_all ascii pats \<Longrightarrow> ascii (snd (checkPatterns ul u ps b pats))"
  by (auto simp: checkPatterns_def ascii_def list_all_iff find_Some_iff split: option.split)

lemma scoring_labels:
  "list_all ascii [''sqli'', ''xss'', ''path-traversal'', ''cmd-injection'', ''high-entropy'', ''char-distribution'', ''header-anomaly'',
     ''rate-anomaly'', ''uri-length'', ''SQLi pattern detected: '', ''XSS pattern detected: '', ''Path traversal detected: '',
     ''Command injection detected: '', ''High URI entropy: '', ''Suspicious character distribution'', ''High request rate from '',
     ''Unusually long URI: '', '' chars'', ''.'', ''0'', ''allow'', ''suspicious'', ''block'', basic_name]"
  by code_simp

lemma ascii_append: "ascii (s @ t) = (ascii s \<and> ascii t)"
  by (simp add: ascii_def)

lemma pattern_step_ascii:
  assumes "ascii_scoring sc" "list_all ascii pats" "ascii name" "ascii label"
  shows "ascii_scoring (pattern_step ul f pats w name label sc)"
  using assms checkPatterns_ascii[OF assms(2), of ul "ft_uri f" "ft_query_params f" "ft_body f"]
  by (auto simp: ascii_scoring_def pattern_step_def ascii_append split: prod.split)

lemma pattern_scoring_ascii: "ascii_scorer b \<Longrightarrow> ascii_scoring (pattern_scoring ul b f)"
  unfolding pattern_scoring_def ascii_scorer_def
  by (intro pattern_step_ascii) (use scoring_labels in \<open>simp_all add: ascii_scoring_def\<close>)

lemma format_2f_ascii: "ascii (format_2f x)"
  using scoring_labels by (simp add: format_2f_def Let_def ascii_append itoa_ascii)

lemma entropy_step_ascii: "ascii_scoring sc \<Longrightarrow> ascii_scoring (entropy_step log2 f sc)"
  using scoring_labels format_2f_ascii by (cases sc) (auto simp: entropy_step_def ascii_scoring_def Let_def ascii_append)

lemma char_step_ascii: "ascii_scoring sc \<Longrightarrow> ascii_scoring (char_step f sc)"
  using scoring_labels by (cases sc) (auto simp: char_step_def ascii_scoring_def Let_def)

lemma header_step_ascii: "ascii_scoring sc \<Longrightarrow> ascii_scoring (header_step ul f sc)"
  using scoring_labels by (cases sc) (auto simp: header_step_def ascii_scoring_def Let_def)

lemma rate_step_ascii: "ascii_scoring sc \<Longrightarrow> ascii (ft_client_ip f) \<Longrightarrow> ascii_scoring (rate_step rs f sc)"
  using scoring_labels by (cases sc) (auto simp: rate_step_def ascii_scoring_def Let_def ascii_append)

lemma length_step_ascii: "ascii_scoring sc \<Longrightarrow> ascii_scoring (length_step f sc)"
  using scoring_labels by (cases sc) (auto simp: length_step_def ascii_scoring_def Let_def ascii_append itoa_ascii)

lemmas steps_ascii = pattern_scoring_ascii entropy_step_ascii char_step_ascii header_step_ascii rate_step_ascii length_step_ascii

definition ascii_result :: "scorer_result \<Rightarrow> bool" where
  "ascii_result r =
     (ascii (sr_verdict r) \<and> ascii (sr_model r) \<and> list_all ascii (sr_reasons r) \<and> list_all ascii (sr_anomalies r))"

lemma verdict_name_ascii: "ascii (verdict_name v)"
  using scoring_labels by (cases v) simp_all

lemma EvaluateBasic_ascii:
  assumes "ascii_scorer b" "ascii (ft_client_ip f)"
  shows "ascii_result (fst (EvaluateBasic ul log2 now f b))"
proof -
  have n: "ascii basic_name" using scoring_labels by simp
  have p: "ascii_scoring (pattern_scoring ul b f)" by (rule steps_ascii(1)[OF assms(1)])
  have r: "ascii_scoring sc \<Longrightarrow> ascii_result (final_result sc)" for sc
    by (cases sc) (auto simp: final_result_def ascii_result_def ascii_scoring_def verdict_name_ascii n Let_def)
  have s: "ascii_scoring (length_step f (rate_step rs f (header_step ul f (char_step f (entropy_step log2 f (pattern_scoring ul b f))))))" for rs
    by (intro steps_ascii p assms(2))
  show ?thesis using p n r[OF s]
    by (auto simp: EvaluateBasic_def ascii_result_def zero_result_def verdict_name_ascii ascii_scoring_def Let_def
        split: prod.split)
qed

section \<open>The answer comes back\<close>

text \<open>A number whose text the decoder reads as this number.\<close>

definition number_reads :: "(float64 \<Rightarrow> string) \<Rightarrow> float64 \<Rightarrow> bool" where
  "number_reads fn q = (\<exists>v. reads (fn q) v \<and> (\<forall>x. conv_float v x = Some q))"

definition list_value :: "string list \<Rightarrow> dyn" where
  "list_value ss = (if ss = [] then DNull else DList (map DStr ss))"

lemma reads_strings: "list_all ascii ss \<Longrightarrow> reads (strings_text ss) (list_value ss)"
  by (auto simp: strings_text_def list_value_def reads_words list_all2_conv_all_nth list_all_length intro!: reads_list reads_string)

lemma conv_list_value: "conv_strings (list_value ss) x = Some ss"
  by (induction ss) (auto simp: list_value_def split: if_splits)

lemma result_arrives:
  assumes "ascii_result r" "number_reads fn (sr_score r)" "number_reads fn (sr_confidence r)"
  shows "\<exists>v rest. decode_value (json_tokens (result_text fn r @ t)) = Decoded v rest \<and> decode_result v = Some r"
proof -
  obtain sc cf where n: "reads (fn (sr_score r)) sc" "\<forall>x. conv_float sc x = Some (sr_score r)"
    "reads (fn (sr_confidence r)) cf" "\<forall>x. conv_float cf x = Some (sr_confidence r)"
    using assms(2,3) unfolding number_reads_def by blast
  let ?ps = "[(''verdict'', DStr (sr_verdict r)), (''score'', sc), (''confidence'', cf), (''reasons'', list_value (sr_reasons r)),
    (''anomalies'', list_value (sr_anomalies r)), (''model_name'', DStr (sr_model r))]"
  have k: "list_all ascii [''verdict'', ''score'', ''confidence'', ''reasons'', ''anomalies'', ''model_name'']"
    and "distinct (map fold_name [''verdict'', ''score'', ''confidence'', ''reasons'', ''anomalies'', ''model_name''])"
    by code_simp+
  then have d: "distinct (map (\<lambda>p. fold_name (fst p)) ?ps)" by (simp del: fold_name.simps)
  have "list_all2 reads_member (result_members fn r) ?ps"
    using assms(1) n k by (simp add: result_members_def reads_member_def reads_string reads_strings ascii_result_def)
  from decode_object[OF this, of t] have v: "decode_value (json_tokens (result_text fn r @ t)) = Decoded (DMap ?ps) (json_tokens t)"
    by (simp add: result_text_def)
  have "(''verdict'', DStr (sr_verdict r)) \<in> set ?ps" "(''score'', sc) \<in> set ?ps" "(''confidence'', cf) \<in> set ?ps"
    "(''reasons'', list_value (sr_reasons r)) \<in> set ?ps" "(''anomalies'', list_value (sr_anomalies r)) \<in> set ?ps"
    "(''model_name'', DStr (sr_model r)) \<in> set ?ps"
    by simp_all
  note look = this[THEN field_lookup, OF d refl]
  have "field conv_string ''verdict'' [] ?ps = (sr_verdict r, True)" "field conv_float ''score'' 0 ?ps = (sr_score r, True)"
    "field conv_float ''confidence'' 0 ?ps = (sr_confidence r, True)" "field conv_strings ''reasons'' [] ?ps = (sr_reasons r, True)"
    "field conv_strings ''anomalies'' [] ?ps = (sr_anomalies r, True)" "field conv_string ''model_name'' [] ?ps = (sr_model r, True)"
    by (rule look; use n in \<open>simp add: conv_list_value del: fold_name.simps\<close>)+
  then have "decode_result (DMap ?ps) = Some r" by (simp add: decode_result_def)
  with v show ?thesis by blast
qed

lemma daemon_answer:
  assumes "wire_features f" "EvaluateBasic (se_lower (de_scoring env)) (se_log2 (de_scoring env)) (se_score_time (de_scoring env)) f b = (r, b')"
  shows "daemon_serve env (bridge_request f) new_response (ScorerBasic b) =
     (write_piece (Raw (result_text (de_float_text env) r @ [CHR 0x0A])) (set_header ''Content-Type'' ''application/json'' new_response),
      ScorerBasic b')"
  using assms EvaluateBasic_params[of "sort_key fst (ft_query_params f)" f]
  by (simp add: daemon_serve_def handleEvaluate_def bridge_request_def features_arrive complete_arrived scorer_evaluate_def)

text \<open>
  C5: the bridge is transparent: a sidecar whose bridge client is connected to the daemon of this
  repository gets, for every request whose texts are ASCII, the verdict, score, confidence,
  reasons and anomalies that the built-in scorer gives for it, under the bridge's model name, and
  the daemon's scorer then stands as the built-in one would; the body may hold any bytes.
\<close>

lemma bridge_transparent:
  assumes "wire_features f" "ascii_scorer b" "br_enabled br"
    and "EvaluateBasic (se_lower (de_scoring env)) (se_log2 (de_scoring env)) (se_score_time (de_scoring env)) f b = (r, b')"
    and "number_reads (de_float_text env) (sr_score r)" "number_reads (de_float_text env) (sr_confidence r)"
  shows "EvaluateBridge (bridge_client env (ScorerBasic b)) f br = Inr (r\<lparr>sr_model := ''open-appsec''\<rparr>) \<and>
     snd (daemon_serve env (bridge_request f) new_response (ScorerBasic b)) = ScorerBasic b'"
proof -
  have "ascii (ft_client_ip f)" using assms(1) by (simp add: wire_features_def)
  then have "ascii_result r"
    using EvaluateBasic_ascii[OF assms(2), of f "se_lower (de_scoring env)" "se_log2 (de_scoring env)" "se_score_time (de_scoring env)"]
      assms(4) by simp
  then obtain v rest where
    "decode_value (json_tokens (result_text (de_float_text env) r @ [CHR 0x0A])) = Decoded v rest" "decode_result v = Some r"
    using result_arrives[OF _ assms(5,6)] by blast
  then show ?thesis
    using assms(3) daemon_answer[OF assms(1,4)]
    by (simp add: EvaluateBridge_def bridge_client_def bridge_name_def write_piece_def write_header_def set_header_def new_response_def Let_def)
qed

section \<open>A clean request through the bridge\<close>

lemma parse_seven_tenths: "parse_number ''0.7'' = Some (7 / 10)"
proof -
  have "digits_value ''07'' = 7" by code_simp
  then show ?thesis by (simp add: parse_number_def split_digits_def is_digit_def number_fraction_def number_exponent_def)
qed

lemma reads_seven_tenths: "reads ''0.7'' (DNum (fl (7/10)))"
proof (rule reads_number)
  have "fl (7/10) \<le> of_int 1" by (rule fl_le_int) simp_all
  moreover have "(1 :: rat) \<le> 2 ^ 1023" by (rule one_le_power) simp
  then have "(1 :: rat) * 1 \<le> max_float" unfolding max_float_def by (intro mult_mono) (simp_all add: power_int_minus)
  ultimately have m: "\<not> max_float < \<bar>fl (7/10)\<bar>" using fl_pos_pos[of "7/10"] by simp
  then show "number_token ''0.7'' = TVal (DNum (fl (7/10)))"
    unfolding number_token_def parse_seven_tenths by (simp add: is_int_literal_def is_digit_def)
  show "list_all is_number_byte ''0.7''" "is_digit (CHR ''0'') \<or> CHR ''0'' = CHR ''-''" by code_simp+
qed simp

lemma no_entropy: "calculateEntropy (\<lambda>_. 0) s = 0"
proof -
  have "foldl (\<lambda>entropy (r, cnt). let p = fdiv (float_of_int (int cnt)) n in fsub entropy (fmul p 0)) 0 freq = 0" for n and freq :: "(nat \<times> nat) list"
    by (induction freq) (auto simp: fsub_def fmul_def)
  then show ?thesis by (simp add: calculateEntropy_def Let_def)
qed

definition clean_features :: features where
  "clean_features = plain_features\<lparr>ft_uri := ''/indexes'', ft_uri_length := 8\<rparr>"

lemma clean_patterns: "pattern_scoring ascii_only_lower (NewBasicScorer ascii_only_lower) clean_features = (0, [], [])"
  by code_simp

lemma zero_arith: "fadd 0 0 = 0" "fmul 0 x = 0" by (simp_all add: fadd_def fmul_def)

lemma clean_chars: "analyzeCharDistribution ''/indexes'' = 0"
proof -
  have c: "count_chars ''/indexes'' \<lparr>cc_upper = 0, cc_lower = 0, cc_digits = 0, cc_special = 0, cc_encoded = 0\<rparr> = 
    \<lparr>cc_upper = 0, cc_lower = 7, cc_digits = 0, cc_special = 1, cc_encoded = 0\<rparr>" by code_simp
  have "fl 0 \<le> fl (5/100)" "fl (1/8) \<le> fl (15/100)" by (rule fl_mono; simp)+
  then show ?thesis unfolding analyzeCharDistribution_def c by (simp add: float_of_int_def fdiv_def fl_numeral zero_arith)
qed

lemma clean_headers: "analyzeHeaders ascii_only_lower clean_features = 0"
proof -
  have a: "list_ex (\<lambda>bad. str_contains (to_lower ascii_only_lower ''Mozilla/5.0'') bad) badUAs = False" by code_simp
  show ?thesis unfolding analyzeHeaders_def clean_features_def plain_features_def 
   by (simp add: a )
qed

lemma clean_result:
  "EvaluateBasic ascii_only_lower (\<lambda>_. 0) now clean_features (NewBasicScorer ascii_only_lower) =
     (\<lparr>sr_verdict = ''allow'', sr_score = 0, sr_confidence = fl (7/10), sr_reasons = [], sr_anomalies = [], sr_model = ''basic-go''\<rparr>,
      (NewBasicScorer ascii_only_lower)\<lparr>bs_ip_frequency := [''10.0.0.9'' \<mapsto> \<lparr>ic_count = 1, ic_window_start = now\<rparr>]\<rparr>)"
proof -
  have f: "ft_uri clean_features = ''/indexes''" "ft_body clean_features = []" "ft_client_ip clean_features = ''10.0.0.9''"
    "ft_uri_length clean_features = 8" "bs_enabled (NewBasicScorer ascii_only_lower)"
    "bs_ip_frequency (NewBasicScorer ascii_only_lower) = Map.empty"
    by (simp_all add: clean_features_def plain_features_def NewBasicScorer_def)
  have z: "0 < fl (70/100)" "0 < fl (5/10)" "0 < fl (45/10)" "0 < fl (40/100)" by (simp_all add: fl_pos_pos)
  show ?thesis using z
   by (simp add: EvaluateBasic_def clean_patterns f entropy_step_def char_step_def header_step_def rate_step_def length_step_def
     no_entropy clean_chars clean_headers zero_arith checkRate_def final_result_def Let_def basic_name_def ScoreThreshold_def)
qed

lemma bridge_transparent_witness:
  "EvaluateBridge (bridge_client \<lparr>de_scoring = sample_env\<lparr>se_log2 := \<lambda>_. 0\<rparr>, de_float_text = \<lambda>q. if q = 0 then ''0'' else ''0.7'',
       de_json_error = \<lambda>_. []\<rparr> (ScorerBasic (NewBasicScorer ascii_only_lower))) clean_features (NewBridgeScorer ''/run/bridge.sock'' 5000000000) =
     Inr \<lparr>sr_verdict = ''allow'', sr_score = 0, sr_confidence = fl (7/10), sr_reasons = [], sr_anomalies = [], sr_model = ''open-appsec''\<rparr>"
    (is "EvaluateBridge (bridge_client ?env _) _ _ = _")
proof -
  have w: "wire_features clean_features" by code_simp
  have a: "ascii_scorer (NewBasicScorer ascii_only_lower)" by code_simp
  have "0 < fl (7/10)" by (simp add: fl_pos_pos)
  moreover have "itoa 0 = ''0''" by code_simp
  ultimately have n: "number_reads (de_float_text ?env) 0" "number_reads (de_float_text ?env) (fl (7/10))"
    using reads_int[of 0] reads_seven_tenths by (auto simp: number_reads_def float_of_int_def intro: exI[of _ "DInt 0"])
  show ?thesis
    using bridge_transparent[OF w a _ _ _ _, of "NewBridgeScorer ''/run/bridge.sock'' 5000000000" ?env, 
         unfolded daemon_env.select_convs sidecar_env.select_convs] 
          clean_result[of 2] n
    by (simp add: NewBridgeScorer_def sample_env_def)
qed

end
