(* ===== verification/CppBridge.thy ===== *)
theory CppBridge
  imports Appsec "HOL-Library.Word"
begin

text \<open>
  \<^verbatim>\<open>internal/appsec/bridge_cpp_linux.go\<close>: the scorer that calls the open-appsec engine through
  cgo. The strings handed to C are allocated in the C heap, which is a map from addresses to
  the bytes stored there, address 0 being the null pointer. The engine itself is a library
  that is not in the repository: what its three functions return is the argument \<open>lib\<close>, and
  the calls made to it are recorded in order. A bad access is \<^verbatim>\<open>None\<close>: freeing an address that is
  not allocated, or a call that is handed one.
\<close>

section \<open>The C heap\<close>

record c_heap =
  ch_cells :: "nat \<Rightarrow> string option"
  ch_next :: nat

definition empty_heap :: c_heap where
  "empty_heap = \<lparr>ch_cells = Map.empty, ch_next = 1\<rparr>"

text \<open>\<^verbatim>\<open>C.CString\<close> allocates a copy that ends with a zero byte; it never returns null.\<close>

definition CString :: "string \<Rightarrow> c_heap \<Rightarrow> nat \<times> c_heap" where
  "CString s h = (ch_next h, h\<lparr>ch_cells := (ch_cells h)(ch_next h \<mapsto> s @ [CHR 0x00]), ch_next := ch_next h + 1\<rparr>)"

text \<open>\<^verbatim>\<open>free\<close> of null does nothing; of an address that is not allocated it is undefined.\<close>

definition c_free :: "nat \<Rightarrow> c_heap \<Rightarrow> c_heap option" where
  "c_free p h =
     (if p = 0 then Some h
      else if ch_cells h p = None then None else Some (h\<lparr>ch_cells := (ch_cells h)(p := None)\<rparr>))"

text \<open>What C reads through a pointer: the bytes up to the first zero; and \<^verbatim>\<open>C.GoString\<close> of an array.\<close>

definition GoString :: "string \<Rightarrow> string" where
  "GoString s = takeWhile (\<lambda>c. c \<noteq> CHR 0x00) s"

definition c_string :: "c_heap \<Rightarrow> nat \<Rightarrow> string option option" where
  "c_string h p = (if p = 0 then Some None else map_option (\<lambda>s. Some (GoString s)) (ch_cells h p))"

definition cStrOrNull :: "string \<Rightarrow> c_heap \<Rightarrow> nat \<times> c_heap" where
  "cStrOrNull s h = (if s = [] then (0, h) else CString s h)"

definition c_int :: "int \<Rightarrow> int" where
  "c_int n = sint (word_of_int n :: 32 word)"

section \<open>The library\<close>

record c_request =
  cq_method :: nat
  cq_uri :: nat
  cq_host :: nat
  cq_client_ip :: nat
  cq_user_agent :: nat
  cq_content_type :: nat
  cq_body :: nat
  cq_body_len :: int

text \<open>What a request shows to the library while it is evaluated; \<^verbatim>\<open>None\<close> is a null pointer.\<close>

record c_seen =
  sn_method :: "string option"
  sn_uri :: "string option"
  sn_host :: "string option"
  sn_client_ip :: "string option"
  sn_user_agent :: "string option"
  sn_content_type :: "string option"
  sn_body :: "string option"
  sn_body_len :: int

record c_result =
  cr_should_block :: int
  cr_score :: float64
  cr_confidence :: float64
  cr_reasons :: string
  cr_anomalies :: string

datatype lib_call = InitCall string int | EvaluateCall nat c_seen | DestroyCall nat

text \<open>The library as a function of the calls made so far, the current one last.\<close>

record c_library =
  lb_init :: "lib_call list \<Rightarrow> nat"
  lb_evaluate :: "lib_call list \<Rightarrow> c_result"

record c_state =
  cs_heap :: c_heap
  cs_calls :: "lib_call list"

text \<open>The body is read by its length, so zero bytes in it are passed on.\<close>

definition see_request :: "c_heap \<Rightarrow> c_request \<Rightarrow> c_seen option" where
  "see_request h q =
     (case (c_string h (cq_method q), c_string h (cq_uri q), c_string h (cq_host q), c_string h (cq_client_ip q),
            c_string h (cq_user_agent q), c_string h (cq_content_type q)) of
        (Some m, Some u, Some ho, Some ip, Some ua, Some ct) \<Rightarrow>
          (let seen = (\<lambda>b. \<lparr>sn_method = m, sn_uri = u, sn_host = ho, sn_client_ip = ip, sn_user_agent = ua,
                           sn_content_type = ct, sn_body = b, sn_body_len = cq_body_len q\<rparr>)
           in if cq_body q = 0 then Some (seen None)
              else map_option (\<lambda>s. seen (Some (take (nat (cq_body_len q)) s))) (ch_cells h (cq_body q)))
      | _ \<Rightarrow> None)"

section \<open>The scorer\<close>

record CPPBridgeScorer =
  cp_enabled :: bool
  cp_bridge :: nat
  cp_waap_data_path :: string

definition NewCPPBridgeScorer :: "c_library \<Rightarrow> string \<Rightarrow> c_state \<Rightarrow> (CPPBridgeScorer \<times> c_state) option" where
  "NewCPPBridgeScorer lib waapDataPath st =
     (let s = \<lparr>cp_enabled = False, cp_bridge = 0, cp_waap_data_path = waapDataPath\<rparr>
      in if waapDataPath = [] then Some (s, st)
         else
           let (cPath, h) = CString waapDataPath (cs_heap st)
           in case c_string h cPath of
                Some (Some path) \<Rightarrow>
                  let calls = cs_calls st @ [InitCall path 2];
                      bridge = lb_init lib calls;
                      s = (if bridge = 0 then s else s\<lparr>cp_bridge := bridge, cp_enabled := True\<rparr>)
                  in map_option (\<lambda>h. (s, \<lparr>cs_heap = h, cs_calls = calls\<rparr>)) (c_free cPath h)
              | _ \<Rightarrow> None)"

definition cpp_name :: "CPPBridgeScorer \<Rightarrow> string" where
  "cpp_name s = (if cp_enabled s then ''open-appsec-cpp'' else ''open-appsec-cpp (stub)'')"

definition cpp_health :: "CPPBridgeScorer \<Rightarrow> string option" where
  "cpp_health s = (if \<not> cp_enabled s then Some ''CPP bridge not initialized (no waap.data)'' else None)"

definition cpp_close :: "CPPBridgeScorer \<Rightarrow> c_state \<Rightarrow> CPPBridgeScorer \<times> c_state" where
  "cpp_close s st =
     (if cp_bridge s \<noteq> 0
      then (s\<lparr>cp_bridge := 0\<rparr>, st\<lparr>cs_calls := cs_calls st @ [DestroyCall (cp_bridge s)]\<rparr>) else (s, st))"

text \<open>The six texts are allocated in the order of the code and are never freed; the body is.\<close>

definition build_request :: "features \<Rightarrow> c_heap \<Rightarrow> c_request \<times> c_heap" where
  "build_request f h =
     (let (m, h) = cStrOrNull (ft_method f) h;
          (u, h) = cStrOrNull (ft_uri f) h;
          (ho, h) = cStrOrNull (ft_host f) h;
          (ip, h) = cStrOrNull (ft_client_ip f) h;
          (ua, h) = cStrOrNull (ft_user_agent f) h;
          (ct, h) = cStrOrNull (ft_content_type f) h;
          (b, len, h) = (if ft_body f \<noteq> []
                         then (case CString (ft_body f) h of (b, h) \<Rightarrow> (b, c_int (int (length (ft_body f))), h))
                         else (0, 0, h))
      in (\<lparr>cq_method = m, cq_uri = u, cq_host = ho, cq_client_ip = ip, cq_user_agent = ua, cq_content_type = ct,
           cq_body = b, cq_body_len = len\<rparr>, h))"

definition cpp_evaluate :: "c_library \<Rightarrow> features \<Rightarrow> CPPBridgeScorer \<Rightarrow> c_state \<Rightarrow> (scorer_result \<times> c_state) option" where
  "cpp_evaluate lib f s st =
     (if \<not> cp_enabled s
      then Some (zero_result\<lparr>sr_verdict := verdict_name LAllow, sr_confidence := 1, sr_model := cpp_name s\<rparr>, st)
      else
        let (q, h) = build_request f (cs_heap st)
        in case see_request h q of
             None \<Rightarrow> None
           | Some seen \<Rightarrow>
               let calls = cs_calls st @ [EvaluateCall (cp_bridge s) seen];
                   r = lb_evaluate lib calls;
                   verdict = (if cr_should_block r \<noteq> 0 then LBlock else LAllow)
               in map_option (\<lambda>h.
                    (\<lparr>sr_verdict = verdict_name verdict, sr_score = cr_score r, sr_confidence = cr_confidence r,
                      sr_reasons = [GoString (cr_reasons r)], sr_anomalies = [GoString (cr_anomalies r)],
                      sr_model = cpp_name s\<rparr>, \<lparr>cs_heap = h, cs_calls = calls\<rparr>))
                  (if ft_body f \<noteq> [] then c_free (cq_body q) h else Some h))"

section \<open>Memory\<close>

text \<open>Every allocated address is behind the next free one, so there are finitely many.\<close>

definition heap_ok :: "c_heap \<Rightarrow> bool" where
  "heap_ok h \<longleftrightarrow> 0 < ch_next h \<and> dom (ch_cells h) \<subseteq> {1..<ch_next h}"

definition allocated :: "c_heap \<Rightarrow> nat" where
  "allocated h = card (dom (ch_cells h))"

definition kept :: "c_heap \<Rightarrow> c_heap \<Rightarrow> bool" where
  "kept h h' \<longleftrightarrow> ch_cells h \<subseteq>\<^sub>m ch_cells h'"

lemma kept_refl [simp]: "kept h h"
  by (simp add: kept_def)

lemma kept_trans: "kept h1 h2 \<Longrightarrow> kept h2 h3 \<Longrightarrow> kept h1 h3"
  unfolding kept_def by (rule map_le_trans)

lemma kept_string: "kept h h' \<Longrightarrow> c_string h p = Some x \<Longrightarrow> c_string h' p = Some x"
  by (auto simp: kept_def c_string_def map_le_def dom_def split: if_splits)

lemma heap_ok_fresh: "heap_ok h \<Longrightarrow> ch_cells h (ch_next h) = None"
  by (auto simp: heap_ok_def dom_def)

lemma heap_ok_finite: "heap_ok h \<Longrightarrow> finite (dom (ch_cells h))"
  unfolding heap_ok_def using finite_subset by blast

lemma GoString_zero: "GoString (s @ [CHR 0x00]) = GoString s"
  by (induction s) (auto simp: GoString_def)

lemma CString_fresh:
  assumes "heap_ok h" "CString s h = (p, h')"
  shows "heap_ok h'" "kept h h'" "allocated h' = allocated h + 1" "ch_cells h' p = Some (s @ [CHR 0x00])" "p \<noteq> 0"
    "ch_cells h = (ch_cells h')(p := None)"
proof -
  have b: "0 < x \<and> x < ch_next h" if "ch_cells h x = Some y" for x y
    using assms(1) that by (force simp: heap_ok_def dom_def)
  have "0 < x \<and> x < ch_next h + 1" if "((ch_cells h)(ch_next h \<mapsto> s @ [CHR 0x00])) x = Some y" for x y
    using assms(1) that b[of x y] by (auto simp: heap_ok_def split: if_splits)
  then show "heap_ok h'" using assms by (fastforce simp: CString_def heap_ok_def dom_def)
qed (use assms heap_ok_fresh[OF assms(1)] heap_ok_finite[OF assms(1)] in
    \<open>auto simp: CString_def heap_ok_def kept_def map_le_def allocated_def domIff fun_eq_iff\<close>)

definition null_or_text :: "string \<Rightarrow> string option" where
  "null_or_text s = (if s = [] then None else Some (GoString s))"

lemma cStrOrNull_fresh:
  assumes "heap_ok h" "cStrOrNull s h = (p, h')"
  shows "heap_ok h'" "kept h h'" "allocated h' = allocated h + (if s = [] then 0 else 1)"
    "c_string h' p = Some (null_or_text s)"
  using assms CString_fresh[OF assms(1), of s p h']
  by (auto simp: cStrOrNull_def null_or_text_def c_string_def GoString_zero split: if_splits)

text \<open>The texts of a request that are allocated for it and stay behind.\<close>

definition request_texts :: "features \<Rightarrow> string list" where
  "request_texts f = [ft_method f, ft_uri f, ft_host f, ft_client_ip f, ft_user_agent f, ft_content_type f]"

definition leaked :: "features \<Rightarrow> nat" where
  "leaked f = length (filter (\<lambda>s. s \<noteq> []) (request_texts f))"

definition seen_of :: "features \<Rightarrow> c_seen" where
  "seen_of f =
     \<lparr>sn_method = null_or_text (ft_method f), sn_uri = null_or_text (ft_uri f), sn_host = null_or_text (ft_host f),
      sn_client_ip = null_or_text (ft_client_ip f), sn_user_agent = null_or_text (ft_user_agent f),
      sn_content_type = null_or_text (ft_content_type f),
      sn_body = (if ft_body f = [] then None else Some (ft_body f)), sn_body_len = int (length (ft_body f))\<rparr>"

lemma c_int_small: "0 \<le> n \<Longrightarrow> n < 2 ^ 31 \<Longrightarrow> c_int n = n"
  unfolding c_int_def by (simp add: signed_of_int signed_take_bit_int_eq_self)

text \<open>After its library call an enabled scorer has freed the body only.\<close>

lemma request_built:
  assumes "heap_ok h" "build_request f h = (q, h')" "length (ft_body f) < 2 ^ 31"
  shows "see_request h' q = Some (seen_of f) \<and>
     (\<exists>h''. (if ft_body f \<noteq> [] then c_free (cq_body q) h' else Some h') = Some h'' \<and> heap_ok h'' \<and>
       allocated h'' = allocated h + leaked f)"
proof -
  obtain m h1 where 1: "cStrOrNull (ft_method f) h = (m, h1)" by fastforce
  obtain u h2 where 2: "cStrOrNull (ft_uri f) h1 = (u, h2)" by fastforce
  obtain ho h3 where 3: "cStrOrNull (ft_host f) h2 = (ho, h3)" by fastforce
  obtain ip h4 where 4: "cStrOrNull (ft_client_ip f) h3 = (ip, h4)" by fastforce
  obtain ua h5 where 5: "cStrOrNull (ft_user_agent f) h4 = (ua, h5)" by fastforce
  obtain ct h6 where 6: "cStrOrNull (ft_content_type f) h5 = (ct, h6)" by fastforce
  note a1 = cStrOrNull_fresh[OF assms(1) 1]
  note a2 = cStrOrNull_fresh[OF a1(1) 2]
  note a3 = cStrOrNull_fresh[OF a2(1) 3]
  note a4 = cStrOrNull_fresh[OF a3(1) 4]
  note a5 = cStrOrNull_fresh[OF a4(1) 5]
  note a6 = cStrOrNull_fresh[OF a5(1) 6]
  have k: "kept h5 h6" "kept h4 h6" "kept h3 h6" "kept h2 h6" "kept h1 h6"
    using a6(2) a5(2) a4(2) a3(2) a2(2) kept_trans by meson+
  have texts: "c_string h6 m = Some (null_or_text (ft_method f))" "c_string h6 u = Some (null_or_text (ft_uri f))"
    "c_string h6 ho = Some (null_or_text (ft_host f))" "c_string h6 ip = Some (null_or_text (ft_client_ip f))"
    "c_string h6 ua = Some (null_or_text (ft_user_agent f))" "c_string h6 ct = Some (null_or_text (ft_content_type f))"
    using k a6(4) a1(4) a2(4) a3(4) a4(4) a5(4) kept_string by blast+
  have len: "allocated h6 = allocated h + leaked f"
    using a1(3) a2(3) a3(3) a4(3) a5(3) a6(3) by (simp add: leaked_def request_texts_def)
  show ?thesis
  proof (cases "ft_body f = []")
    case True
    then have "h' = h6" "q = \<lparr>cq_method = m, cq_uri = u, cq_host = ho, cq_client_ip = ip, cq_user_agent = ua,
        cq_content_type = ct, cq_body = 0, cq_body_len = 0\<rparr>"
      using assms(2) by (auto simp: build_request_def 1 2 3 4 5 6)
    then show ?thesis using True texts len a6(1) by (simp add: see_request_def seen_of_def)
  next
    case False
    obtain b h7 where 7: "CString (ft_body f) h6 = (b, h7)" by fastforce
    note a7 = CString_fresh[OF a6(1) 7]
    have q: "h' = h7" "q = \<lparr>cq_method = m, cq_uri = u, cq_host = ho, cq_client_ip = ip, cq_user_agent = ua,
        cq_content_type = ct, cq_body = b, cq_body_len = int (length (ft_body f))\<rparr>"
      using assms(2,3) False c_int_small[of "int (length (ft_body f))"] by (auto simp: build_request_def 1 2 3 4 5 6 7)
    have "c_free b h7 = Some (h7\<lparr>ch_cells := ch_cells h6\<rparr>)" using a7(4,5,6) by (simp add: c_free_def)
    moreover have "heap_ok (h7\<lparr>ch_cells := ch_cells h6\<rparr>)"
      using a6(1) 7 by (auto simp: heap_ok_def CString_def)
    moreover have "see_request h7 q = Some (seen_of f)"
      using texts[THEN kept_string[OF a7(2)]] a7(4,5) False q(2) by (simp add: see_request_def seen_of_def)
    ultimately show ?thesis using q False len by (simp add: allocated_def)
  qed
qed

section \<open>A scorer over its life\<close>

definition no_calls :: c_state where
  "no_calls = \<lparr>cs_heap = empty_heap, cs_calls = []\<rparr>"

text \<open>The result that an answer of the library stands for.\<close>

definition answer_result :: "c_result \<Rightarrow> scorer_result" where
  "answer_result r =
     \<lparr>sr_verdict = (if cr_should_block r \<noteq> 0 then ''block'' else ''allow''), sr_score = cr_score r,
      sr_confidence = cr_confidence r, sr_reasons = [GoString (cr_reasons r)], sr_anomalies = [GoString (cr_anomalies r)],
      sr_model = ''open-appsec-cpp''\<rparr>"

fun cpp_run :: "c_library \<Rightarrow> features list \<Rightarrow> CPPBridgeScorer \<Rightarrow> c_state \<Rightarrow> (scorer_result list \<times> c_state) option" where
  "cpp_run lib [] s st = Some ([], st)"
| "cpp_run lib (f # fs) s st =
     (case cpp_evaluate lib f s st of
        None \<Rightarrow> None
      | Some (r, st) \<Rightarrow> map_option (\<lambda>(rs, st). (r # rs, st)) (cpp_run lib fs s st))"

text \<open>The answers of the library to the evaluations that follow the calls made so far.\<close>

fun answers :: "c_library \<Rightarrow> nat \<Rightarrow> lib_call list \<Rightarrow> features list \<Rightarrow> c_result list" where
  "answers lib b calls [] = []"
| "answers lib b calls (f # fs) =
     (let calls = calls @ [EvaluateCall b (seen_of f)] in lb_evaluate lib calls # answers lib b calls fs)"

lemma cpp_evaluate_enabled:
  assumes "cp_enabled s" "heap_ok (cs_heap st)" "length (ft_body f) < 2 ^ 31"
  shows "\<exists>h. cpp_evaluate lib f s st =
      Some (answer_result (lb_evaluate lib (cs_calls st @ [EvaluateCall (cp_bridge s) (seen_of f)])),
        \<lparr>cs_heap = h, cs_calls = cs_calls st @ [EvaluateCall (cp_bridge s) (seen_of f)]\<rparr>) \<and>
     heap_ok h \<and> allocated h = allocated (cs_heap st) + leaked f"
proof -
  obtain q h' where b: "build_request f (cs_heap st) = (q, h')" by fastforce
  from request_built[OF assms(2) b assms(3)] obtain h'' where
    "see_request h' q = Some (seen_of f)" "(if ft_body f \<noteq> [] then c_free (cq_body q) h' else Some h') = Some h''"
    "heap_ok h''" "allocated h'' = allocated (cs_heap st) + leaked f" by blast
  then show ?thesis using assms(1) b by (simp add: cpp_evaluate_def answer_result_def cpp_name_def Let_def)
qed

lemma cpp_run_enabled:
  assumes "cp_enabled s" "heap_ok (cs_heap st)" "list_all (\<lambda>f. length (ft_body f) < 2 ^ 31) fs"
  shows "\<exists>h. cpp_run lib fs s st =
      Some (map answer_result (answers lib (cp_bridge s) (cs_calls st) fs),
        \<lparr>cs_heap = h, cs_calls = cs_calls st @ map (\<lambda>f. EvaluateCall (cp_bridge s) (seen_of f)) fs\<rparr>) \<and>
     allocated h = allocated (cs_heap st) + sum_list (map leaked fs)"
  using assms(2,3)
proof (induction fs arbitrary: st)
  case Nil
  show ?case by (rule exI[of _ "cs_heap st"]) simp
next
  case (Cons f fs)
  obtain h where h: "cpp_evaluate lib f s st =
      Some (answer_result (lb_evaluate lib (cs_calls st @ [EvaluateCall (cp_bridge s) (seen_of f)])),
        \<lparr>cs_heap = h, cs_calls = cs_calls st @ [EvaluateCall (cp_bridge s) (seen_of f)]\<rparr>)"
    "heap_ok h" "allocated h = allocated (cs_heap st) + leaked f"
    using cpp_evaluate_enabled[OF assms(1) Cons.prems(1), of f lib] Cons.prems(2) by auto
  have "list_all (\<lambda>f. length (ft_body f) < 2 ^ 31) fs" using Cons.prems(2) by simp
  from Cons.IH[OF _ this, of "\<lparr>cs_heap = h, cs_calls = cs_calls st @ [EvaluateCall (cp_bridge s) (seen_of f)]\<rparr>"]
  show ?case using h by (auto simp: Let_def)
qed

lemma cpp_run_disabled:
  assumes "\<not> cp_enabled s"
  shows "cpp_run lib fs s st =
     Some (replicate (length fs) (zero_result\<lparr>sr_verdict := ''allow'', sr_confidence := 1,
       sr_model := ''open-appsec-cpp (stub)''\<rparr>), st)"
  using assms by (induction fs) (simp_all add: cpp_evaluate_def cpp_name_def)

lemma cpp_start:
  obtains (disabled) s st where "NewCPPBridgeScorer lib path no_calls = Some (s, st)" "\<not> cp_enabled s" "cp_bridge s = 0"
      "allocated (cs_heap st) = 0" "path = [] \<or> lb_init lib [InitCall (GoString path) 2] = 0"
    | (enabled) s h where "NewCPPBridgeScorer lib path no_calls =
        Some (s, \<lparr>cs_heap = h, cs_calls = [InitCall (GoString path) 2]\<rparr>)" "cp_enabled s" "heap_ok h" "allocated h = 0"
      "cp_bridge s = lb_init lib [InitCall (GoString path) 2]" "cp_bridge s \<noteq> 0" "path \<noteq> []"
proof (cases "path = []")
  case True
  then show ?thesis using disabled by (simp add: NewCPPBridgeScorer_def no_calls_def empty_heap_def allocated_def Let_def)
next
  case False
  define h where "h = \<lparr>ch_cells = Map.empty, ch_next = 2\<rparr>"
  have h: "heap_ok h" "allocated h = 0" by (simp_all add: h_def heap_ok_def allocated_def)
  have c: "CString path empty_heap = (1, \<lparr>ch_cells = [1 \<mapsto> path @ [CHR 0x00]], ch_next = 2\<rparr>)"
    by (simp add: CString_def empty_heap_def)
  have f: "c_free 1 \<lparr>ch_cells = [1 \<mapsto> path @ [CHR 0x00]], ch_next = 2\<rparr> = Some h"
    by (simp add: c_free_def h_def fun_eq_iff)
  show ?thesis
  proof (cases "lb_init lib [InitCall (GoString path) 2] = 0")
    case True
    with disabled False h c f show ?thesis
      by (simp add: NewCPPBridgeScorer_def no_calls_def c_string_def GoString_zero Let_def)
  next
    case ok: False
    with enabled False h c f show ?thesis
      by (simp add: NewCPPBridgeScorer_def no_calls_def c_string_def GoString_zero Let_def)
  qed
qed

text \<open>
  C27: over the whole life of a cgo scorer no C memory is misused: the scorer is created, evaluates any
  requests with bodies below 2 GiB and is closed without freeing or reading an address that is
  not allocated. When the engine starts, it sees every text up to its first zero byte and the
  whole body, every call uses the handle that the initialisation returned, the results are the
  engine's answers, and the handle is destroyed exactly once; but every non-empty text of every
  request is still allocated afterwards. Without a path or a handle every request is allowed.
\<close>

lemma cpp_bridge_life:
  assumes "list_all (\<lambda>f. length (ft_body f) < 2 ^ 31) fs"
  shows "\<exists>s st rs st'. NewCPPBridgeScorer lib path no_calls = Some (s, st) \<and> cpp_run lib fs s st = Some (rs, st') \<and>
     (let b = lb_init lib [InitCall (GoString path) 2];
          calls = InitCall (GoString path) 2 # map (\<lambda>f. EvaluateCall b (seen_of f)) fs;
          (s1, st1) = cpp_close s st'
      in if path = [] \<or> b = 0
         then rs = replicate (length fs) (zero_result\<lparr>sr_verdict := ''allow'', sr_confidence := 1,
                sr_model := ''open-appsec-cpp (stub)''\<rparr>) \<and> st1 = st \<and> allocated (cs_heap st1) = 0
         else rs = map answer_result (answers lib b [InitCall (GoString path) 2] fs) \<and>
              cs_calls st1 = calls @ [DestroyCall b] \<and> cpp_close s1 st1 = (s1, st1) \<and>
              allocated (cs_heap st1) = sum_list (map leaked fs))"
proof (rule cpp_start[of lib path])
  fix s st
  assume "NewCPPBridgeScorer lib path no_calls = Some (s, st)" "\<not> cp_enabled s" "cp_bridge s = 0"
    "allocated (cs_heap st) = 0" "path = [] \<or> lb_init lib [InitCall (GoString path) 2] = 0"
  then show ?thesis using cpp_run_disabled[of s lib fs st] by (simp add: cpp_close_def Let_def)
next
  fix s h
  assume s: "NewCPPBridgeScorer lib path no_calls = Some (s, \<lparr>cs_heap = h, cs_calls = [InitCall (GoString path) 2]\<rparr>)"
    "cp_enabled s" "heap_ok h" "allocated h = 0" "cp_bridge s = lb_init lib [InitCall (GoString path) 2]"
    "cp_bridge s \<noteq> 0" "path \<noteq> []"
  from cpp_run_enabled[OF s(2) _ assms, of "\<lparr>cs_heap = h, cs_calls = [InitCall (GoString path) 2]\<rparr>" lib] s
  show ?thesis by (auto simp: cpp_close_def Let_def)
qed

text \<open>A closed scorer stays enabled, so a later evaluation hands the library a null handle.\<close>

lemma closed_scorer_calls_null:
  assumes "cp_enabled s" "heap_ok (cs_heap st)" "length (ft_body f) < 2 ^ 31" "cp_bridge s \<noteq> 0"
  shows "\<exists>r st'. (case cpp_close s st of (s', st) \<Rightarrow> cpp_evaluate lib f s' st) = Some (r, st') \<and>
     cs_calls st' = cs_calls st @ [DestroyCall (cp_bridge s), EvaluateCall 0 (seen_of f)]"
  using cpp_evaluate_enabled[of "s\<lparr>cp_bridge := 0\<rparr>" "st\<lparr>cs_calls := cs_calls st @ [DestroyCall (cp_bridge s)]\<rparr>" f lib] assms
  by (auto simp: cpp_close_def)

definition blocking_library :: c_library where
  "blocking_library =
     \<lparr>lb_init = (\<lambda>_. 7),
      lb_evaluate = (\<lambda>calls. \<lparr>cr_should_block = 1, cr_score = 1, cr_confidence = 1, cr_reasons = ''SQLi'' @ [CHR 0x00, CHR 0x00],
        cr_anomalies = [CHR 0x00]\<rparr>)\<rparr>"

lemma cpp_bridge_life_witness:
  "\<exists>s st rs st'. NewCPPBridgeScorer blocking_library ''/waap.data'' no_calls = Some (s, st) \<and>
     cpp_run blocking_library [plain_features, plain_features\<lparr>ft_body := ''x''\<rparr>] s st = Some (rs, st') \<and>
     map sr_verdict rs = [''block'', ''block''] \<and> allocated (cs_heap st') = 10"
proof -
  let ?fs = "[plain_features, plain_features\<lparr>ft_body := ''x''\<rparr>]"
  have "list_all (\<lambda>f. length (ft_body f) < 2 ^ 31) ?fs" by (simp add: plain_features_def)
  from cpp_bridge_life[OF this, of blocking_library "''/waap.data''"] show ?thesis
    by (fastforce simp: blocking_library_def answer_result_def leaked_def request_texts_def plain_features_def cpp_close_def
        Let_def split: prod.splits if_splits)
qed

end
