(* ===== verification/Metrics.thy ===== *)
theory Metrics
  imports GoStrings
begin

text \<open>
  \<^verbatim>\<open>internal/metrics/metrics.go\<close>: the seven collectors and their registration when the program
  starts; the buckets of the histogram are the default ones of the library. The Prometheus library is a parameter: \<open>register\<close> adds a collector to a registry or
  refuses it, and \<^verbatim>\<open>MustRegister\<close> panics on a refusal, which is \<^verbatim>\<open>None\<close>. No code of the repository
  changes a collector after that.
\<close>

datatype metric_kind = Counter | Gauge | Histogram

record collector =
  co_kind :: metric_kind
  co_name :: string
  co_help :: string
  co_labels :: "string list"
  co_default_buckets :: bool

definition RequestsTotal :: collector where
  "RequestsTotal = \<lparr>co_kind = Counter, co_name = ''waffynx_requests_total'', co_help = ''Total number of requests processed'',
     co_labels = [''host'', ''method'', ''status''], co_default_buckets = False\<rparr>"

definition RequestsBlocked :: collector where
  "RequestsBlocked = \<lparr>co_kind = Counter, co_name = ''waffynx_requests_blocked_total'',
     co_help = ''Total number of requests blocked by WAF'', co_labels = [''rule_id'', ''reason''], co_default_buckets = False\<rparr>"

definition RequestDuration :: collector where
  "RequestDuration = \<lparr>co_kind = Histogram, co_name = ''waffynx_request_duration_seconds'',
     co_help = ''Request processing duration'', co_labels = [''host'', ''method''], co_default_buckets = True\<rparr>"

definition ActiveConnections :: collector where
  "ActiveConnections = \<lparr>co_kind = Gauge, co_name = ''waffynx_active_connections'',
     co_help = ''Current number of active connections'', co_labels = [], co_default_buckets = False\<rparr>"

definition UpstreamHealth :: collector where
  "UpstreamHealth = \<lparr>co_kind = Gauge, co_name = ''waffynx_upstream_healthy'',
     co_help = ''Upstream health status (1=healthy, 0=unhealthy)'', co_labels = [''upstream''], co_default_buckets = False\<rparr>"

definition PluginExecutions :: collector where
  "PluginExecutions = \<lparr>co_kind = Counter, co_name = ''waffynx_plugin_executions_total'',
     co_help = ''Total number of plugin executions'', co_labels = [''plugin'', ''phase''], co_default_buckets = False\<rparr>"

definition FirewallRules :: collector where
  "FirewallRules = \<lparr>co_kind = Gauge, co_name = ''waffynx_firewall_rules_total'',
     co_help = ''Total number of active firewall rules'', co_labels = [], co_default_buckets = False\<rparr>"

definition MustRegister :: "(collector \<Rightarrow> 'r \<Rightarrow> 'r option) \<Rightarrow> collector list \<Rightarrow> 'r \<Rightarrow> 'r option" where
  "MustRegister register cs r = fold_opt register cs r"

definition metrics_init :: "(collector \<Rightarrow> 'r \<Rightarrow> 'r option) \<Rightarrow> 'r \<Rightarrow> 'r option" where
  "metrics_init register =
     MustRegister register
       [RequestsTotal, RequestsBlocked, RequestDuration, ActiveConnections, UpstreamHealth, PluginExecutions, FirewallRules]"

text \<open>
  The registry as documented: a collector is refused if its name is taken, or if the name or a
  label is not an identifier, where a label has no colon. With it the start does not panic.
\<close>

definition metric_char :: "char \<Rightarrow> bool" where
  "metric_char c = (65 \<le> byte c \<and> byte c \<le> 90 \<or> 97 \<le> byte c \<and> byte c \<le> 122 \<or> c = CHR ''_'')"

definition metric_identifier :: "string \<Rightarrow> bool" where
  "metric_identifier s = (s \<noteq> [] \<and> metric_char (hd s) \<and> list_all (\<lambda>c. metric_char c \<or> is_digit c) s)"

definition documented_register :: "collector \<Rightarrow> collector list \<Rightarrow> collector list option" where
  "documented_register c cs =
     (if co_name c \<in> set (map co_name cs) \<or> \<not> metric_identifier (co_name c) \<or> \<not> list_all metric_identifier (co_labels c)
      then None else Some (cs @ [c]))"

lemma metrics_init_succeeds: "map_option (map co_name) (metrics_init documented_register []) = Some
  [''waffynx_requests_total'', ''waffynx_requests_blocked_total'', ''waffynx_request_duration_seconds'',
   ''waffynx_active_connections'', ''waffynx_upstream_healthy'', ''waffynx_plugin_executions_total'',
   ''waffynx_firewall_rules_total'']"
  by code_simp

end
