(* ===== verification/Spec2Isabelle.thy ===== *)
theory Spec2Isabelle
  imports Commands Delivery Report Gateway Tls BridgeRuns CppBridge Metrics
begin

text \<open>
  Verification library of Waffynx, a web application firewall around nginx, written in Go.

  \<^bold>\<open>The program.\<close> Five programs under \<^verbatim>\<open>src/cmd\<close> and \<^verbatim>\<open>src/internal\<close> work together.

  \<^item> \<^verbatim>\<open>waffynx start\<close> runs the engine: it loads plugins, starts nginx and serves the sidecar on a
    Unix socket. For every request nginx asks the sidecar's \<^verbatim>\<open>/evaluate\<close>, which runs the plugin
    chain, the policy rules, the custom rules and the anomaly scorer, answers 204 or a denial,
    and records the decision in the learning engine, the audit store and the event broker.
  \<^item> \<^verbatim>\<open>waf-api\<close> is the management API: login, configuration, plugins, marketplace, audit, bans,
    and a stream of the events that the sidecar's publisher posts to it.
  \<^item> \<^verbatim>\<open>waf-agent\<close> reads that stream on a host, counts blocked events per address in a sliding
    window, blocks an address with nftables or ufw, and offers the same to clients with a key.
  \<^item> \<^verbatim>\<open>appsec-bridge\<close> answers the scorer's bridge client over a Unix socket.
  \<^item> The gateway, a reverse proxy in Go with its router, upstream pools and certificate manager,
    is a library that no program of this commit starts.

  \<^bold>\<open>The theories.\<close> \<^theory_text>\<open>Waf_Prelude\<close> has what the components share; \<^theory_text>\<open>Interfaces\<close> the contracts that
  several components implement, as locales. Go's standard library, as far as the program
  calls it, comes first:

  \<^item> \<^theory_text>\<open>GoStrings\<close> (strings as bytes, runes, \<^verbatim>\<open>strconv\<close>, query decoding), \<^theory_text>\<open>GoFloat\<close> (binary64 as
    correctly rounded rationals), \<^theory_text>\<open>GoDyn\<close> (\<^verbatim>\<open>interface{}\<close>), \<^theory_text>\<open>GoNet\<close> (addresses), \<^theory_text>\<open>GoPath\<close>
    (\<^verbatim>\<open>filepath.Match\<close>), \<^theory_text>\<open>GoHttp\<close> (requests, responses), \<^theory_text>\<open>GoMux\<close> (\<^verbatim>\<open>ServeMux\<close>), \<^theory_text>\<open>GoJson\<close> (decoder),
    \<^theory_text>\<open>GoJsonText\<close> (encoder), \<^theory_text>\<open>GoJsonRead\<close> (what the decoder makes of encoded values), \<^theory_text>\<open>GoBase64\<close>.

  Then the program, a theory for each package or file, with the names of the source:

  \<^item> Data and rules: \<^theory_text>\<open>Config\<close> (\<^verbatim>\<open>config\<close>), \<^theory_text>\<open>Policy\<close> (\<^verbatim>\<open>policy\<close>), \<^theory_text>\<open>Rules\<close> (\<^verbatim>\<open>rules\<close>), \<^theory_text>\<open>PolicyStore\<close>
    (\<^verbatim>\<open>engine/policy.go\<close>), \<^theory_text>\<open>Marketplace\<close>, \<^theory_text>\<open>AuditStore\<close>, \<^theory_text>\<open>Learning\<close>, \<^theory_text>\<open>Events\<close> and \<^theory_text>\<open>EventWire\<close>
    (\<^verbatim>\<open>events\<close>).
  \<^item> Detection: \<^theory_text>\<open>RateLimit\<close>, \<^theory_text>\<open>Parsers\<close>, \<^theory_text>\<open>Appsec\<close>, \<^theory_text>\<open>PluginChain\<close> (\<^verbatim>\<open>plugin\<close>), \<^theory_text>\<open>Plugins\<close>
    (\<^verbatim>\<open>plugins/*\<close>).
  \<^item> The engine: \<^theory_text>\<open>Sidecar\<close> and \<^theory_text>\<open>SidecarHandlers\<close> (\<^verbatim>\<open>engine/sidecar.go\<close>), \<^theory_text>\<open>EngineRun\<close>
    (\<^verbatim>\<open>engine.go\<close>, \<^verbatim>\<open>engine_unix.go\<close>, \<^verbatim>\<open>runEngine\<close>), \<^theory_text>\<open>Deployment\<close> (the engine with its built-in plugins).
  \<^item> The management API: \<^theory_text>\<open>Auth\<close>, \<^theory_text>\<open>Api\<close> (state, middleware), \<^theory_text>\<open>ApiConfig\<close>, \<^theory_text>\<open>ApiHandlers\<close>, \<^theory_text>\<open>ApiUi\<close>,
    \<^theory_text>\<open>ApiServer\<close> (routes, start), and its properties in \<^theory_text>\<open>ApiProps\<close>, \<^theory_text>\<open>ApiRuns\<close>, \<^theory_text>\<open>ApiWitness\<close>.
  \<^item> The host: \<^theory_text>\<open>Firewall\<close>, \<^theory_text>\<open>Agent\<close> and \<^theory_text>\<open>AgentRuns\<close> (\<^verbatim>\<open>cmd/waf-agent\<close>).
  \<^item> The bridges to open-appsec: \<^theory_text>\<open>BridgeDaemon\<close> and \<^theory_text>\<open>BridgeRuns\<close> (\<^verbatim>\<open>cmd/appsec-bridge\<close>,
    \<^verbatim>\<open>appsec/bridge.go\<close>), and \<^theory_text>\<open>CppBridge\<close> (\<^verbatim>\<open>appsec/bridge_cpp_linux.go\<close>), the scorer that calls the C
    library, with the C heap as a map.
  \<^item> \<^theory_text>\<open>Metrics\<close>: the collectors of \<^verbatim>\<open>metrics.go\<close> and their registration.
  \<^item> The gateway: \<^theory_text>\<open>Router\<close>, \<^theory_text>\<open>Gateway\<close>, \<^theory_text>\<open>Upstream\<close>, \<^theory_text>\<open>Tls\<close>.
  \<^item> Across programs: \<^theory_text>\<open>Pipeline\<close> (from the sidecar's publisher to the ingest of the API),
    \<^theory_text>\<open>Report\<close> (what an evaluation records, and reports there), \<^theory_text>\<open>Delivery\<close> (from the stream of
    the API through the agent to the firewall commands) and \<^theory_text>\<open>Commands\<close> (every command from
    its configuration file to its last signal).

  \<^bold>\<open>How code becomes definitions.\<close> A struct is a record and its methods are functions from a state
  to a result and a new state. A call that can fail returns \<^verbatim>\<open>Inl\<close> of its error; a run-time panic
  is \<^verbatim>\<open>None\<close>. Mutexes make a method one atomic step, and concurrency is a sequence of such steps:
  what other goroutines do to a broker while a stream waits, what clients do to the API between
  two signals. What the operating system is asked to do is a log of commands or actions.
  The clock, the network, files, the YAML decoder, JWT, OIDC and bcrypt, GeoIP, Redis, nginx,
  the C library of open-appsec, the Prometheus registry,
  the Unicode tables and \<^verbatim>\<open>math.Log2\<close> are parameters, or fields of an environment record.

  \<^bold>\<open>Interfaces.\<close> \<^theory_text>\<open>first_match\<close> (a rule list searched in order) holds of the policy engine, the custom
  rules and the router; \<^theory_text>\<open>record_ring\<close> of the audit store and the learning engine; \<^theory_text>\<open>budget_limiter\<close>
  of both rate limiters; \<^theory_text>\<open>command_backend\<close> of both firewall backends; \<^theory_text>\<open>answering_plugin\<close> (a plugin
  that fails has answered, one that succeeds has not touched the answer) of the four plugins,
  and the sidecar's answers rest on it.

  \<^bold>\<open>What the lemmas show.\<close>

  \<^item> The request path (\<^theory_text>\<open>Sidecar\<close>, \<^theory_text>\<open>EngineRun\<close>, \<^theory_text>\<open>Deployment\<close>): an attack is denied, from the
    configuration file to the answer; an evaluation is the decision that the specification
    gives, and all that it records and reports is accounted for (\<^theory_text>\<open>Report\<close>); no sequence of
    requests makes the sidecar panic or breaks its state. Below it the exact behaviour of the parts: first match, plugin answers,
    scoring and its thresholds, rate limits with their rounding, rings that keep the newest.
  \<^item> The management API (\<^theory_text>\<open>ApiProps\<close>, \<^theory_text>\<open>ApiRuns\<close>, \<^theory_text>\<open>ApiWitness\<close>): by induction over reachable states,
    every request is answered and keeps the state well formed; who may change what, sessions,
    audit, configuration updates that are all or nothing, addresses that are checked before
    they reach a command, files that stay inside their directory.
  \<^item> Between programs (\<^theory_text>\<open>Pipeline\<close>, \<^theory_text>\<open>Delivery\<close>, \<^theory_text>\<open>AgentRuns\<close>, \<^theory_text>\<open>BridgeRuns\<close>): a published event
    arrives unchanged, the commands that a host runs are those due for the events of the
    stream, against a reference without state, and a scorer behind the bridge gives the
    answers of the scorer itself; the cgo scorer uses its memory and its handle safely, but
    for the texts it leaks.
  \<^item> Life cycles (\<^theory_text>\<open>EngineRun\<close>, \<^theory_text>\<open>Commands\<close>): the order of what an engine does to the system, and
    the commands from start to last signal, with the conditions under which they refuse.
  \<^item> The gateway (\<^theory_text>\<open>Router\<close>, \<^theory_text>\<open>Gateway\<close>, \<^theory_text>\<open>Upstream\<close>, \<^theory_text>\<open>Tls\<close>): what a pattern matches, against a
    set of strings; what is forwarded in every reachable state; fair and healthy choice of a
    target; which certificate is shown.
  \<^item> The Go library (the theories \<^verbatim>\<open>Go...\<close>): round trips of the JSON encoder and decoder, base 64, numbers and
    addresses; monotonicity and error bounds of rounding.

  \<^bold>\<open>Bounds and fuel.\<close> Recursion is structural, or has a measure on the length of the text that is
  left, so every operation is total; the only fuel is in \<^theory_text>\<open>GoPath\<close>, where a character class is read
  with the length of the pattern, which every round shortens. The loops of Go that wait for
  events are functions of the sequence of events that arrive. 64-bit wrap-around is kept where
  the program can reach it: the counters of the upstream pools, the clean-up interval of the
  agent. Times and other integers are unbounded. The exponent range of \<^verbatim>\<open>float64\<close> is not bounded.
  A walk over a Go map, whose order is not specified, takes the order of insertion.

  \<^bold>\<open>Not modelled.\<close> The code that \<^verbatim>\<open>protoc\<close> generated (\<^verbatim>\<open>pkg/proto\<close>); log lines; the embedded
  dashboard and the version constants; flag parsing and usage texts (the \<^verbatim>\<open>cobra\<close> library); the
  handler of Prometheus; the redirections of \<^verbatim>\<open>ServeMux\<close>; the draining of requests in a graceful
  shutdown; data races on a configuration that is replaced while a handler reads it.
\<close>

end
